(* ===== verification/Prelude.thy ===== *)
theory Prelude
  imports Complex_Main "HOL-Library.Word"
begin

text \<open>
  Shared ground of the development: the Go values every component uses (bytes, machine
  integers, instants), the outcomes of a Go computation (a value, a run-time panic, or no
  return), checked indexing and slicing of byte slices, and the little-endian accessors of
  \<^verbatim>\<open>encoding/binary\<close>.  The collections \<open>go_simps\<close> (evaluation of checked operations) and
  \<open>bytes_simps\<close> (byte layout) carry the component proofs.
\<close>

unbundle bit_operations_syntax

named_theorems go_simps \<open>evaluation of Go outcomes and checked accesses\<close>
named_theorems bytes_simps \<open>layout of byte sequences\<close>

section \<open>Machine values\<close>

type_synonym byte = "8 word"
type_synonym uint8 = "8 word"
type_synonym uint16 = "16 word"
type_synonym uint32 = "32 word"
type_synonym uint64 = "64 word"

text \<open>
  A \<^verbatim>\<open>time.Time\<close> is its count of nanoseconds since the Unix epoch (an unbounded integer: the
  Go type covers far more than 64 bits), a \<^verbatim>\<open>time.Duration\<close> its count of nanoseconds.
\<close>

type_synonym instant = int
type_synonym duration = int

definition saturate64 :: "int \<Rightarrow> int" where
  "saturate64 d = max (- (2 ^ 63)) (min (2 ^ 63 - 1) d)"

text \<open>\<^verbatim>\<open>Time.Sub\<close>: the difference, saturated to the range of a 64-bit duration.\<close>

definition time_sub :: "instant \<Rightarrow> instant \<Rightarrow> duration" where
  "time_sub t u = saturate64 (t - u)"

text \<open>\<^verbatim>\<open>Time.UnixMilli\<close> rounds towards minus infinity, \<^verbatim>\<open>Duration.Milliseconds\<close> towards zero.\<close>

definition unix_milli :: "instant \<Rightarrow> int" where
  "unix_milli t = t div 1000000"

definition trunc_div :: "int \<Rightarrow> int \<Rightarrow> int" where
  "trunc_div a b = sgn a * sgn b * (\<bar>a\<bar> div \<bar>b\<bar>)"

definition duration_millis :: "duration \<Rightarrow> int" where
  "duration_millis d = trunc_div d 1000000"

lemma saturate64_id [simp]: "- (2 ^ 63) \<le> d \<Longrightarrow> d < 2 ^ 63 \<Longrightarrow> saturate64 d = d"
  by (simp add: saturate64_def)

lemma saturate64_less_iff: "- (2 ^ 63) \<le> c \<Longrightarrow> c < 2 ^ 63 - 1 \<Longrightarrow> c < saturate64 d \<longleftrightarrow> c < d"
  by (auto simp: saturate64_def)

lemma time_sub_gt_iff:
  "- (2 ^ 63) \<le> c \<Longrightarrow> c < 2 ^ 63 - 1 \<Longrightarrow> c < time_sub t u \<longleftrightarrow> c < t - u"
  by (simp add: time_sub_def saturate64_less_iff)

section \<open>Outcomes of a Go computation\<close>

text \<open>
  A run-time panic carries the reason the run-time system gives it.  \<open>Diverge\<close> is the outcome of
  a computation that never returns.
\<close>

datatype panic =
    IndexOutOfRange
  | NilDereference
  | SendOnClosedChannel
  | CloseOfClosedChannel
  | MakesliceLenOutOfRange
  | IntegerDivideByZero
  | PatternConflict
  | NonPositiveTicker

datatype 'a go = Val 'a | Panic panic | Diverge

fun go_bind :: "'a go \<Rightarrow> ('a \<Rightarrow> 'b go) \<Rightarrow> 'b go" where
  "go_bind (Val x) f = f x"
| "go_bind (Panic p) f = Panic p"
| "go_bind Diverge f = Diverge"

lemma go_bind_Val_iff: "go_bind m f = Val y \<longleftrightarrow> (\<exists>x. m = Val x \<and> f x = Val y)"
  by (cases m) auto

lemma go_bind_assoc: "go_bind (go_bind m f) g = go_bind m (\<lambda>x. go_bind (f x) g)"
  by (cases m) auto

lemma go_bind_cong [fundef_cong]:
  "m = m' \<Longrightarrow> (\<And>x. m' = Val x \<Longrightarrow> f x = f' x) \<Longrightarrow> go_bind m f = go_bind m' f'"
  by (cases m') auto

definition of_option :: "'a option \<Rightarrow> 'a go" where
  "of_option r = (case r of None \<Rightarrow> Diverge | Some x \<Rightarrow> Val x)"

lemma of_option_simps [simp]: "of_option None = Diverge" "of_option (Some x) = Val x"
  by (simp_all add: of_option_def)

section \<open>Computations on a shared state\<close>

text \<open>
  An operation on a component returns an outcome and leaves a state.  A panic keeps the mutations
  done before it: the program recovers from panics in its goroutines and goes on with that state.
\<close>

type_synonym ('s, 'a) act = "'s \<Rightarrow> 'a go \<times> 's"

definition act_return :: "'a \<Rightarrow> ('s, 'a) act" where
  "act_return x s = (Val x, s)"

definition act_go :: "'a go \<Rightarrow> ('s, 'a) act" where
  "act_go r s = (r, s)"

definition act_modify :: "('s \<Rightarrow> 's) \<Rightarrow> ('s, unit) act" where
  "act_modify f s = (Val (), f s)"

definition act_bind :: "('s, 'a) act \<Rightarrow> ('a \<Rightarrow> ('s, 'b) act) \<Rightarrow> ('s, 'b) act" where
  "act_bind m f s =
    (case m s of
       (Val x, s') \<Rightarrow> f x s'
     | (Panic p, s') \<Rightarrow> (Panic p, s')
     | (Diverge, s') \<Rightarrow> (Diverge, s'))"

definition act_then :: "('s, unit) act \<Rightarrow> ('s, 'b) act \<Rightarrow> ('s, 'b) act" where
  "act_then m k = act_bind m (\<lambda>_. k)"

named_theorems act_simps \<open>evaluation of computations on a state\<close>

lemma act_primitives [act_simps]:
  "act_return x s = (Val x, s)" "act_go r s = (r, s)" "act_modify f s = (Val (), f s)"
  by (simp_all add: act_return_def act_go_def act_modify_def)

lemma act_bind_Val [act_simps]: "m s = (Val x, s') \<Longrightarrow> act_bind m f s = f x s'"
  by (simp add: act_bind_def)

lemma act_bind_Panic [act_simps]: "m s = (Panic p, s') \<Longrightarrow> act_bind m f s = (Panic p, s')"
  by (simp add: act_bind_def)

lemma act_bind_primitives [act_simps]:
  "act_bind (act_return x) f s = f x s" "act_bind (act_modify g) f s = f () (g s)"
  "act_bind (act_go (Val y)) f s = f y s" "act_bind (act_go (Panic p)) f s = (Panic p, s)"
  by (simp_all add: act_bind_def act_primitives)

lemma act_then_simps [act_simps]:
  "m s = (Val (), s') \<Longrightarrow> act_then m k s = k s'" "m s = (Panic p, s') \<Longrightarrow> act_then m k s = (Panic p, s')"
  "act_then (act_modify g) k s = k (g s)"
  by (simp_all add: act_then_def act_simps)

text \<open>\<^verbatim>\<open>recover()\<close> in a goroutine: whether it panicked, in the state it left.\<close>

definition recovered :: "('s, 'a) act \<Rightarrow> 's \<Rightarrow> bool \<times> 's" where
  "recovered m s = (case m s of (Panic _, s') \<Rightarrow> (True, s') | (_, s') \<Rightarrow> (False, s'))"

section \<open>Checked access to byte slices\<close>

text \<open>\<^verbatim>\<open>s[i]\<close> and \<^verbatim>\<open>s[i:j]\<close> panic out of range.\<close>

definition index_at :: "'a list \<Rightarrow> nat \<Rightarrow> 'a go" where
  "index_at s i = (if i < length s then Val (s ! i) else Panic IndexOutOfRange)"

definition slice_of :: "'a list \<Rightarrow> nat \<Rightarrow> nat \<Rightarrow> 'a list go" where
  "slice_of s i j = (if i \<le> j \<and> j \<le> length s then Val (take (j - i) (drop i s)) else Panic IndexOutOfRange)"

lemma index_at_Val [go_simps]: "i < length s \<Longrightarrow> index_at s i = Val (s ! i)"
  by (simp add: index_at_def)

lemma slice_of_Val [go_simps]: "i \<le> j \<Longrightarrow> j \<le> length s \<Longrightarrow> slice_of s i j = Val (take (j - i) (drop i s))"
  by (simp add: slice_of_def)

lemma length_slice_of: "slice_of s i j = Val t \<Longrightarrow> length t = j - i"
  by (auto simp: slice_of_def split: if_splits)

section \<open>Little-endian integers\<close>

definition u16_of :: "byte \<Rightarrow> byte \<Rightarrow> uint16" where
  "u16_of b0 b1 = ucast b0 OR push_bit 8 (ucast b1)"

definition u32_of :: "byte \<Rightarrow> byte \<Rightarrow> byte \<Rightarrow> byte \<Rightarrow> uint32" where
  "u32_of b0 b1 b2 b3 =
     ucast b0 OR push_bit 8 (ucast b1) OR push_bit 16 (ucast b2) OR push_bit 24 (ucast b3)"

text \<open>\<^verbatim>\<open>binary.LittleEndian.Uint16\<close> and \<^verbatim>\<open>Uint32\<close> panic on a slice that is too short.\<close>

definition le_uint16 :: "byte list \<Rightarrow> uint16 go" where
  "le_uint16 s = (case s of b0 # b1 # _ \<Rightarrow> Val (u16_of b0 b1) | _ \<Rightarrow> Panic IndexOutOfRange)"

definition le_uint32 :: "byte list \<Rightarrow> uint32 go" where
  "le_uint32 s =
     (case s of b0 # b1 # b2 # b3 # _ \<Rightarrow> Val (u32_of b0 b1 b2 b3) | _ \<Rightarrow> Panic IndexOutOfRange)"

text \<open>The bytes \<^verbatim>\<open>binary.LittleEndian.PutUint16\<close> and \<^verbatim>\<open>PutUint32\<close> write.\<close>

definition put_uint16 :: "uint16 \<Rightarrow> byte list" where
  "put_uint16 w = [ucast w, ucast (drop_bit 8 w)]"

definition put_uint32 :: "uint32 \<Rightarrow> byte list" where
  "put_uint32 w = [ucast w, ucast (drop_bit 8 w), ucast (drop_bit 16 w), ucast (drop_bit 24 w)]"

lemma length_put_uint16 [simp]: "length (put_uint16 w) = 2"
  by (simp add: put_uint16_def)

lemma length_put_uint32 [simp]: "length (put_uint32 w) = 4"
  by (simp add: put_uint32_def)

lemma u16_of_put: "u16_of (ucast w) (ucast (drop_bit 8 w)) = w"
  unfolding u16_of_def
  by (rule bit_eqI) (auto simp: bit_simps not_le less_diff_conv2)

lemma u32_of_put:
  "u32_of (ucast w) (ucast (drop_bit 8 w)) (ucast (drop_bit 16 w)) (ucast (drop_bit 24 w)) = w"
  unfolding u32_of_def
  by (rule bit_eqI)
    (auto simp: bit_simps not_le not_less less_diff_conv2 le_add_diff_inverse intro: ccontr)

lemma le_uint16_put [simp, bytes_simps]: "le_uint16 (put_uint16 w @ r) = Val w"
  by (simp add: le_uint16_def put_uint16_def u16_of_put)

lemma le_uint32_put [simp, bytes_simps]: "le_uint32 (put_uint32 w @ r) = Val w"
  by (simp add: le_uint32_def put_uint32_def u32_of_put)

lemma le_uint16_ge2: "2 \<le> length s \<Longrightarrow> le_uint16 s = Val (u16_of (s ! 0) (s ! 1))"
  by (auto simp: le_uint16_def numeral_2_eq_2 split: list.splits)

lemma le_uint32_ge4: "4 \<le> length s \<Longrightarrow> le_uint32 s = Val (u32_of (s ! 0) (s ! 1) (s ! 2) (s ! 3))"
  by (auto simp: le_uint32_def eval_nat_numeral split: list.splits)

lemma le_uint16_take_drop [go_simps]:
  "2 \<le> n \<Longrightarrow> i + 2 \<le> length s \<Longrightarrow>
     le_uint16 (take n (drop i s)) = Val (u16_of (s ! i) (s ! (i + 1)))"
  by (simp add: le_uint16_ge2)

lemma le_uint32_take_drop [go_simps]:
  "4 \<le> n \<Longrightarrow> i + 4 \<le> length s \<Longrightarrow>
     le_uint32 (take n (drop i s))
       = Val (u32_of (s ! i) (s ! (i + 1)) (s ! (i + 2)) (s ! (i + 3)))"
  by (simp add: le_uint32_ge4)

end
