(* ===== verification/Float64.thy ===== *)
theory Float64
  imports Prelude
begin

text \<open>
  Go's \<^verbatim>\<open>float64\<close>: IEEE 754 binary64 with rounding to nearest, ties to even.  A finite value is
  the rational it denotes; the two zeros, the infinities and NaN are told apart (NaN payloads are
  not).  An operation is the exact rational operation followed by one rounding, which is how the
  standard defines it and what Go does where it does not fuse a multiplication with an addition
  (the amd64 code generator).  The laws proved here (rounding is monotone, odd, and the identity
  on the values it returns) are what the clients use; nothing is assumed.
\<close>

section \<open>Rounding a rational\<close>

fun bit_len :: "nat \<Rightarrow> nat" where
  "bit_len n = (if n = 0 then 0 else Suc (bit_len (n div 2)))"

declare bit_len.simps [simp del]

text \<open>The exponent of the leading bit: the \<open>k\<close> with \<open>2 ^ k \<le> q < 2 ^ (k + 1)\<close>.\<close>

definition lead_exp :: "rat \<Rightarrow> int" where
  "lead_exp q =
     (case quotient_of q of (a, b) \<Rightarrow>
       let k = int (bit_len (nat a)) - int (bit_len (nat b))
       in if 2 powi k \<le> q then k else k - 1)"

text \<open>The exponent of the last of the 53 bits, not below that of the subnormal numbers.\<close>

definition ulp_exp :: "rat \<Rightarrow> int" where
  "ulp_exp q = max (lead_exp \<bar>q\<bar> - 52) (- 1074)"

definition round_even :: "rat \<Rightarrow> int" where
  "round_even x =
     (let f = \<lfloor>x\<rfloor>; d = x - of_int f
      in if d < 1 / 2 then f else if 1 / 2 < d then f + 1 else if even f then f else f + 1)"

definition fround :: "rat \<Rightarrow> rat" where
  "fround q =
     (if q = 0 then 0 else of_int (round_even (q / 2 powi ulp_exp q)) * 2 powi ulp_exp q)"

subsection \<open>Leading exponent\<close>

lemma bit_len_bounds: "0 < n \<Longrightarrow> 2 ^ (bit_len n - 1) \<le> n \<and> n < 2 ^ bit_len n \<and> 0 < bit_len n"
proof (induction n rule: bit_len.induct)
  case (1 n)
  show ?case
  proof (cases "n div 2 = 0")
    case True
    with "1.prems" have "n = 1" by auto
    then show ?thesis by (simp add: bit_len.simps)
  next
    case False
    with "1" have IH: "2 ^ (bit_len (n div 2) - 1) \<le> n div 2" "n div 2 < 2 ^ bit_len (n div 2)"
      "0 < bit_len (n div 2)" by auto
    have eq: "bit_len n = Suc (bit_len (n div 2))"
      using "1.prems" by (subst bit_len.simps) simp
    have pow: "(2::nat) ^ bit_len (n div 2) = 2 * 2 ^ (bit_len (n div 2) - 1)"
      using IH(3) by (cases "bit_len (n div 2)") auto
    from IH(1) have "2 * 2 ^ (bit_len (n div 2) - 1) \<le> n" by linarith
    moreover from IH(2) have "n < 2 * 2 ^ bit_len (n div 2)" by linarith
    ultimately show ?thesis by (simp add: eq pow)
  qed
qed

lemma powi_bit_len:
  assumes "0 < a"
  shows "2 powi (int (bit_len (nat a)) - 1) \<le> (of_int a :: rat)"
    and "(of_int a :: rat) < 2 powi int (bit_len (nat a))"
proof -
  let ?n = "bit_len (nat a)"
  from assms have b: "2 ^ (?n - 1) \<le> nat a" "nat a < 2 ^ ?n" "0 < ?n"
    using bit_len_bounds [of "nat a"] by auto
  have a: "(of_int a :: rat) = of_nat (nat a)" using assms by simp
  have e: "int ?n - 1 = int (?n - 1)" using b(3) by linarith
  have "(of_nat (2 ^ (?n - 1)) :: rat) \<le> of_nat (nat a)" using b(1) by (rule of_nat_mono)
  then have "(2::rat) ^ (?n - 1) \<le> of_nat (nat a)" by (simp only: of_nat_power of_nat_numeral)
  then show "2 powi (int ?n - 1) \<le> (of_int a :: rat)"
    unfolding a e power_int_of_nat .
  have "(of_nat (nat a) :: rat) < of_nat (2 ^ ?n)" using b(2) by (simp only: of_nat_less_iff)
  then have "(of_nat (nat a) :: rat) < 2 ^ ?n" by (simp only: of_nat_power of_nat_numeral)
  then show "(of_int a :: rat) < 2 powi int ?n"
    unfolding a power_int_of_nat .
qed

lemma lead_exp_bounds:
  assumes "0 < q"
  shows "2 powi lead_exp q \<le> q" and "q < 2 powi (lead_exp q + 1)"
proof -
  obtain a b where ab: "quotient_of q = (a, b)" by (cases "quotient_of q")
  then have b0: "0 < b" by (rule quotient_of_denom_pos)
  have q: "q = of_int a / of_int b" using quotient_of_div [OF ab] .
  with assms b0 have a0: "0 < a" by (simp add: zero_less_divide_iff)
  let ?la = "int (bit_len (nat a))" and ?lb = "int (bit_len (nat b))"
  let ?k = "?la - ?lb"
  have up: "q < 2 powi (?k + 1)"
  proof -
    have "q < 2 powi ?la / 2 powi (?lb - 1)"
      unfolding q using powi_bit_len [OF a0] powi_bit_len [OF b0] a0 b0
      by (intro frac_less) (simp_all add: less_imp_le)
    also have "\<dots> = 2 powi (?k + 1)"
      by (subst power_int_diff [symmetric]) (auto simp: algebra_simps)
    finally show ?thesis .
  qed
  have lo: "2 powi (?k - 1) \<le> q"
  proof -
    have "2 powi (?la - 1) / 2 powi ?lb \<le> q"
      unfolding q using powi_bit_len [OF a0] powi_bit_len [OF b0] a0 b0
      by (intro frac_le) (simp_all add: less_imp_le)
    then show ?thesis
      by (subst (asm) power_int_diff [symmetric]) (auto simp: algebra_simps)
  qed
  have def: "lead_exp q = (if 2 powi ?k \<le> q then ?k else ?k - 1)"
    by (simp add: lead_exp_def ab Let_def)
  show "2 powi lead_exp q \<le> q" using lo by (auto simp: def)
  show "q < 2 powi (lead_exp q + 1)" using up by (auto simp: def)
qed

lemma powi_less_cancel: "(2::rat) powi m < 2 powi n \<longleftrightarrow> m < n"
  by (metis linorder_not_less one_le_numeral power_int_increasing power_int_strict_increasing
      one_less_numeral_iff semiring_norm(76))

lemma lead_exp_mono:
  assumes "0 < x" "x \<le> y"
  shows "lead_exp x \<le> lead_exp y"
proof -
  have "2 powi lead_exp x \<le> x" "y < 2 powi (lead_exp y + 1)"
    using assms lead_exp_bounds [of x] lead_exp_bounds [of y] by auto
  then have "(2::rat) powi lead_exp x < 2 powi (lead_exp y + 1)" using assms by linarith
  then show ?thesis by (simp add: powi_less_cancel)
qed

subsection \<open>Rounding to an integer\<close>

lemma round_even_of_int [simp]: "round_even (of_int n) = n"
  by (simp add: round_even_def)

lemma round_even_floor: "round_even x = \<lfloor>x\<rfloor> \<or> round_even x = \<lfloor>x\<rfloor> + 1"
  by (simp add: round_even_def Let_def)

lemma round_even_mono: "x \<le> y \<Longrightarrow> round_even x \<le> round_even y"
proof -
  assume le: "x \<le> y"
  then have fl: "\<lfloor>x\<rfloor> \<le> \<lfloor>y\<rfloor>" by (rule floor_mono)
  show ?thesis
  proof (cases "\<lfloor>x\<rfloor> = \<lfloor>y\<rfloor>")
    case True
    then show ?thesis using le by (simp add: round_even_def Let_def)
  next
    case False
    with fl have "\<lfloor>x\<rfloor> + 1 \<le> \<lfloor>y\<rfloor>" by simp
    then show ?thesis using round_even_floor [of x] round_even_floor [of y] by linarith
  qed
qed

lemma round_even_minus: "round_even (- x) = - round_even x"
proof (cases "x = of_int \<lfloor>x\<rfloor>")
  case True
  then have "- x = of_int (- \<lfloor>x\<rfloor>)" by simp
  then show ?thesis using True by (metis round_even_of_int)
next
  case False
  then have lt: "of_int \<lfloor>x\<rfloor> < x" using of_int_floor_le [of x] by linarith
  have fl: "\<lfloor>- x\<rfloor> = - \<lfloor>x\<rfloor> - 1"
    by (rule floor_unique) (use lt floor_correct [of x] in auto)
  show ?thesis by (auto simp: round_even_def Let_def fl)
qed

lemma round_even_error: "\<bar>of_int (round_even x) - x\<bar> \<le> 1 / 2"
  using floor_correct [of x] by (auto simp: round_even_def Let_def abs_le_iff)

subsection \<open>Laws of rounding\<close>

lemma ulp_exp_ge: "- 1074 \<le> ulp_exp q"
  by (simp add: ulp_exp_def)

lemma ulp_exp_minus [simp]: "ulp_exp (- q) = ulp_exp q"
  by (simp add: ulp_exp_def)

lemma fround_0 [simp]: "fround 0 = 0"
  by (simp add: fround_def)

lemma fround_minus: "fround (- q) = - fround q"
  by (simp add: fround_def round_even_minus)

text \<open>Rounding does not cross a multiple of the last place.\<close>

lemma fround_le_multiple:
  assumes "q \<le> of_int m * 2 powi ulp_exp q"
  shows "fround q \<le> of_int m * 2 powi ulp_exp q"
proof (cases "q = 0")
  case True
  then show ?thesis using assms by simp
next
  case False
  have "q / 2 powi ulp_exp q \<le> of_int m" using assms by (simp add: divide_le_eq)
  then have "round_even (q / 2 powi ulp_exp q) \<le> m"
    using round_even_mono [of _ "of_int m"] by simp
  then show ?thesis using False by (simp add: fround_def)
qed

lemma fround_ge_multiple:
  assumes "of_int m * 2 powi ulp_exp q \<le> q"
  shows "of_int m * 2 powi ulp_exp q \<le> fround q"
  using fround_le_multiple [of "- q" "- m"] assms by (simp add: fround_minus)

lemma powi_multiple:
  assumes "a \<le> (b::int)"
  shows "\<exists>m. (2::rat) powi b = of_int m * 2 powi a"
proof -
  have "(2::rat) powi b = 2 powi (b - a) * 2 powi a"
    by (simp add: power_int_diff)
  also have "(2::rat) powi (b - a) = of_int (2 ^ nat (b - a))"
    using assms by (simp add: power_int_def)
  finally show ?thesis by blast
qed

lemma fround_le_powi: "ulp_exp q \<le> k \<Longrightarrow> q \<le> 2 powi k \<Longrightarrow> fround q \<le> 2 powi k"
  using powi_multiple [of "ulp_exp q" k] fround_le_multiple [of q] by metis

lemma fround_ge_powi: "ulp_exp q \<le> k \<Longrightarrow> 2 powi k \<le> q \<Longrightarrow> 2 powi k \<le> fround q"
  using powi_multiple [of "ulp_exp q" k] fround_ge_multiple [of _ q] by metis

lemma fround_nonneg: "0 \<le> q \<Longrightarrow> 0 \<le> fround q"
  using fround_ge_multiple [of 0 q] by simp

lemma fround_mono_pos:
  assumes "0 < x" "x \<le> y"
  shows "fround x \<le> fround y"
proof (cases "ulp_exp x = ulp_exp y")
  case True
  have "x / 2 powi ulp_exp y \<le> y / 2 powi ulp_exp y"
    using assms by (intro divide_right_mono) auto
  from round_even_mono [OF this] show ?thesis
    using assms True by (simp add: fround_def)
next
  case False
  have le: "lead_exp x \<le> lead_exp y" using assms by (rule lead_exp_mono)
  with False assms have lt: "ulp_exp x \<le> lead_exp y" "ulp_exp y \<le> lead_exp y" "lead_exp x < lead_exp y"
    by (auto simp: ulp_exp_def max_def split: if_splits)
  have "x \<le> 2 powi (lead_exp x + 1)" using lead_exp_bounds(2) [of x] assms by simp
  also have "\<dots> \<le> 2 powi lead_exp y" using lt(3) by (intro power_int_increasing) auto
  finally have "fround x \<le> 2 powi lead_exp y" by (rule fround_le_powi [OF lt(1)])
  also have "2 powi lead_exp y \<le> fround y"
    using lt(2) lead_exp_bounds(1) [of y] assms by (intro fround_ge_powi) auto
  finally show ?thesis .
qed

lemma fround_mono: "x \<le> y \<Longrightarrow> fround x \<le> fround y"
proof -
  assume le: "x \<le> y"
  consider "0 < x" | "x \<le> 0" "0 \<le> y" | "y < 0" by linarith
  then show ?thesis
  proof cases
    case 1
    then show ?thesis using le by (rule fround_mono_pos)
  next
    case 2
    then have "0 \<le> fround (- x)" "0 \<le> fround y" by (simp_all add: fround_nonneg)
    then show ?thesis by (simp add: fround_minus)
  next
    case 3
    then have "fround (- y) \<le> fround (- x)" using le by (intro fround_mono_pos) auto
    then show ?thesis by (simp add: fround_minus)
  qed
qed

text \<open>The values that rounding leaves alone.\<close>

definition dyadic53 :: "rat \<Rightarrow> bool" where
  "dyadic53 q \<longleftrightarrow> (\<exists>m e. q = of_int m * 2 powi e \<and> \<bar>m\<bar> < 2 ^ 53 \<and> - 1074 \<le> e)"

lemma dyadic53I: "q = of_int m * 2 powi e \<Longrightarrow> \<bar>m\<bar> < 2 ^ 53 \<Longrightarrow> - 1074 \<le> e \<Longrightarrow> dyadic53 q"
  by (auto simp: dyadic53_def)

lemma fround_multiple: "q = of_int m * 2 powi ulp_exp q \<Longrightarrow> fround q = q"
  using fround_le_multiple [of q m] fround_ge_multiple [of m q] by simp

lemma fround_dyadic53:
  assumes "dyadic53 q"
  shows "fround q = q"
proof (cases "q = 0")
  case False
  from assms obtain m e where q: "q = of_int m * 2 powi e" and m: "\<bar>m\<bar> < 2 ^ 53" and e: "- 1074 \<le> e"
    by (auto simp: dyadic53_def)
  have "2 powi lead_exp \<bar>q\<bar> \<le> \<bar>q\<bar>" using False by (intro lead_exp_bounds(1)) simp
  also have "\<bar>q\<bar> = of_int \<bar>m\<bar> * 2 powi e" by (simp add: q abs_mult)
  also have "\<dots> < of_int (2 ^ 53) * 2 powi e" using m by (intro mult_strict_right_mono) (simp_all only: of_int_less_iff, simp)
  also have "\<dots> = 2 powi (53 + e)" by (simp add: power_int_add)
  finally have "lead_exp \<bar>q\<bar> < 53 + e" by (simp add: powi_less_cancel)
  then have "ulp_exp q \<le> e" using e by (simp add: ulp_exp_def)
  then obtain k where "(2::rat) powi e = of_int k * 2 powi ulp_exp q"
    using powi_multiple by blast
  then have "q = of_int (m * k) * 2 powi ulp_exp q" unfolding q by (simp add: mult.assoc)
  then show ?thesis by (rule fround_multiple)
qed simp

lemma fround_int: "\<bar>n\<bar> < 2 ^ 53 \<Longrightarrow> fround (of_int n) = of_int n"
  by (rule fround_dyadic53) (rule dyadic53I [where m = n and e = 0], auto)

text \<open>The distance to the exact value: half a unit in the last place.\<close>

lemma fround_error: "\<bar>fround q - q\<bar> \<le> 2 powi ulp_exp q / 2"
proof (cases "q = 0")
  case False
  let ?u = "(2::rat) powi ulp_exp q"
  have "fround q - q = (of_int (round_even (q / ?u)) - q / ?u) * ?u"
    using False by (simp add: fround_def left_diff_distrib)
  then have "\<bar>fround q - q\<bar> = \<bar>of_int (round_even (q / ?u)) - q / ?u\<bar> * ?u"
    by (simp add: abs_mult)
  also have "\<dots> \<le> 1 / 2 * ?u"
    by (intro mult_right_mono round_even_error) simp
  finally show ?thesis by simp
qed simp

lemma fround_rel_error: "\<bar>fround q - q\<bar> \<le> \<bar>q\<bar> / 2 ^ 53 + 2 powi (- 1075)"
proof (cases "q = 0")
  case False
  have "\<bar>fround q - q\<bar> \<le> 2 powi ulp_exp q / 2" by (rule fround_error)
  also have "\<dots> \<le> \<bar>q\<bar> / 2 ^ 53 + 2 powi (- 1075)"
  proof (cases "lead_exp \<bar>q\<bar> - 52 \<le> - 1074")
    case True
    then have "ulp_exp q = - 1074" by (simp add: ulp_exp_def)
    then have "(2::rat) powi ulp_exp q / 2 = 2 powi (- 1075)"
      by (simp add: power_int_minus)
    then show ?thesis by simp
  next
    case nrm: False
    then have "ulp_exp q = lead_exp \<bar>q\<bar> - 52" by (simp add: ulp_exp_def)
    then have "(2::rat) powi ulp_exp q / 2 = 2 powi lead_exp \<bar>q\<bar> / 2 ^ 53"
      by (simp add: power_int_diff)
    also have "\<dots> \<le> \<bar>q\<bar> / 2 ^ 53"
      using False by (intro divide_right_mono lead_exp_bounds(1)) simp_all
    finally show ?thesis by (simp add: add_increasing2)
  qed
  finally show ?thesis .
qed simp

section \<open>Values and operations\<close>

datatype f64 = NaN | PInf | NInf | NZero | Fin rat

fun fval :: "f64 \<Rightarrow> rat" where
  "fval (Fin q) = q"
| "fval _ = 0"

fun is_neg :: "f64 \<Rightarrow> bool" where
  "is_neg (Fin q) = (q < 0)"
| "is_neg x = (x = NInf \<or> x = NZero)"

fun is_inf :: "f64 \<Rightarrow> bool" where
  "is_inf PInf = True"
| "is_inf NInf = True"
| "is_inf _ = False"

fun is_finite :: "f64 \<Rightarrow> bool" where
  "is_finite (Fin q) = True"
| "is_finite NZero = True"
| "is_finite _ = False"

definition max_pow :: rat where
  "max_pow = 2 ^ 1024"

text \<open>Round an exact result; the sign bit matters when the result is a zero.\<close>

definition pack :: "bool \<Rightarrow> rat \<Rightarrow> f64" where
  "pack neg q =
     (let r = fround q
      in if r = 0 then (if neg then NZero else Fin 0)
         else if max_pow \<le> r then PInf else if r \<le> - max_pow then NInf else Fin r)"

definition f64_of_int :: "int \<Rightarrow> f64" where
  "f64_of_int n = pack False (of_int n)"

text \<open>A constant of the source, rounded by the compiler.\<close>

definition f64_lit :: "rat \<Rightarrow> f64" where
  "f64_lit q = pack False q"

fun f64_neg :: "f64 \<Rightarrow> f64" where
  "f64_neg NaN = NaN"
| "f64_neg PInf = NInf"
| "f64_neg NInf = PInf"
| "f64_neg NZero = Fin 0"
| "f64_neg (Fin q) = (if q = 0 then NZero else Fin (- q))"

definition f64_add :: "f64 \<Rightarrow> f64 \<Rightarrow> f64" where
  "f64_add x y =
     (if x = NaN \<or> y = NaN then NaN
      else if is_inf x then (if is_inf y \<and> x \<noteq> y then NaN else x)
      else if is_inf y then y
      else if x = NZero \<and> y = NZero then NZero
      else pack False (fval x + fval y))"

definition f64_sub :: "f64 \<Rightarrow> f64 \<Rightarrow> f64" where
  "f64_sub x y = f64_add x (f64_neg y)"

definition signed_inf :: "bool \<Rightarrow> f64" where
  "signed_inf neg = (if neg then NInf else PInf)"

definition f64_mul :: "f64 \<Rightarrow> f64 \<Rightarrow> f64" where
  "f64_mul x y =
     (let neg = (is_neg x \<noteq> is_neg y)
      in if x = NaN \<or> y = NaN then NaN
         else if is_inf x \<or> is_inf y
           then (if (is_finite x \<and> fval x = 0) \<or> (is_finite y \<and> fval y = 0) then NaN else signed_inf neg)
         else pack neg (fval x * fval y))"

definition f64_div :: "f64 \<Rightarrow> f64 \<Rightarrow> f64" where
  "f64_div x y =
     (let neg = (is_neg x \<noteq> is_neg y)
      in if x = NaN \<or> y = NaN then NaN
         else if is_inf x then (if is_inf y then NaN else signed_inf neg)
         else if is_inf y then pack neg 0
         else if fval y = 0 then (if fval x = 0 then NaN else signed_inf neg)
         else pack neg (fval x / fval y))"

definition f64_lt :: "f64 \<Rightarrow> f64 \<Rightarrow> bool" where
  "f64_lt x y \<longleftrightarrow>
     x \<noteq> NaN \<and> y \<noteq> NaN \<and>
     (if x = PInf \<or> y = NInf then False else if x = NInf \<or> y = PInf then True else fval x < fval y)"

definition f64_le :: "f64 \<Rightarrow> f64 \<Rightarrow> bool" where
  "f64_le x y \<longleftrightarrow> x \<noteq> NaN \<and> y \<noteq> NaN \<and> \<not> f64_lt y x"

text \<open>\<^verbatim>\<open>math.Float32frombits\<close> followed by the exact conversion to \<^verbatim>\<open>float64\<close>.\<close>

definition f64_of_f32_bits :: "uint32 \<Rightarrow> f64" where
  "f64_of_f32_bits w =
     (let neg = bit w 31; ex = uint (take_bit 8 (drop_bit 23 w)); fr = uint (take_bit 23 w);
          sg = (\<lambda>q. if neg then - q else q)
      in if ex = 255 then (if fr = 0 then signed_inf neg else NaN)
         else if ex = 0 \<and> fr = 0 then (if neg then NZero else Fin 0)
         else if ex = 0 then Fin (sg (of_int fr * 2 powi (- 149)))
         else Fin (sg (of_int (2 ^ 23 + fr) * 2 powi (ex - 150))))"

subsection \<open>Laws of the operations\<close>

lemma f64_lt_Fin [simp]: "f64_lt (Fin p) (Fin q) \<longleftrightarrow> p < q"
  by (simp add: f64_lt_def)

lemma f64_le_Fin [simp]: "f64_le (Fin p) (Fin q) \<longleftrightarrow> p \<le> q"
  by (auto simp: f64_le_def)

lemma f64_lt_irrefl [simp]: "\<not> f64_lt x x"
  by (cases x) (auto simp: f64_lt_def)

lemma f64_lt_trans: "f64_lt x y \<Longrightarrow> f64_lt y z \<Longrightarrow> f64_lt x z"
  by (auto simp: f64_lt_def split: if_splits)

lemma f64_lt_NaN [simp]: "\<not> f64_lt NaN y" "\<not> f64_lt x NaN"
  by (simp_all add: f64_lt_def)

text \<open>A result whose magnitude stays below \<open>2 ^ 1023\<close> does not overflow.\<close>

lemma fround_abs_le:
  assumes "\<bar>q\<bar> \<le> of_int n" "n < 2 ^ 53"
  shows "\<bar>fround q\<bar> \<le> of_int n"
proof -
  have n: "fround (of_int n) = of_int n" "fround (- of_int n) = - of_int n"
    using assms by (simp_all add: fround_int fround_minus)
  have "fround q \<le> of_int n" using fround_mono [of q "of_int n"] assms n by auto
  moreover have "- of_int n \<le> fround q" using fround_mono [of "- of_int n" q] assms n by auto
  ultimately show ?thesis by linarith
qed

lemma pack_bounded:
  assumes "\<bar>q\<bar> \<le> of_int n" "n < 2 ^ 53"
  shows "pack neg q = (if fround q = 0 \<and> neg then NZero else Fin (fround q))"
proof -
  have "\<bar>fround q\<bar> \<le> of_int n" using assms by (rule fround_abs_le)
  moreover have "(of_int n :: rat) < max_pow"
  proof -
    have "n < 2 ^ 1024" using assms(2) by simp
    then have "(of_int n :: rat) < of_int (2 ^ 1024)" by (simp only: of_int_less_iff)
    then show ?thesis by (simp add: max_pow_def)
  qed
  ultimately have "\<not> max_pow \<le> fround q" "\<not> fround q \<le> - max_pow" by linarith+
  then show ?thesis by (simp add: pack_def Let_def)
qed

lemma f64_of_int_small: "\<bar>n\<bar> < 2 ^ 53 \<Longrightarrow> f64_of_int n = Fin (of_int n)"
  using pack_bounded [of "of_int n" "\<bar>n\<bar>" False] fround_int [of n]
  by (simp add: f64_of_int_def)

lemma f64_add_of_int:
  assumes "\<bar>a\<bar> < 2 ^ 53" "\<bar>b\<bar> < 2 ^ 53"
  shows "f64_add (f64_of_int a) (f64_of_int b) = f64_of_int (a + b)"
  unfolding f64_of_int_small [OF assms(1)] f64_of_int_small [OF assms(2)]
  by (simp add: f64_add_def f64_of_int_def)

lemma f64_mul_of_int:
  assumes "\<bar>a\<bar> < 2 ^ 53" "\<bar>b\<bar> < 2 ^ 53" "a < 0 \<longleftrightarrow> b < 0"
  shows "f64_mul (f64_of_int a) (f64_of_int b) = f64_of_int (a * b)"
  unfolding f64_of_int_small [OF assms(1)] f64_of_int_small [OF assms(2)]
  using assms(3) by (simp add: f64_mul_def f64_of_int_def)

lemma f64_lit_int: "\<bar>n\<bar> < 2 ^ 53 \<Longrightarrow> f64_lit (of_int n) = Fin (of_int n)"
  using f64_of_int_small [of n] by (simp add: f64_lit_def f64_of_int_def)

lemma f64_lit_0 [simp]: "f64_lit 0 = Fin 0"
  by (simp add: f64_lit_def pack_def)

lemma f64_lit_numeral: "(numeral k :: int) < 2 ^ 53 \<Longrightarrow> f64_lit (numeral k) = Fin (numeral k)"
  using f64_lit_int [of "numeral k"] by simp

text \<open>Conversion and scaling of a bounded integer, the shape of every decoded measurement.\<close>

lemma f64_scaled:
  assumes "\<bar>n\<bar> < 2 ^ 53" "1 \<le> d" "d < 2 ^ 53"
  shows "f64_div (f64_of_int n) (f64_lit (of_int d)) = Fin (fround (of_int n / of_int d))"
proof -
  have d0: "(0::rat) < of_int d" and d1: "(1::rat) \<le> of_int d" using assms by simp_all
  have "\<bar>of_int n / of_int d :: rat\<bar> \<le> of_int \<bar>n\<bar>"
  proof -
    have "\<bar>of_int n :: rat\<bar> / of_int d \<le> \<bar>of_int n\<bar> / 1"
      using d1 by (intro divide_left_mono) auto
    then show ?thesis using d0 by (simp add: abs_divide)
  qed
  then have "pack (n < 0) (of_int n / of_int d) =
      (if fround (of_int n / of_int d) = 0 \<and> n < 0 then NZero else Fin (fround (of_int n / of_int d)))"
    using assms by (intro pack_bounded) auto
  moreover have "\<not> (fround (of_int n / of_int d) = 0 \<and> n < 0)"
  proof
    assume z: "fround (of_int n / of_int d) = 0 \<and> n < 0"
    have "(of_int n / of_int d :: rat) \<le> - 1 / of_int d"
      using z d0 by (intro divide_right_mono) auto
    then have "(of_int n / of_int d :: rat) \<le> - (1 / of_int d)" by simp
    also have "- (1 / of_int d) \<le> - (2 powi (- 53) :: rat)"
    proof -
      have "(of_int d :: rat) \<le> of_int (2 ^ 53)" using assms by (simp only: of_int_le_iff)
      then have "(1::rat) / of_int (2 ^ 53) \<le> 1 / of_int d" using d0 by (intro divide_left_mono) auto
      then show ?thesis by (simp add: power_int_minus inverse_eq_divide)
    qed
    finally have "2 powi (- 53) \<le> - (of_int n / of_int d :: rat)" by linarith
    then have "fround (2 powi (- 53)) \<le> fround (- (of_int n / of_int d))" by (rule fround_mono)
    moreover have "fround (2 powi (- 53)) = 2 powi (- 53)"
      by (rule fround_dyadic53) (rule dyadic53I [where m = 1 and e = "- 53"], auto)
    ultimately show False using z by (simp add: fround_minus)
  qed
  ultimately show ?thesis
    using assms by (simp add: f64_of_int_small f64_lit_int f64_div_def Let_def)
qed

section \<open>Evaluation on literals\<close>

text \<open>
  Rewrite rules that round a quotient of numerals: the collection \<open>f64_eval\<close> lets the simplifier
  compute floating-point results on concrete inputs.
\<close>

named_theorems f64_eval \<open>evaluation of floating-point operations on numerals\<close>

lemma bit_len_numeral:
  "bit_len 0 = 0"
  "bit_len 1 = 1"
  "bit_len (numeral num.One) = 1"
  "bit_len (numeral (num.Bit0 n)) = Suc (bit_len (numeral n))"
  "bit_len (numeral (num.Bit1 n)) = Suc (bit_len (numeral n))"
proof -
  have half: "numeral (num.Bit0 n) div 2 = (numeral n :: nat)" "numeral (num.Bit1 n) div 2 = (numeral n :: nat)"
    by simp_all
  show "bit_len 0 = 0" by (simp add: bit_len.simps)
  show "bit_len 1 = 1" by (simp add: bit_len.simps)
  then show "bit_len (numeral num.One) = 1" by simp
  show "bit_len (numeral (num.Bit0 n)) = Suc (bit_len (numeral n))"
    by (subst bit_len.simps) (simp only: half, simp)
  show "bit_len (numeral (num.Bit1 n)) = Suc (bit_len (numeral n))"
    by (subst bit_len.simps) (simp only: half, simp)
qed

lemma int_bit_len [f64_eval]:
  "int (bit_len 1) = 1"
  "int (bit_len (Suc 0)) = 1"
  "int (bit_len (numeral num.One)) = 1"
  "int (bit_len (numeral (num.Bit0 n))) = 1 + int (bit_len (numeral n))"
  "int (bit_len (numeral (num.Bit1 n))) = 1 + int (bit_len (numeral n))"
  using bit_len_numeral(2) by (simp_all only: bit_len_numeral of_nat_Suc of_nat_1 One_nat_def)

lemma lead_exp_unique:
  assumes "2 powi k \<le> q" "q < 2 powi (k + 1)"
  shows "lead_exp q = k"
proof -
  have q: "0 < q" using assms(1) by (rule less_le_trans [rotated]) simp
  from lead_exp_bounds [OF q] assms have "(2::rat) powi k < 2 powi (lead_exp q + 1)"
    "(2::rat) powi lead_exp q < 2 powi (k + 1)" by linarith+
  then show ?thesis by (simp add: powi_less_cancel)
qed

lemma lead_exp_ratio:
  assumes "0 < a" "0 < b"
  shows "lead_exp (of_nat a / of_nat b) =
    (let k = int (bit_len a) - int (bit_len b) in if 2 powi k \<le> (of_nat a / of_nat b :: rat) then k else k - 1)"
proof -
  let ?q = "of_nat a / of_nat b :: rat" and ?la = "int (bit_len a)" and ?lb = "int (bit_len b)"
  have a: "2 powi (?la - 1) \<le> (of_nat a :: rat)" "(of_nat a :: rat) < 2 powi ?la"
    using powi_bit_len [of "int a"] assms by simp_all
  have b: "2 powi (?lb - 1) \<le> (of_nat b :: rat)" "(of_nat b :: rat) < 2 powi ?lb"
    using powi_bit_len [of "int b"] assms by simp_all
  have "?q < 2 powi ?la / 2 powi (?lb - 1)" using a b assms by (intro frac_less) simp_all
  also have "\<dots> = 2 powi (?la - ?lb + 1)"
    by (subst power_int_diff [symmetric]) (auto simp: algebra_simps)
  finally have up: "?q < 2 powi (?la - ?lb + 1)" .
  have "2 powi (?la - 1) / 2 powi ?lb \<le> ?q"
    using a b assms by (intro frac_le) (simp_all add: less_imp_le)
  then have lo: "2 powi (?la - ?lb - 1) \<le> ?q"
    by (subst (asm) power_int_diff [symmetric]) (auto simp: algebra_simps)
  show ?thesis
    using up lo lead_exp_unique [of "?la - ?lb" ?q] lead_exp_unique [of "?la - ?lb - 1" ?q]
    by (auto simp: Let_def)
qed

text \<open>
  The evaluation goes through constants that take the intermediate values as arguments, so that
  the simplifier computes each of them once.
\<close>

definition lead_sel :: "rat \<Rightarrow> int \<Rightarrow> int" where
  "lead_sel q k = (if 2 powi k \<le> q then k else k - 1)"

definition round_sel :: "rat \<Rightarrow> int \<Rightarrow> int" where
  "round_sel x f = (if x - of_int f < 1 / 2 then f else if 1 / 2 < x - of_int f then f + 1
     else if even f then f else f + 1)"

definition scale_round :: "rat \<Rightarrow> int \<Rightarrow> rat" where
  "scale_round q u = (if u \<le> 0 then of_int (round_even (q * 2 ^ nat (- u))) / 2 ^ nat (- u)
     else of_int (round_even (q / 2 ^ nat u)) * 2 ^ nat u)"

definition pack_sel :: "bool \<Rightarrow> rat \<Rightarrow> f64" where
  "pack_sel neg r = (if neg then (if r = 0 then NZero else Fin r) else Fin r)"

lemma scale_round: "q \<noteq> 0 \<Longrightarrow> fround q = scale_round q (ulp_exp q)"
  by (cases "ulp_exp q \<le> 0")
    (auto simp: fround_def scale_round_def power_int_def field_simps power_inverse dest: antisym)

lemma lead_exp_numeral [f64_eval]:
  "lead_exp (numeral a / numeral b) =
     lead_sel (numeral a / numeral b) (int (bit_len (numeral a)) - int (bit_len (numeral b)))"
  "lead_exp (1 / numeral b) = lead_sel (1 / numeral b) (1 - int (bit_len (numeral b)))"
  "lead_exp (numeral a) = int (bit_len (numeral a)) - 1"
  "lead_exp 1 = 0"
proof -
  show "lead_exp (numeral a / numeral b) =
     lead_sel (numeral a / numeral b) (int (bit_len (numeral a)) - int (bit_len (numeral b)))"
    using lead_exp_ratio [of "numeral a" "numeral b"] by (simp add: lead_sel_def Let_def)
  show "lead_exp (1 / numeral b) = lead_sel (1 / numeral b) (1 - int (bit_len (numeral b)))"
    using lead_exp_ratio [of 1 "numeral b"] bit_len_numeral(2) by (simp add: lead_sel_def Let_def)
  show "lead_exp 1 = 0" by (rule lead_exp_unique) simp_all
  show "lead_exp (numeral a) = int (bit_len (numeral a)) - 1"
    by (rule lead_exp_unique) (use powi_bit_len [of "numeral a"] in simp_all)
qed

lemma ulp_exp_numeral [f64_eval]:
  "ulp_exp (numeral a / numeral b) = max (lead_exp (numeral a / numeral b) - 52) (- 1074)"
  "ulp_exp (1 / numeral b) = max (lead_exp (1 / numeral b) - 52) (- 1074)"
  "ulp_exp (numeral a) = max (lead_exp (numeral a) - 52) (- 1074)"
  by (simp_all add: ulp_exp_def)

lemma fround_numeral [f64_eval]:
  "fround (numeral a / numeral b) = scale_round (numeral a / numeral b) (ulp_exp (numeral a / numeral b))"
  "fround (1 / numeral b) = scale_round (1 / numeral b) (ulp_exp (1 / numeral b))"
  "fround (numeral a) = scale_round (numeral a) (ulp_exp (numeral a))"
  "fround 1 = 1"
  "fround (- q) = - fround q"
  using fround_int [of 1] by (simp_all add: scale_round fround_minus)

lemma round_sel: "round_even x = round_sel x \<lfloor>x\<rfloor>"
  by (simp add: round_even_def round_sel_def Let_def)

lemma round_even_numeral [f64_eval]:
  "round_even (numeral a / numeral b) = round_sel (numeral a / numeral b) (numeral a div numeral b)"
  "round_even (1 / numeral b) = round_sel (1 / numeral b) (1 div numeral b)"
  "round_even (numeral a) = numeral a"
  "round_even 1 = 1"
  using floor_divide_of_int_eq [of "numeral a" "numeral b", where ?'a = rat]
    floor_divide_of_int_eq [of 1 "numeral b", where ?'a = rat]
    round_even_of_int [of "numeral a", unfolded of_int_numeral]
    round_even_of_int [of 1, unfolded of_int_1]
  by (simp_all only: round_sel [of "_ / _"] of_int_numeral of_int_1)

lemma pack_eval [f64_eval]:
  "\<bar>q\<bar> \<le> 4503599627370496 \<Longrightarrow> pack neg q = pack_sel neg (fround q)"
  using pack_bounded [of q 4503599627370496 neg] by (simp add: pack_sel_def)

lemma f64_mul_eval [f64_eval]:
  "f64_mul (Fin p) (Fin q) = pack (p < 0 \<longleftrightarrow> \<not> q < 0) (p * q)"
  by (auto simp: f64_mul_def Let_def)

lemma f64_div_eval [f64_eval]:
  "q \<noteq> 0 \<Longrightarrow> f64_div (Fin p) (Fin q) = pack (p < 0 \<longleftrightarrow> \<not> q < 0) (p / q)"
  by (auto simp: f64_div_def Let_def)

lemma f64_add_eval [f64_eval]:
  "f64_add (Fin p) (Fin q) = pack False (p + q)"
  by (simp add: f64_add_def)

lemma f64_sub_eval [f64_eval]:
  "f64_sub (Fin p) (Fin q) = pack False (p - q)"
  by (auto simp: f64_sub_def f64_add_def)

lemmas [f64_eval] = lead_sel_def round_sel_def scale_round_def pack_sel_def f64_lit_def
  f64_of_int_def power_int_minus

end
