(* ===== verification/Protocol.thy ===== *)
theory Protocol
  imports Float64
begin

text \<open>
  The public types of \<^verbatim>\<open>pkg/protocol/mavlink.go\<close>: wire constants, the enumerations (Go's
  \<^verbatim>\<open>type MAVType uint8\<close> admits every byte, so they stay bytes with a \<^verbatim>\<open>String\<close> function each), the
  decoded payloads and the telemetry event.  A payload of Go type \<^verbatim>\<open>any\<close> is the tagged union of the
  dynamic types the decoder produces; a pointer payload may be a typed nil, which is why the
  constructors carry an option.
\<close>

section \<open>Wire constants\<close>

definition MagicV1 :: byte where "MagicV1 = 0xFE"
definition MagicV2 :: byte where "MagicV2 = 0xFD"
definition MaxPayloadSize :: nat where "MaxPayloadSize = 255"

definition MsgIDHeartbeat :: uint32 where "MsgIDHeartbeat = 0"
definition MsgIDSysStatus :: uint32 where "MsgIDSysStatus = 1"
definition MsgIDGPSRawInt :: uint32 where "MsgIDGPSRawInt = 24"
definition MsgIDAttitude :: uint32 where "MsgIDAttitude = 30"
definition MsgIDGlobalPositionInt :: uint32 where "MsgIDGlobalPositionInt = 33"
definition MsgIDBatteryStatus :: uint32 where "MsgIDBatteryStatus = 147"
definition MsgIDExtendedSysState :: uint32 where "MsgIDExtendedSysState = 245"

named_theorems protocol_consts \<open>the numeric constants of the protocol\<close>

lemmas [protocol_consts] = MagicV1_def MagicV2_def MaxPayloadSize_def MsgIDHeartbeat_def
  MsgIDSysStatus_def MsgIDGPSRawInt_def MsgIDAttitude_def MsgIDGlobalPositionInt_def
  MsgIDBatteryStatus_def MsgIDExtendedSysState_def

section \<open>Enumerations\<close>

type_synonym MAVType = uint8
type_synonym MAVState = uint8
type_synonym GPSFixType = uint8
type_synonym int8 = "8 word"
type_synonym int32 = "32 word"

definition MAVType_String :: "MAVType \<Rightarrow> string" where
  "MAVType_String t =
     (if t = 0 then ''generic''
      else if t = 1 then ''fixed_wing''
      else if t = 2 then ''quadrotor''
      else if t = 13 then ''hexarotor''
      else if t = 14 then ''octorotor''
      else if t = 10 then ''ground_rover''
      else if t = 12 then ''submarine''
      else ''unknown'')"

definition MAVState_String :: "MAVState \<Rightarrow> string" where
  "MAVState_String s =
     (if s = 0 then ''uninitialized''
      else if s = 1 then ''boot''
      else if s = 2 then ''calibrating''
      else if s = 3 then ''standby''
      else if s = 4 then ''active''
      else if s = 5 then ''critical''
      else if s = 6 then ''emergency''
      else if s = 7 then ''poweroff''
      else ''unknown'')"

definition GPSFixType_String :: "GPSFixType \<Rightarrow> string" where
  "GPSFixType_String f =
     (if f = 0 then ''no_fix''
      else if f = 2 then ''2d_fix''
      else if f = 3 then ''3d_fix''
      else if f = 4 then ''dgps''
      else if f = 5 then ''rtk''
      else ''unknown'')"

section \<open>Identities and events\<close>

record DroneID =
  SystemID :: uint8
  ComponentID :: uint8

text \<open>Drone identities are ordered by system, then component: a canonical enumeration order.\<close>

instantiation DroneID_ext :: (linorder) linorder
begin

definition less_eq_DroneID_ext :: "'a DroneID_ext \<Rightarrow> 'a DroneID_ext \<Rightarrow> bool" where
  "x \<le> y \<longleftrightarrow> SystemID x < SystemID y \<or> (SystemID x = SystemID y \<and>
     (ComponentID x < ComponentID y \<or> (ComponentID x = ComponentID y \<and> DroneID.more x \<le> DroneID.more y)))"

definition less_DroneID_ext :: "'a DroneID_ext \<Rightarrow> 'a DroneID_ext \<Rightarrow> bool" where
  "x < y \<longleftrightarrow> x \<le> y \<and> \<not> y \<le> (x :: 'a DroneID_ext)"

instance
  by intro_classes (auto simp: less_eq_DroneID_ext_def less_DroneID_ext_def)

end

record Heartbeat =
  hb_Type :: MAVType
  hb_Autopilot :: uint8
  hb_BaseMode :: uint8
  hb_CustomMode :: uint32
  hb_SystemStatus :: MAVState
  hb_MavlinkVersion :: uint8
  hb_Armed :: bool

record GPSPosition =
  gps_FixType :: GPSFixType
  gps_Latitude :: f64
  gps_Longitude :: f64
  gps_Altitude :: f64
  gps_RelAltitude :: f64
  gps_GroundSpeed :: f64
  gps_Heading :: f64
  gps_SatelliteCount :: uint8
  gps_HDOP :: f64
  gps_VDOP :: f64

record BatteryStatus =
  bat_VoltageTotal :: f64
  bat_CurrentBattery :: f64
  bat_Remaining :: int8
  bat_TimeRemaining :: int32

record Attitude =
  att_Roll :: f64
  att_Pitch :: f64
  att_Yaw :: f64
  att_RollSpeed :: f64
  att_PitchSpeed :: f64
  att_YawSpeed :: f64

text \<open>The dynamic types a payload of type \<^verbatim>\<open>any\<close> takes; \<open>None\<close> is a typed nil pointer.\<close>

datatype Payload =
    PHeartbeat "Heartbeat option"
  | PGPS "GPSPosition option"
  | PBattery "BatteryStatus option"
  | PAttitude "Attitude option"
  | PRaw "byte list"

record TelemetryEvent =
  ev_DroneID :: DroneID
  ev_MessageID :: uint32
  ev_Timestamp :: instant
  ev_SourceAddr :: string
  ev_Payload :: Payload

text \<open>A payload holds a typed nil exactly when the decoder gave up on a truncated message.\<close>

fun nil_payload :: "Payload \<Rightarrow> bool" where
  "nil_payload (PHeartbeat p) = (p = None)"
| "nil_payload (PGPS p) = (p = None)"
| "nil_payload (PBattery p) = (p = None)"
| "nil_payload (PAttitude p) = (p = None)"
| "nil_payload (PRaw b) = False"

end
