(* ===== verification/History.thy ===== *)
theory History
  imports Protocol
begin

text \<open>
  \<^verbatim>\<open>internal/drone/history.go\<close>: the ring buffer of a drone's past positions.  The locale
  \<open>sliding_window\<close> is the contract of a buffer that keeps the latest entries; its interpretation
  on the ring buffer turns every statement about pushes and reads into one about lists.
\<close>

section \<open>The code\<close>

record HistoryEntry =
  he_Timestamp :: instant
  he_Lat :: f64
  he_Lon :: f64
  he_Alt :: f64
  he_Heading :: f64
  he_Battery :: int8
  he_Armed :: bool
  he_Mode :: string

definition zero_entry :: HistoryEntry where
  "zero_entry = \<lparr>he_Timestamp = 0, he_Lat = Fin 0, he_Lon = Fin 0, he_Alt = Fin 0, he_Heading = Fin 0,
     he_Battery = 0, he_Armed = False, he_Mode = []\<rparr>"

record RingBuffer =
  rb_entries :: "HistoryEntry list"
  rb_head :: int
  rb_count :: int
  rb_cap :: int

text \<open>\<^verbatim>\<open>make([]T, n)\<close>, indexing by an \<^verbatim>\<open>int\<close> and the truncated remainder, each with its panic.\<close>

definition make_slice :: "'a \<Rightarrow> int \<Rightarrow> 'a list go" where
  "make_slice z n = (if n < 0 then Panic MakesliceLenOutOfRange else Val (replicate (nat n) z))"

definition get_int :: "'a list \<Rightarrow> int \<Rightarrow> 'a go" where
  "get_int xs i = (if 0 \<le> i \<and> i < int (length xs) then Val (xs ! nat i) else Panic IndexOutOfRange)"

definition set_int :: "'a list \<Rightarrow> int \<Rightarrow> 'a \<Rightarrow> 'a list go" where
  "set_int xs i x =
    (if 0 \<le> i \<and> i < int (length xs) then Val (xs[nat i := x]) else Panic IndexOutOfRange)"

definition go_rem :: "int \<Rightarrow> int \<Rightarrow> int go" where
  "go_rem a b = (if b = 0 then Panic IntegerDivideByZero else Val (a - b * trunc_div a b))"

definition NewRingBuffer :: "int \<Rightarrow> RingBuffer go" where
  "NewRingBuffer capacity =
    go_bind (make_slice zero_entry capacity) (\<lambda>entries.
    Val \<lparr>rb_entries = entries, rb_head = 0, rb_count = 0, rb_cap = capacity\<rparr>)"

definition Push :: "RingBuffer \<Rightarrow> HistoryEntry \<Rightarrow> RingBuffer go" where
  "Push rb entry =
    go_bind (set_int (rb_entries rb) (rb_head rb) entry) (\<lambda>entries.
    go_bind (go_rem (rb_head rb + 1) (rb_cap rb)) (\<lambda>head.
    Val (rb\<lparr>rb_entries := entries, rb_head := head,
      rb_count := (if rb_count rb < rb_cap rb then rb_count rb + 1 else rb_count rb)\<rparr>)))"

text \<open>The copy loop of \<^verbatim>\<open>Last\<close>: \<open>k\<close> entries from offset \<open>i\<close> on.\<close>

fun lastLoop :: "RingBuffer \<Rightarrow> int \<Rightarrow> int \<Rightarrow> nat \<Rightarrow> HistoryEntry list go" where
  "lastLoop rb start i 0 = Val []"
| "lastLoop rb start i (Suc k) =
    go_bind (go_rem (start + i) (rb_cap rb)) (\<lambda>j.
    go_bind (get_int (rb_entries rb) j) (\<lambda>e.
    go_bind (lastLoop rb start (i + 1) k) (\<lambda>es. Val (e # es))))"

definition Last :: "RingBuffer \<Rightarrow> int \<Rightarrow> HistoryEntry list go" where
  "Last rb n =
    (let n = (if rb_count rb < n then rb_count rb else n) in
     if n = 0 then Val []
     else if n < 0 then Panic MakesliceLenOutOfRange
     else
       go_bind (go_rem (rb_head rb - n + rb_cap rb) (rb_cap rb)) (\<lambda>start.
       lastLoop rb start 0 (nat n)))"

definition Len :: "RingBuffer \<Rightarrow> int" where
  "Len rb = rb_count rb"

section \<open>The contract of a sliding window\<close>

definition last_n :: "nat \<Rightarrow> 'a list \<Rightarrow> 'a list" where
  "last_n n xs = drop (length xs - n) xs"

lemma length_last_n [simp]: "length (last_n n xs) = min n (length xs)"
  by (simp add: last_n_def)

lemma last_n_all: "length xs \<le> n \<Longrightarrow> last_n n xs = xs"
  by (simp add: last_n_def)

lemma last_n_shrink:
  assumes "m \<le> n"
  shows "last_n m (last_n n xs @ ys) = last_n m (xs @ ys)"
proof (cases "length xs \<le> n")
  case False
  then have "n + length ys - m + (length xs - n) = length xs + length ys - m" using assms by arith
  then show ?thesis using False assms by (simp add: last_n_def)
qed (simp add: last_n_all)

lemma last_n_last_n: "last_n m (last_n n xs) = last_n (min m n) xs"
proof (cases "m \<le> n")
  case True
  then show ?thesis using last_n_shrink [of m n xs "[]"] by simp
qed (simp add: last_n_all)

lemma last_n_snoc: "0 < n \<Longrightarrow> last_n n (xs @ [x]) = last_n (n - 1) xs @ [x]"
  by (cases n) (auto simp: last_n_def)

fun push_all :: "('r \<Rightarrow> 'a \<Rightarrow> 'r go) \<Rightarrow> 'r \<Rightarrow> 'a list \<Rightarrow> 'r go" where
  "push_all push r [] = Val r"
| "push_all push r (x # xs) = go_bind (push r x) (\<lambda>r'. push_all push r' xs)"

locale sliding_window =
  fixes wf :: "'r \<Rightarrow> bool" and size :: "'r \<Rightarrow> nat" and entries :: "'r \<Rightarrow> 'a list"
    and push :: "'r \<Rightarrow> 'a \<Rightarrow> 'r go" and read :: "'r \<Rightarrow> int \<Rightarrow> 'a list go"
  assumes size_pos: "wf r \<Longrightarrow> 0 < size r"
    and entries_le: "wf r \<Longrightarrow> length (entries r) \<le> size r"
    and push_entries: "wf r \<Longrightarrow>
      \<exists>r'. push r x = Val r' \<and> wf r' \<and> size r' = size r \<and> entries r' = last_n (size r) (entries r @ [x])"
    and read_entries: "wf r \<Longrightarrow> 0 \<le> n \<Longrightarrow> read r n = Val (last_n (nat n) (entries r))"
begin

lemma push_all_entries:
  assumes "wf r"
  shows "\<exists>r'. push_all push r xs = Val r' \<and> wf r' \<and> size r' = size r \<and>
    entries r' = last_n (size r) (entries r @ xs)"
  using assms
proof (induction xs arbitrary: r)
  case Nil
  then show ?case using entries_le by (simp add: last_n_all)
next
  case (Cons x xs)
  obtain r1 where r1: "push r x = Val r1" "wf r1" "size r1 = size r"
    "entries r1 = last_n (size r) (entries r @ [x])"
    using push_entries [OF Cons.prems] by blast
  have "last_n (size r) (last_n (size r) (entries r @ [x]) @ xs) = last_n (size r) ((entries r @ [x]) @ xs)"
    by (rule last_n_shrink) simp
  then show ?case using Cons.IH [OF r1(2)] r1 by auto
qed

text \<open>A read after any pushes: the latest \<open>n\<close> of everything pushed, up to the size.\<close>

lemma read_push_all:
  assumes "wf r" "0 \<le> n"
  shows "\<exists>r'. push_all push r xs = Val r' \<and>
    read r' n = Val (last_n (min (nat n) (size r)) (entries r @ xs))"
  using push_all_entries [OF assms(1), of xs] read_entries assms(2) by (auto simp: last_n_last_n)

end

section \<open>The ring buffer is one\<close>

definition rb_size :: "RingBuffer \<Rightarrow> nat" where
  "rb_size rb = nat (rb_cap rb)"

definition rb_wf :: "RingBuffer \<Rightarrow> bool" where
  "rb_wf rb \<longleftrightarrow> 0 < rb_cap rb \<and> length (rb_entries rb) = rb_size rb \<and>
     0 \<le> rb_head rb \<and> rb_head rb < rb_cap rb \<and> 0 \<le> rb_count rb \<and> rb_count rb \<le> rb_cap rb"

text \<open>The abstraction: the \<open>count\<close> cells before the head, oldest first, around the end.\<close>

definition rb_window :: "RingBuffer \<Rightarrow> nat \<Rightarrow> HistoryEntry list" where
  "rb_window rb n =
    map (\<lambda>i. rb_entries rb ! nat ((rb_head rb - int n + int i) mod rb_cap rb)) [0..<n]"

definition rb_abs :: "RingBuffer \<Rightarrow> HistoryEntry list" where
  "rb_abs rb = rb_window rb (nat (rb_count rb))"

lemma go_rem_pos: "0 \<le> a \<Longrightarrow> 0 < b \<Longrightarrow> go_rem a b = Val (a mod b)"
  by (simp add: go_rem_def trunc_div_def minus_mult_div_eq_mod sgn_if abs_if)

lemma length_rb_abs [simp]: "0 \<le> rb_count rb \<Longrightarrow> length (rb_abs rb) = nat (rb_count rb)"
  by (simp add: rb_abs_def rb_window_def)

lemma rb_window_last_n:
  assumes "n \<le> m"
  shows "last_n n (rb_window rb m) = rb_window rb n"
  using assms by (auto intro!: nth_equalityI simp: last_n_def rb_window_def of_nat_diff algebra_simps)

lemma rb_window_Suc:
  "rb_window rb (Suc n) =
     rb_entries rb ! nat ((rb_head rb - 1 - int n) mod rb_cap rb) # rb_window rb n"
  by (auto simp: rb_window_def upt_conv_Cons map_Suc_upt [symmetric] algebra_simps simp del: upt_Suc)

lemma lastLoop_eq:
  assumes "rb_wf rb" "0 \<le> start" "0 \<le> i"
  shows "lastLoop rb start i k =
    Val (map (\<lambda>j. rb_entries rb ! nat ((start + i + int j) mod rb_cap rb)) [0..<k])"
  using assms(3)
proof (induction k arbitrary: i)
  case (Suc k)
  let ?j = "(start + i) mod rb_cap rb"
  have "get_int (rb_entries rb) ?j = Val (rb_entries rb ! nat ?j)"
    using assms(1) by (simp add: get_int_def rb_wf_def rb_size_def)
  moreover have "go_rem (start + i) (rb_cap rb) = Val ?j"
    using assms Suc.prems by (intro go_rem_pos) (auto simp: rb_wf_def)
  moreover have "map f [0..<Suc k] = f 0 # map (\<lambda>j. f (Suc j)) [0..<k]" for f :: "nat \<Rightarrow> HistoryEntry"
    by (simp add: upt_conv_Cons map_Suc_upt [symmetric] del: upt_Suc)
  ultimately show ?case using Suc.IH [of "i + 1"] Suc.prems by (simp add: add.assoc del: upt_Suc)
qed simp

lemma Last_eq:
  assumes "rb_wf rb" "0 \<le> n"
  shows "Last rb n = Val (last_n (nat n) (rb_abs rb))"
proof -
  define m where "m = (if rb_count rb < n then rb_count rb else n)"
  have m: "0 \<le> m" "m \<le> rb_count rb" "m \<le> rb_cap rb" using assms by (auto simp: m_def rb_wf_def)
  have "last_n (nat n) (rb_abs rb) = rb_window rb (nat m)"
  proof (cases "rb_count rb < n")
    case True
    then show ?thesis using assms by (simp add: m_def last_n_all rb_wf_def) (simp add: rb_abs_def)
  next
    case False
    then show ?thesis using assms by (simp add: m_def rb_abs_def rb_window_last_n)
  qed
  moreover have "Last rb n = Val (rb_window rb (nat m))"
  proof (cases "m = 0")
    case True
    then show ?thesis by (simp add: Last_def m_def [symmetric] Let_def rb_window_def)
  next
    case False
    have "go_rem (rb_head rb - m + rb_cap rb) (rb_cap rb) = Val ((rb_head rb - m) mod rb_cap rb)"
      using assms m by (subst go_rem_pos) (auto simp: rb_wf_def)
    moreover have "lastLoop rb ((rb_head rb - m) mod rb_cap rb) 0 (nat m) = Val (rb_window rb (nat m))"
      using assms m by (subst lastLoop_eq) (auto simp: rb_wf_def rb_window_def mod_simps)
    ultimately show ?thesis using False m by (simp add: Last_def m_def [symmetric] Let_def)
  qed
  ultimately show ?thesis by simp
qed

lemma Push_Val:
  assumes "rb_wf rb"
  shows "Push rb e = Val (rb\<lparr>rb_entries := (rb_entries rb)[nat (rb_head rb) := e],
    rb_head := (rb_head rb + 1) mod rb_cap rb,
    rb_count := (if rb_count rb < rb_cap rb then rb_count rb + 1 else rb_count rb)\<rparr>)"
proof -
  have "go_rem (rb_head rb + 1) (rb_cap rb) = Val ((rb_head rb + 1) mod rb_cap rb)"
    using assms by (intro go_rem_pos) (auto simp: rb_wf_def)
  then show ?thesis using assms by (simp add: Push_def set_int_def rb_wf_def rb_size_def)
qed

text \<open>The window of the buffer after a push, while it does not wrap past the new entry.\<close>

lemma mod_diff_neq:
  assumes "0 < c" "0 < d" "d < c"
  shows "(h - d :: int) mod c \<noteq> h mod c"
proof
  assume "(h - d) mod c = h mod c"
  then have "c dvd d" by (metis mod_eq_dvd_iff diff_diff_eq2 add_diff_cancel_left' dvd_minus_iff minus_diff_eq)
  then show False using assms zdvd_not_zless by blast
qed

lemma rb_window_push:
  assumes "rb_wf rb" "Push rb e = Val rb'" "int n < rb_cap rb"
  shows "rb_window rb' (Suc n) = rb_window rb n @ [e]"
proof (rule nth_equalityI)
  let ?h = "rb_head rb" and ?c = "rb_cap rb"
  show len: "length (rb_window rb' (Suc n)) = length (rb_window rb n @ [e])"
    by (simp add: rb_window_def)
  have rb': "rb_head rb' = (?h + 1) mod ?c" "rb_cap rb' = ?c"
    "rb_entries rb' = (rb_entries rb)[nat ?h := e]"
    using assms(1,2) by (auto simp: Push_Val)
  fix i assume "i < length (rb_window rb' (Suc n))"
  then have i: "i \<le> n" by (simp add: rb_window_def)
  have idx: "(rb_head rb' - int (Suc n) + int i) mod ?c = (?h - (int n - int i)) mod ?c"
  proof -
    have "(rb_head rb' - int (Suc n) + int i) mod ?c = ((?h + 1) mod ?c + (int i - 1 - int n)) mod ?c"
      by (simp add: rb'(1) algebra_simps)
    also have "\<dots> = (?h + 1 + (int i - 1 - int n)) mod ?c" by (rule mod_add_left_eq)
    finally show ?thesis by (simp add: algebra_simps)
  qed
  have h: "?h mod ?c = ?h" "0 \<le> ?h" "?h < ?c" "length (rb_entries rb) = nat ?c"
    using assms(1) by (auto simp: rb_wf_def rb_size_def)
  have "rb_window rb' (Suc n) ! i = (rb_entries rb)[nat ?h := e] ! nat ((?h - (int n - int i)) mod ?c)"
    using i idx by (simp add: rb_window_def rb' del: upt_Suc)
  also have "\<dots> = (rb_window rb n @ [e]) ! i"
  proof (cases "i = n")
    case True
    then show ?thesis using h by (simp add: rb_window_def nth_append)
  next
    case False
    then have "(?h - (int n - int i)) mod ?c \<noteq> ?h"
      using mod_diff_neq [of ?c "int n - int i" ?h] i assms(3) h by simp
    moreover have "0 \<le> (?h - (int n - int i)) mod ?c" using h by simp
    ultimately show ?thesis
      using False i h(2) by (simp add: rb_window_def nth_append nat_eq_iff algebra_simps)
  qed
  finally show "rb_window rb' (Suc n) ! i = (rb_window rb n @ [e]) ! i" .
qed

lemma Push_refines:
  assumes "rb_wf rb"
  shows "\<exists>rb'. Push rb e = Val rb' \<and> rb_wf rb' \<and> rb_size rb' = rb_size rb \<and>
    rb_abs rb' = last_n (rb_size rb) (rb_abs rb @ [e])"
proof -
  obtain rb' where p: "Push rb e = Val rb'" using Push_Val [OF assms] by blast
  have wf: "rb_wf rb'" "rb_size rb' = rb_size rb"
    using p assms by (auto simp: Push_Val rb_wf_def rb_size_def)
  have c: "0 \<le> rb_count rb" "rb_count rb \<le> rb_cap rb" "0 < rb_cap rb" using assms by (auto simp: rb_wf_def)
  have "rb_abs rb' = last_n (rb_size rb) (rb_abs rb @ [e])"
  proof (cases "rb_count rb < rb_cap rb")
    case True
    then have "rb_abs rb' = rb_window rb' (Suc (nat (rb_count rb)))"
      using p assms c by (auto simp: Push_Val rb_abs_def nat_add_distrib)
    then have "rb_abs rb' = rb_abs rb @ [e]"
      using rb_window_push [OF assms p, of "nat (rb_count rb)"] True c by (simp add: rb_abs_def)
    then show ?thesis using True c by (simp add: last_n_all rb_size_def)
  next
    case False
    then have "rb_abs rb' = rb_window rb' (Suc (nat (rb_cap rb) - 1))"
      using p assms c by (auto simp: Push_Val rb_abs_def)
    also have "\<dots> = rb_window rb (nat (rb_cap rb) - 1) @ [e]"
      using rb_window_push [OF assms p, of "nat (rb_cap rb) - 1"] c by simp
    also have "\<dots> = last_n (rb_size rb) (rb_abs rb @ [e])"
      using False c
        rb_window_last_n [of "nat (rb_cap rb) - 1" "nat (rb_cap rb)" rb] by (simp add: last_n_snoc rb_size_def rb_abs_def)
    finally show ?thesis .
  qed
  with p wf show ?thesis by blast
qed

interpretation ring: sliding_window rb_wf rb_size rb_abs Push Last
proof
  show "rb_wf r \<Longrightarrow> 0 < rb_size r" for r by (simp add: rb_wf_def rb_size_def)
  show "rb_wf r \<Longrightarrow> length (rb_abs r) \<le> rb_size r" for r by (auto simp: rb_wf_def rb_size_def)
qed (simp_all add: Push_refines Last_eq)

lemma NewRingBuffer_wf:
  assumes "0 < c"
  shows "\<exists>rb. NewRingBuffer c = Val rb \<and> rb_wf rb \<and> rb_size rb = nat c \<and> rb_abs rb = []"
  using assms
  by (simp add: NewRingBuffer_def make_slice_def rb_wf_def rb_size_def rb_abs_def rb_window_def)

lemma Len_abs: "rb_wf rb \<Longrightarrow> Len rb = int (length (rb_abs rb))"
  by (simp add: Len_def rb_wf_def)

text \<open>
  C5: a history of positive size never panics, and after any number of pushes \<^verbatim>\<open>Last(n)\<close> is the
  latest \<open>n\<close> entries pushed (or as many as the size keeps), oldest first, and \<^verbatim>\<open>Len\<close> their
  number.
\<close>

theorem history_keeps_latest:
  assumes "0 < hist" "0 \<le> n"
  shows "\<exists>rb. go_bind (NewRingBuffer hist) (\<lambda>rb. push_all Push rb es) = Val rb \<and>
    Last rb n = Val (last_n (nat (min n hist)) es) \<and> Len rb = min hist (int (length es))"
proof -
  obtain rb0 where new: "NewRingBuffer hist = Val rb0" "rb_wf rb0" "rb_size rb0 = nat hist" "rb_abs rb0 = []"
    using NewRingBuffer_wf [OF assms(1)] by blast
  then obtain rb where rb: "push_all Push rb0 es = Val rb" "rb_wf rb" "rb_abs rb = last_n (nat hist) es"
    using ring.push_all_entries [OF new(2), of es] by auto
  then have "Last rb n = Val (last_n (nat n) (last_n (nat hist) es))"
    using ring.read_entries assms(2) by simp
  moreover have "min (nat n) (nat hist) = nat (min n hist)" by simp
  ultimately show ?thesis
    using new(1) rb assms(1) Len_abs [OF rb(2)] by (simp add: last_n_last_n of_nat_min)
qed

theorem history_keeps_latest_witness:
  "\<exists>rb. go_bind (NewRingBuffer 2) (\<lambda>rb. push_all Push rb [zero_entry\<lparr>he_Battery := 1\<rparr>,
      zero_entry\<lparr>he_Battery := 2\<rparr>, zero_entry\<lparr>he_Battery := 3\<rparr>]) = Val rb \<and>
    Last rb 5 = Val [zero_entry\<lparr>he_Battery := 2\<rparr>, zero_entry\<lparr>he_Battery := 3\<rparr>] \<and> Len rb = 2"
  using history_keeps_latest [of 2 5 "[zero_entry\<lparr>he_Battery := 1\<rparr>, zero_entry\<lparr>he_Battery := 2\<rparr>,
      zero_entry\<lparr>he_Battery := 3\<rparr>]"]
  by (simp add: last_n_def)

end
