(* ===== verification/Channel.thy ===== *)
theory Channel
  imports Prelude "HOL-Library.Sublist"
begin

text \<open>
  The buffered channels the components talk through, with the two idioms the program sends by (a
  \<^verbatim>\<open>select\<close> with a default case, and a plain blocking send), receiving and closing.  The locale
  \<open>lossy_queue\<close> is the contract of a queue that refuses what does not fit; the theorems about
  arbitrary interleavings of offers and receives are proved in it and hold for the channels by
  interpretation.  A channel is its buffer: a receiver that is already waiting counts as one that
  receives right after the send, so an unbuffered channel never accepts a non-blocking send here.
\<close>

section \<open>Channels\<close>

record 'a chan =
  ch_buf :: "'a list"
  ch_cap :: nat
  ch_closed :: bool

text \<open>\<^verbatim>\<open>make(chan T, n)\<close> panics on a negative size.\<close>

definition make_chan :: "int \<Rightarrow> 'a chan go" where
  "make_chan n =
    (if n < 0 then Panic MakesliceLenOutOfRange
     else Val \<lparr>ch_buf = [], ch_cap = nat n, ch_closed = False\<rparr>)"

text \<open>\<^verbatim>\<open>select { case c <- x: ... default: ... }\<close>: whether the value was taken.\<close>

definition try_send :: "'a \<Rightarrow> 'a chan \<Rightarrow> ('a chan \<times> bool) go" where
  "try_send x c =
    (if ch_closed c then Panic SendOnClosedChannel
     else if length (ch_buf c) < ch_cap c then Val (c\<lparr>ch_buf := ch_buf c @ [x]\<rparr>, True)
     else Val (c, False))"

text \<open>\<^verbatim>\<open>c <- x\<close>: \<open>Diverge\<close> when the buffer is full, as nobody receives while the sender runs alone.\<close>

definition block_send :: "'a \<Rightarrow> 'a chan \<Rightarrow> 'a chan go" where
  "block_send x c =
    (if ch_closed c then Panic SendOnClosedChannel
     else if length (ch_buf c) < ch_cap c then Val (c\<lparr>ch_buf := ch_buf c @ [x]\<rparr>)
     else Diverge)"

text \<open>
  \<^verbatim>\<open>x, ok := <-c\<close> in a \<^verbatim>\<open>select\<close>: \<open>None\<close> when the case is not ready, \<open>Some (None, c)\<close> for the
  \<^verbatim>\<open>ok = false\<close> of a closed and drained channel.
\<close>

definition recv :: "'a chan \<Rightarrow> ('a option \<times> 'a chan) option" where
  "recv c =
    (case ch_buf c of
       x # xs \<Rightarrow> Some (Some x, c\<lparr>ch_buf := xs\<rparr>)
     | [] \<Rightarrow> if ch_closed c then Some (None, c) else None)"

definition close_chan :: "'a chan \<Rightarrow> 'a chan go" where
  "close_chan c = (if ch_closed c then Panic CloseOfClosedChannel else Val (c\<lparr>ch_closed := True\<rparr>))"

definition chan_ok :: "'a chan \<Rightarrow> bool" where
  "chan_ok c \<longleftrightarrow> length (ch_buf c) \<le> ch_cap c"

definition open_chan :: "'a chan \<Rightarrow> bool" where
  "open_chan c \<longleftrightarrow> chan_ok c \<and> \<not> ch_closed c"

lemma make_chan_ok: "make_chan n = Val c \<Longrightarrow> open_chan c \<and> ch_buf c = [] \<and> int (ch_cap c) = n"
  by (auto simp: make_chan_def open_chan_def chan_ok_def split: if_splits)

lemma try_send_ok: "try_send x c = Val (c', b) \<Longrightarrow> open_chan c \<Longrightarrow> open_chan c'"
  by (auto simp: try_send_def open_chan_def chan_ok_def split: if_splits)

lemma try_send_open: "\<not> ch_closed c \<Longrightarrow> \<exists>c' b. try_send x c = Val (c', b) \<and> \<not> ch_closed c'"
  by (auto simp: try_send_def)

lemma try_send_cap: "try_send x c = Val (c', b) \<Longrightarrow> ch_cap c' = ch_cap c \<and> ch_closed c' = ch_closed c"
  by (auto simp: try_send_def split: if_splits)

section \<open>The contract of a lossy queue\<close>

datatype 'a queue_op = Offer 'a | Poll

text \<open>What a run of operations has done: values taken in, values refused, values handed out.\<close>

record 'a traffic =
  tr_taken :: "'a list"
  tr_refused :: "'a list"
  tr_out :: "'a list"

fun run_ops ::
    "('a \<Rightarrow> 'q \<Rightarrow> ('q \<times> bool) go) \<Rightarrow> ('q \<Rightarrow> ('a option \<times> 'q) option) \<Rightarrow>
     'a queue_op list \<Rightarrow> 'q \<Rightarrow> ('q \<times> 'a traffic) go" where
  "run_ops offer poll [] q = Val (q, \<lparr>tr_taken = [], tr_refused = [], tr_out = []\<rparr>)"
| "run_ops offer poll (Offer x # ops) q =
    go_bind (offer x q) (\<lambda>(q', taken).
    go_bind (run_ops offer poll ops q') (\<lambda>(r, t).
    Val (r, if taken then t\<lparr>tr_taken := x # tr_taken t\<rparr> else t\<lparr>tr_refused := x # tr_refused t\<rparr>)))"
| "run_ops offer poll (Poll # ops) q =
    (case poll q of
       Some (Some x, q') \<Rightarrow>
         go_bind (run_ops offer poll ops q') (\<lambda>(r, t). Val (r, t\<lparr>tr_out := x # tr_out t\<rparr>))
     | Some (None, q') \<Rightarrow> run_ops offer poll ops q'
     | None \<Rightarrow> run_ops offer poll ops q)"

fun offered :: "'a queue_op list \<Rightarrow> 'a list" where
  "offered [] = []"
| "offered (Offer x # ops) = x # offered ops"
| "offered (Poll # ops) = offered ops"

text \<open>
  A faithful account of a run from \<open>before\<close> to \<open>after\<close>: what was held and taken comes out in that
  order or is still held, the taken values are a subsequence of the offered ones, and every offer
  was taken or refused.
\<close>

definition accounts_for :: "'a list \<Rightarrow> 'a list \<Rightarrow> 'a traffic \<Rightarrow> 'a list \<Rightarrow> bool" where
  "accounts_for before offers t after \<longleftrightarrow>
     before @ tr_taken t = tr_out t @ after \<and> subseq (tr_taken t) offers \<and>
     length offers = length (tr_taken t) + length (tr_refused t)"

lemma accounts_for_empty: "accounts_for b [] \<lparr>tr_taken = [], tr_refused = [], tr_out = []\<rparr> b"
  by (simp add: accounts_for_def)

lemma accounts_for_taken:
  "accounts_for (b @ [x]) os t a \<Longrightarrow> accounts_for b (x # os) (t\<lparr>tr_taken := x # tr_taken t\<rparr>) a"
  by (simp add: accounts_for_def)

lemma accounts_for_refused:
  "accounts_for b os t a \<Longrightarrow> accounts_for b (x # os) (t\<lparr>tr_refused := x # tr_refused t\<rparr>) a"
  by (auto simp: accounts_for_def)

lemma accounts_for_out:
  "accounts_for b os t a \<Longrightarrow> accounts_for (x # b) os (t\<lparr>tr_out := x # tr_out t\<rparr>) a"
  by (simp add: accounts_for_def)

definition join_traffic :: "'a traffic \<Rightarrow> 'a traffic \<Rightarrow> 'a traffic" where
  "join_traffic t u =
    \<lparr>tr_taken = tr_taken t @ tr_taken u, tr_refused = tr_refused t @ tr_refused u, tr_out = tr_out t @ tr_out u\<rparr>"

lemma run_ops_append:
  "run_ops offer poll xs q = Val (r, t) \<Longrightarrow> run_ops offer poll ys r = Val (s, u) \<Longrightarrow>
     run_ops offer poll (xs @ ys) q = Val (s, join_traffic t u)"
proof (induction xs arbitrary: q t)
  case Nil
  then show ?case by (auto simp: join_traffic_def)
next
  case (Cons op xs)
  show ?case
  proof (cases op)
    case (Offer x)
    then obtain q' b t' where q': "offer x q = Val (q', b)" "run_ops offer poll xs q' = Val (r, t')"
      "t = (if b then t'\<lparr>tr_taken := x # tr_taken t'\<rparr> else t'\<lparr>tr_refused := x # tr_refused t'\<rparr>)"
      using Cons.prems(1) by (auto simp: go_bind_Val_iff)
    show ?thesis using Cons.IH [OF q'(2) Cons.prems(2)] q' by (cases b) (simp_all add: Offer join_traffic_def)
  next
    case Poll
    then show ?thesis
      using Cons by (auto simp: go_bind_Val_iff join_traffic_def split: option.splits)
  qed
qed

locale lossy_queue =
  fixes ok :: "'q \<Rightarrow> bool" and items :: "'q \<Rightarrow> 'a list" and room :: "'q \<Rightarrow> nat"
    and offer :: "'a \<Rightarrow> 'q \<Rightarrow> ('q \<times> bool) go" and poll :: "'q \<Rightarrow> ('a option \<times> 'q) option"
  assumes offer_taken: "ok q \<Longrightarrow> 0 < room q \<Longrightarrow>
      \<exists>q'. offer x q = Val (q', True) \<and> ok q' \<and> items q' = items q @ [x] \<and> room q = Suc (room q')"
    and offer_refused: "ok q \<Longrightarrow> room q = 0 \<Longrightarrow> offer x q = Val (q, False)"
    and poll_item: "ok q \<Longrightarrow> items q = x # xs \<Longrightarrow>
      \<exists>q'. poll q = Some (Some x, q') \<and> ok q' \<and> items q' = xs \<and> room q' = Suc (room q)"
    and poll_empty: "ok q \<Longrightarrow> items q = [] \<Longrightarrow> poll q = None"
begin

lemma run_ops_Offer:
  assumes "ok q"
  obtains q' b where "offer x q = Val (q', b)" "ok q'"
    "items q' = (if b then items q @ [x] else items q)"
    "length (items q') + room q' = length (items q) + room q"
proof (cases "room q = 0")
  case True
  then show ?thesis using that [of q False] offer_refused [OF assms, of x] assms by simp
next
  case False
  then obtain q' where "offer x q = Val (q', True)" "ok q'" "items q' = items q @ [x]" "room q = Suc (room q')"
    using offer_taken [OF assms] by blast
  then show ?thesis using that [of q' True] by simp
qed

text \<open>Nothing is lost, duplicated or reordered beyond the refusals, and the capacity is kept.\<close>

lemma run_ops_fifo:
  assumes "ok q"
  shows "\<exists>q' t. run_ops offer poll ops q = Val (q', t) \<and> ok q' \<and>
    accounts_for (items q) (offered ops) t (items q') \<and>
    length (items q') + room q' = length (items q) + room q"
  using assms
proof (induction ops arbitrary: q)
  case Nil
  then show ?case by (simp add: accounts_for_empty)
next
  case (Cons op ops)
  show ?case
  proof (cases op)
    case (Offer x)
    obtain q1 b where o: "offer x q = Val (q1, b)" "ok q1"
      "items q1 = (if b then items q @ [x] else items q)"
      "length (items q1) + room q1 = length (items q) + room q"
      using run_ops_Offer [OF Cons.prems] by blast
    then show ?thesis
      using Cons.IH [OF o(2)] by (auto simp: Offer accounts_for_taken accounts_for_refused)
  next
    case Poll
    show ?thesis
    proof (cases "items q")
      case Nil
      then show ?thesis using Cons.IH [OF Cons.prems] poll_empty [OF Cons.prems] by (simp add: Poll)
    next
      case (Cons x xs)
      then obtain q1 where p: "poll q = Some (Some x, q1)" "ok q1" "items q1 = xs" "room q1 = Suc (room q)"
        using poll_item \<open>ok q\<close> by blast
      then show ?thesis using Cons.IH [OF p(2)] Cons by (auto simp: Poll accounts_for_out)
    qed
  qed
qed

text \<open>As long as nothing is received, exactly the first offers that fit are taken.\<close>

lemma run_offers:
  assumes "ok q"
  shows "\<exists>q'. run_ops offer poll (map Offer xs) q =
      Val (q', \<lparr>tr_taken = take (room q) xs, tr_refused = drop (room q) xs, tr_out = []\<rparr>) \<and>
    ok q' \<and> items q' = items q @ take (room q) xs"
  using assms
proof (induction xs arbitrary: q)
  case (Cons x xs)
  show ?case
  proof (cases "room q = 0")
    case True
    then show ?thesis using Cons.IH [OF Cons.prems] offer_refused [OF Cons.prems] by auto
  next
    case False
    then obtain q1 where o: "offer x q = Val (q1, True)" "ok q1" "items q1 = items q @ [x]"
      "room q = Suc (room q1)"
      using offer_taken [OF Cons.prems] by blast
    then show ?thesis using Cons.IH [OF o(2)] by auto
  qed
qed auto

end

section \<open>The channels are such queues\<close>

interpretation cq: lossy_queue open_chan ch_buf "\<lambda>c. ch_cap c - length (ch_buf c)" try_send recv
  by unfold_locales (auto simp: open_chan_def chan_ok_def try_send_def recv_def)

lemmas chan_simps = try_send_def block_send_def recv_def close_chan_def

text \<open>
  Whatever the interleaving of non-blocking sends and receives on an open channel, no send
  panics or blocks, what comes out and what is left in the buffer is what was there followed by the
  accepted values in order, and every value was accepted or refused.
\<close>

lemma channel_fifo:
  assumes "open_chan c"
  shows "\<exists>c' t. run_ops try_send recv ops c = Val (c', t) \<and> open_chan c' \<and>
    accounts_for (ch_buf c) (offered ops) t (ch_buf c')"
  using cq.run_ops_fifo [OF assms] by blast

end
