(* ===== verification/Config.thy ===== *)
theory Config
  imports Prelude
begin

text \<open>
  \<^verbatim>\<open>internal/config/config.go\<close>: the configuration records, the defaults, and loading a file over
  them.  The YAML decoder (a third-party package) is a parameter: it takes the file's bytes and the
  configuration it decodes into, and returns the configuration it leaves behind with its verdict.
\<close>

section \<open>The records\<close>

record UDPConfig =
  udp_BindAddress :: string
  udp_ReadBufferSize :: int
  udp_SocketBufferSize :: int
  udp_PacketQueueSize :: int
  udp_AllowedCIDRs :: "string list"

record WorkerConfig =
  wk_PoolSize :: int
  wk_ProcessTimeout :: duration

record DroneConfig =
  dc_StaleCheckInterval :: duration
  dc_StaleThreshold :: duration
  dc_MaxMessagesPerSecond :: int
  dc_RateLimitBurst :: int
  dc_RateLimitWindow :: duration
  dc_HistorySize :: int

record MAVLinkConfig =
  ml_ValidateCRC :: bool

record WebSocketConfig =
  wc_BindAddress :: string
  wc_BroadcastInterval :: duration
  wc_WriteTimeout :: duration
  wc_MaxMessageSize :: int
  wc_MaxClients :: int

record PubSubConfig =
  ps_SubscriberBufferSize :: int
  ps_DropOnSlowSubscriber :: bool

record MetricsConfig =
  me_Enabled :: bool
  me_BindAddress :: string

record DebugConfig =
  db_PprofEnabled :: bool

record ShutdownConfig =
  sh_Timeout :: duration

record Config =
  cfg_UDP :: UDPConfig
  cfg_Workers :: WorkerConfig
  cfg_Drone :: DroneConfig
  cfg_MAVLink :: MAVLinkConfig
  cfg_WebSocket :: WebSocketConfig
  cfg_PubSub :: PubSubConfig
  cfg_Metrics :: MetricsConfig
  cfg_Debug :: DebugConfig
  cfg_Shutdown :: ShutdownConfig

section \<open>Defaults\<close>

definition millisecond :: duration where "millisecond = 1000000"
definition second :: duration where "second = 1000000000"

definition Default :: Config where
  "Default =
    \<lparr>cfg_UDP = \<lparr>udp_BindAddress = '':14550'', udp_ReadBufferSize = 1024,
       udp_SocketBufferSize = 8 * 1024 * 1024, udp_PacketQueueSize = 10000, udp_AllowedCIDRs = []\<rparr>,
     cfg_Workers = \<lparr>wk_PoolSize = 8, wk_ProcessTimeout = 10 * millisecond\<rparr>,
     cfg_Drone = \<lparr>dc_StaleCheckInterval = 10 * second, dc_StaleThreshold = 30 * second,
       dc_MaxMessagesPerSecond = 200, dc_RateLimitBurst = 50, dc_RateLimitWindow = second,
       dc_HistorySize = 1000\<rparr>,
     cfg_MAVLink = \<lparr>ml_ValidateCRC = True\<rparr>,
     cfg_WebSocket = \<lparr>wc_BindAddress = '':8080'', wc_BroadcastInterval = 100 * millisecond,
       wc_WriteTimeout = 10 * second, wc_MaxMessageSize = 4096, wc_MaxClients = 100\<rparr>,
     cfg_PubSub = \<lparr>ps_SubscriberBufferSize = 256, ps_DropOnSlowSubscriber = True\<rparr>,
     cfg_Metrics = \<lparr>me_Enabled = True, me_BindAddress = '':9090''\<rparr>,
     cfg_Debug = \<lparr>db_PprofEnabled = False\<rparr>,
     cfg_Shutdown = \<lparr>sh_Timeout = 10 * second\<rparr>\<rparr>"

section \<open>Loading a file\<close>

text \<open>
  The file system is a parameter too: the bytes of a readable path.  The error value of
  \<^verbatim>\<open>fmt.Errorf\<close> keeps which of the two steps failed.
\<close>

datatype LoadError = ReadConfigFile | ParseConfigFile

definition LoadFile ::
    "(string \<Rightarrow> byte list option) \<Rightarrow> (byte list \<Rightarrow> Config \<Rightarrow> Config \<times> bool) \<Rightarrow>
     string \<Rightarrow> Config \<times> LoadError option" where
  "LoadFile read_file unmarshal path =
    (let cfg = Default in
     case read_file path of
       None \<Rightarrow> (cfg, Some ReadConfigFile)
     | Some data \<Rightarrow>
         (case unmarshal data cfg of
            (cfg, False) \<Rightarrow> (cfg, Some ParseConfigFile)
          | (cfg, True) \<Rightarrow> (cfg, None)))"

text \<open>What the components need of a configuration to start: no negative size or period.\<close>

definition runnable :: "Config \<Rightarrow> bool" where
  "runnable c \<longleftrightarrow>
     0 \<le> udp_ReadBufferSize (cfg_UDP c) \<and> 0 \<le> udp_PacketQueueSize (cfg_UDP c) \<and>
     0 < dc_StaleCheckInterval (cfg_Drone c) \<and> 0 < wc_BroadcastInterval (cfg_WebSocket c) \<and>
     0 \<le> ps_SubscriberBufferSize (cfg_PubSub c)"

lemma Default_runnable: "runnable Default"
  by (simp add: runnable_def Default_def second_def millisecond_def)

lemma LoadFile_unreadable: "read_file path = None \<Longrightarrow> LoadFile read_file unmarshal path = (Default, Some ReadConfigFile)"
  by (simp add: LoadFile_def)

end
