(* ===== verification/Drone.thy ===== *)
theory Drone
  imports History Channel Config
begin

text \<open>
  \<^verbatim>\<open>internal/drone/state.go\<close> and \<^verbatim>\<open>manager.go\<close>: the state of a drone and the registry of all
  drones.  A history is a ring buffer on a heap, named by its address, because \<^verbatim>\<open>Clone\<close> copies the
  pointer: the states in the update notifications share the live history.  The payload pointers
  are values, as nothing writes through them.  A loop over the Go map takes the order the run-time
  system happens to choose as an argument.
\<close>

section \<open>Drone state\<close>

record State =
  st_ID :: DroneID
  st_SourceAddr :: string
  st_FirstSeen :: instant
  st_LastSeen :: instant
  st_LastHeartbeat :: instant
  st_Heartbeat :: "Heartbeat option"
  st_GPS :: "GPSPosition option"
  st_Battery :: "BatteryStatus option"
  st_Attitude :: "Attitude option"
  st_IsConnected :: bool
  st_IsArmed :: bool
  st_FlightMode :: string
  st_History :: "nat option"
  st_MessageCount :: uint64

text \<open>The zero \<^verbatim>\<open>time.Time\<close>, January 1 of year 1, in nanoseconds of the Unix epoch.\<close>

definition zero_time :: instant where
  "zero_time = - 62135596800 * 1000000000"

text \<open>The fields of a struct copied, then each non-nil payload copied behind a new pointer.\<close>

definition Clone :: "State \<Rightarrow> State" where
  "Clone s =
    (let clone = s;
         clone = (case st_Heartbeat s of None \<Rightarrow> clone | Some hb \<Rightarrow> clone\<lparr>st_Heartbeat := Some hb\<rparr>);
         clone = (case st_GPS s of None \<Rightarrow> clone | Some gps \<Rightarrow> clone\<lparr>st_GPS := Some gps\<rparr>);
         clone = (case st_Battery s of None \<Rightarrow> clone | Some bat \<Rightarrow> clone\<lparr>st_Battery := Some bat\<rparr>);
         clone = (case st_Attitude s of None \<Rightarrow> clone | Some att \<Rightarrow> clone\<lparr>st_Attitude := Some att\<rparr>)
     in clone)"

lemma Clone_id [simp]: "Clone s = s"
  by (cases s) (simp add: Clone_def Let_def split: option.split)

record Summary =
  sum_SystemID :: uint8
  sum_ComponentID :: uint8
  sum_IsConnected :: bool
  sum_IsArmed :: bool
  sum_FlightMode :: string
  sum_VehicleType :: string
  sum_Latitude :: "f64 option"
  sum_Longitude :: "f64 option"
  sum_Altitude :: "f64 option"
  sum_Heading :: "f64 option"
  sum_BatteryPercent :: "int8 option"
  sum_BatteryVoltage :: "f64 option"
  sum_LastSeenMs :: int

definition ToSummary :: "State \<Rightarrow> Summary" where
  "ToSummary s =
    (let sum = \<lparr>sum_SystemID = SystemID (st_ID s), sum_ComponentID = ComponentID (st_ID s),
           sum_IsConnected = st_IsConnected s, sum_IsArmed = st_IsArmed s,
           sum_FlightMode = st_FlightMode s, sum_VehicleType = [],
           sum_Latitude = None, sum_Longitude = None, sum_Altitude = None, sum_Heading = None,
           sum_BatteryPercent = None, sum_BatteryVoltage = None,
           sum_LastSeenMs = unix_milli (st_LastSeen s)\<rparr>;
         sum = (case st_Heartbeat s of None \<Rightarrow> sum
                | Some hb \<Rightarrow> sum\<lparr>sum_VehicleType := MAVType_String (hb_Type hb)\<rparr>);
         sum = (case st_GPS s of None \<Rightarrow> sum
                | Some g \<Rightarrow> sum\<lparr>sum_Latitude := Some (gps_Latitude g),
                    sum_Longitude := Some (gps_Longitude g), sum_Altitude := Some (gps_Altitude g),
                    sum_Heading := Some (gps_Heading g)\<rparr>)
     in case st_Battery s of
          None \<Rightarrow> sum
        | Some b \<Rightarrow>
            let sum = (if 0 \<le> sint (bat_Remaining b)
                       then sum\<lparr>sum_BatteryPercent := Some (bat_Remaining b)\<rparr> else sum)
            in if f64_lt (f64_lit 0) (bat_VoltageTotal b)
               then sum\<lparr>sum_BatteryVoltage := Some (bat_VoltageTotal b)\<rparr> else sum)"

datatype UpdateType =
    UpdateTypeNew
  | UpdateTypeTelemetry
  | UpdateTypeArmed
  | UpdateTypeDisarmed
  | UpdateTypeDisconnect
  | UpdateTypeReconnect

fun UpdateType_String :: "UpdateType \<Rightarrow> string" where
  "UpdateType_String UpdateTypeNew = ''new''"
| "UpdateType_String UpdateTypeTelemetry = ''telemetry''"
| "UpdateType_String UpdateTypeArmed = ''armed''"
| "UpdateType_String UpdateTypeDisarmed = ''disarmed''"
| "UpdateType_String UpdateTypeDisconnect = ''disconnect''"
| "UpdateType_String UpdateTypeReconnect = ''reconnect''"

record StateUpdate =
  up_DroneID :: DroneID
  up_Timestamp :: instant
  up_Type :: UpdateType
  up_State :: State

section \<open>The manager\<close>

record Manager =
  mgr_cfg :: DroneConfig
  mgr_drones :: "DroneID \<Rightarrow> State option"
  mgr_rings :: "RingBuffer list"
  mgr_updates :: "StateUpdate chan option"
  mgr_dropped :: uint64
  mgr_stopped :: bool

definition NewManager :: "DroneConfig \<Rightarrow> StateUpdate chan option \<Rightarrow> Manager" where
  "NewManager cfg updates =
    \<lparr>mgr_cfg = cfg, mgr_drones = Map.empty, mgr_rings = [], mgr_updates = updates,
     mgr_dropped = 0, mgr_stopped = False\<rparr>"

definition put_state :: "DroneID \<Rightarrow> State \<Rightarrow> (Manager, unit) act" where
  "put_state i st = act_modify (\<lambda>m. m\<lparr>mgr_drones := (mgr_drones m)(i \<mapsto> st)\<rparr>)"

text \<open>A nil channel is never ready; a full one drops the update and counts it.\<close>

definition emitUpdate :: "StateUpdate \<Rightarrow> (Manager, unit) act" where
  "emitUpdate u m =
    (case mgr_updates m of
       None \<Rightarrow> (Val (), m)
     | Some c \<Rightarrow>
         (case try_send u c of
            Val (c', sent) \<Rightarrow>
              if sent then (Val (), m\<lparr>mgr_updates := Some c'\<rparr>)
              else (Val (), m\<lparr>mgr_dropped := mgr_dropped m + 1\<rparr>)
          | Panic p \<Rightarrow> (Panic p, m)
          | Diverge \<Rightarrow> (Diverge, m)))"

definition decodeFlightMode :: "uint32 \<Rightarrow> uint8 \<Rightarrow> string" where
  "decodeFlightMode customMode baseMode =
    (let mainMode = drop_bit 16 customMode AND 0xFF;
         subMode = drop_bit 24 customMode AND 0xFF
     in if baseMode AND 0x01 = 0 then ''UNKNOWN''
        else if mainMode = 1 then ''MANUAL''
        else if mainMode = 2 then ''ALTITUDE''
        else if mainMode = 3 then
          (if subMode = 0 then ''POSITION''
           else if subMode = 1 then ''POSCTL''
           else if subMode = 3 then ''ORBIT''
           else ''POSITION'')
        else if mainMode = 4 then
          (if subMode = 1 then ''READY''
           else if subMode = 2 then ''TAKEOFF''
           else if subMode = 3 then ''LOITER''
           else if subMode = 4 then ''MISSION''
           else if subMode = 5 then ''RTL''
           else if subMode = 6 then ''LAND''
           else ''AUTO'')
        else if mainMode = 5 then ''ACRO''
        else if mainMode = 6 then ''OFFBOARD''
        else if mainMode = 7 then ''STABILIZED''
        else ''UNKNOWN'')"

subsection \<open>Processing an event\<close>

text \<open>Registration of an unknown drone, with the notification; the state the map then holds.\<close>

definition registerDrone :: "TelemetryEvent \<Rightarrow> (Manager, State) act" where
  "registerDrone event m =
    (let i = ev_DroneID event; now = ev_Timestamp event in
     case mgr_drones m i of
       Some state \<Rightarrow> (Val state, m)
     | None \<Rightarrow>
         (let histSize = dc_HistorySize (mgr_cfg m);
              histSize = (if histSize \<le> 0 then 1000 else histSize)
          in act_bind (act_go (NewRingBuffer histSize)) (\<lambda>ring.
             let state = \<lparr>st_ID = i, st_SourceAddr = ev_SourceAddr event, st_FirstSeen = now,
                   st_LastSeen = now, st_LastHeartbeat = zero_time, st_Heartbeat = None,
                   st_GPS = None, st_Battery = None, st_Attitude = None, st_IsConnected = True,
                   st_IsArmed = False, st_FlightMode = [], st_History = Some (length (mgr_rings m)),
                   st_MessageCount = 0\<rparr>
             in
             act_then (act_modify (\<lambda>m. m\<lparr>mgr_rings := mgr_rings m @ [ring]\<rparr>)) (
             act_then (put_state i state) (
             act_then (emitUpdate \<lparr>up_DroneID = i, up_Timestamp = now, up_Type = UpdateTypeNew,
               up_State = Clone state\<rparr>) (
             act_return state)))) m))"

definition reconnectDrone :: "TelemetryEvent \<Rightarrow> State \<Rightarrow> (Manager, State) act" where
  "reconnectDrone event state =
    (if \<not> st_IsConnected state then
       (let state = state\<lparr>st_IsConnected := True\<rparr> in
        act_then (put_state (ev_DroneID event) state) (
        act_then (emitUpdate \<lparr>up_DroneID = ev_DroneID event, up_Timestamp = ev_Timestamp event,
          up_Type = UpdateTypeReconnect, up_State = Clone state\<rparr>) (
        act_return state)))
     else act_return state)"

text \<open>\<^verbatim>\<open>state.History.Push(entry)\<close> through the pointer.\<close>

definition pushHistory :: "nat \<Rightarrow> HistoryEntry \<Rightarrow> (Manager, unit) act" where
  "pushHistory a entry m =
    act_bind (act_go (go_bind (index_at (mgr_rings m) a) (\<lambda>rb. Push rb entry))) (\<lambda>rb.
    act_modify (\<lambda>m. m\<lparr>mgr_rings := (mgr_rings m)[a := rb]\<rparr>)) m"

definition historyEntry :: "instant \<Rightarrow> GPSPosition \<Rightarrow> State \<Rightarrow> HistoryEntry" where
  "historyEntry now g state =
    \<lparr>he_Timestamp = now, he_Lat = gps_Latitude g, he_Lon = gps_Longitude g,
     he_Alt = gps_Altitude g, he_Heading = gps_Heading g,
     he_Battery = (case st_Battery state of None \<Rightarrow> - 1 | Some b \<Rightarrow> bat_Remaining b),
     he_Armed = st_IsArmed state, he_Mode = st_FlightMode state\<rparr>"

text \<open>
  The switch on the payload.  The fields of a nil payload are read after the pointer has been
  stored, so the panic leaves it in the state.
\<close>

definition applyPayload :: "TelemetryEvent \<Rightarrow> State \<Rightarrow> (Manager, State \<times> UpdateType) act" where
  "applyPayload event state =
    (let i = ev_DroneID event; now = ev_Timestamp event; previouslyArmed = st_IsArmed state in
     case ev_Payload event of
       PHeartbeat p \<Rightarrow>
         (let state = state\<lparr>st_Heartbeat := p, st_LastHeartbeat := now\<rparr> in
          act_then (put_state i state) (
          case p of
            None \<Rightarrow> act_go (Panic NilDereference)
          | Some payload \<Rightarrow>
              (let state = state\<lparr>st_IsArmed := hb_Armed payload,
                     st_FlightMode := decodeFlightMode (hb_CustomMode payload) (hb_BaseMode payload)\<rparr>;
                   updateType =
                     (if hb_Armed payload \<and> \<not> previouslyArmed then UpdateTypeArmed
                      else if \<not> hb_Armed payload \<and> previouslyArmed then UpdateTypeDisarmed
                      else UpdateTypeTelemetry)
               in act_then (put_state i state) (act_return (state, updateType)))))
     | PGPS p \<Rightarrow>
         (let state = state\<lparr>st_GPS := p\<rparr> in
          act_then (put_state i state) (
          case st_History state of
            None \<Rightarrow> act_return (state, UpdateTypeTelemetry)
          | Some a \<Rightarrow>
              (case p of
                 None \<Rightarrow> act_go (Panic NilDereference)
               | Some payload \<Rightarrow>
                   act_then (pushHistory a (historyEntry now payload state)) (
                   act_return (state, UpdateTypeTelemetry)))))
     | PBattery p \<Rightarrow>
         (let state = state\<lparr>st_Battery := p\<rparr>
          in act_then (put_state i state) (act_return (state, UpdateTypeTelemetry)))
     | PAttitude p \<Rightarrow>
         (let state = state\<lparr>st_Attitude := p\<rparr>
          in act_then (put_state i state) (act_return (state, UpdateTypeTelemetry)))
     | PRaw _ \<Rightarrow> act_return (state, UpdateTypeTelemetry))"

definition ProcessEvent :: "TelemetryEvent \<Rightarrow> (Manager, unit) act" where
  "ProcessEvent event =
    act_bind (registerDrone event) (\<lambda>state.
    act_bind (reconnectDrone event state) (\<lambda>state.
    let state = state\<lparr>st_LastSeen := ev_Timestamp event, st_SourceAddr := ev_SourceAddr event,
          st_MessageCount := st_MessageCount state + 1\<rparr>
    in
    act_then (put_state (ev_DroneID event) state) (
    act_bind (applyPayload event state) (\<lambda>(state, updateType).
    emitUpdate \<lparr>up_DroneID = ev_DroneID event, up_Timestamp = ev_Timestamp event,
      up_Type = updateType, up_State = Clone state\<rparr>))))"

subsection \<open>Staleness\<close>

definition isStale :: "instant \<Rightarrow> duration \<Rightarrow> State \<Rightarrow> bool" where
  "isStale now threshold st \<longleftrightarrow> st_IsConnected st \<and> threshold < time_sub now (st_LastSeen st)"

text \<open>The loop over the map, in the order \<open>ks\<close>.\<close>

fun staleLoop :: "instant \<Rightarrow> duration \<Rightarrow> DroneID list \<Rightarrow> (Manager, unit) act" where
  "staleLoop now threshold [] m = (Val (), m)"
| "staleLoop now threshold (k # ks) m =
    (case mgr_drones m k of
       None \<Rightarrow> staleLoop now threshold ks m
     | Some state \<Rightarrow>
         if isStale now threshold state then
           (let state = state\<lparr>st_IsConnected := False\<rparr> in
            act_then (put_state k state) (
            act_then (emitUpdate \<lparr>up_DroneID = k, up_Timestamp = now, up_Type = UpdateTypeDisconnect,
              up_State = Clone state\<rparr>) (
            staleLoop now threshold ks)) m)
         else staleLoop now threshold ks m)"

definition checkStale :: "DroneID list \<Rightarrow> instant \<Rightarrow> (Manager, unit) act" where
  "checkStale ks now m = staleLoop now (dc_StaleThreshold (mgr_cfg m)) ks m"

subsection \<open>Queries\<close>

definition GetState :: "DroneID \<Rightarrow> Manager \<Rightarrow> State option" where
  "GetState i m = (case mgr_drones m i of None \<Rightarrow> None | Some state \<Rightarrow> Some (Clone state))"

fun statesLoop :: "DroneID list \<Rightarrow> Manager \<Rightarrow> State list" where
  "statesLoop [] m = []"
| "statesLoop (k # ks) m =
    (case mgr_drones m k of None \<Rightarrow> statesLoop ks m | Some state \<Rightarrow> state # statesLoop ks m)"

definition GetAllStates :: "DroneID list \<Rightarrow> Manager \<Rightarrow> State list" where
  "GetAllStates ks m = map Clone (statesLoop ks m)"

definition GetAllSummaries :: "DroneID list \<Rightarrow> Manager \<Rightarrow> Summary list" where
  "GetAllSummaries ks m = map ToSummary (statesLoop ks m)"

text \<open>The first drone of the system in map order that has a history answers.\<close>

fun GetHistory :: "DroneID list \<Rightarrow> uint8 \<Rightarrow> int \<Rightarrow> Manager \<Rightarrow> HistoryEntry list go" where
  "GetHistory [] systemID n m = Val []"
| "GetHistory (k # ks) systemID n m =
    (case mgr_drones m k of
       None \<Rightarrow> GetHistory ks systemID n m
     | Some state \<Rightarrow>
         if SystemID k = systemID \<and> st_History state \<noteq> None
         then go_bind (index_at (mgr_rings m) (the (st_History state))) (\<lambda>rb. Last rb n)
         else GetHistory ks systemID n m)"

fun GetStateBySystemID :: "DroneID list \<Rightarrow> uint8 \<Rightarrow> Manager \<Rightarrow> State option" where
  "GetStateBySystemID [] systemID m = None"
| "GetStateBySystemID (k # ks) systemID m =
    (case mgr_drones m k of
       None \<Rightarrow> GetStateBySystemID ks systemID m
     | Some state \<Rightarrow>
         if SystemID k = systemID then Some (Clone state) else GetStateBySystemID ks systemID m)"

definition GetConnectedCount :: "DroneID list \<Rightarrow> Manager \<Rightarrow> int" where
  "GetConnectedCount ks m =
    foldl (\<lambda>count state. if st_IsConnected state then count + 1 else count) 0 (statesLoop ks m)"

record ManagerStats =
  ms_TotalDrones :: int
  ms_ConnectedDrones :: int
  ms_ArmedDrones :: int
  ms_TotalMessages :: uint64

definition countState :: "ManagerStats \<Rightarrow> State \<Rightarrow> ManagerStats" where
  "countState stats state =
    (let stats = (if st_IsConnected state
           then stats\<lparr>ms_ConnectedDrones := ms_ConnectedDrones stats + 1\<rparr> else stats);
         stats = (if st_IsArmed state then stats\<lparr>ms_ArmedDrones := ms_ArmedDrones stats + 1\<rparr> else stats)
     in stats\<lparr>ms_TotalMessages := ms_TotalMessages stats + st_MessageCount state\<rparr>)"

definition Manager_Stats :: "DroneID list \<Rightarrow> Manager \<Rightarrow> ManagerStats" where
  "Manager_Stats ks m =
    foldl countState
      \<lparr>ms_TotalDrones = int (length ks), ms_ConnectedDrones = 0, ms_ArmedDrones = 0, ms_TotalMessages = 0\<rparr>
      (statesLoop ks m)"

text \<open>\<^verbatim>\<open>close(m.done)\<close>: a second stop panics.\<close>

definition Manager_Stop :: "(Manager, unit) act" where
  "Manager_Stop m =
    (if mgr_stopped m then (Panic CloseOfClosedChannel, m) else (Val (), m\<lparr>mgr_stopped := True\<rparr>))"

end
