(* ===== verification/Transition.thy ===== *)
theory Transition
  imports Main
begin

text \<open>
  Interleaved systems.  The goroutines of the program meet in step relations, a step labelled with the
  operation that made it; this theory holds the runs of such a relation and the laws the components
  share: invariants (with and without the operations so far), quantities that are only moved, the
  simulation of one system by another, and systems that come to rest.
\<close>

section \<open>Runs\<close>

inductive run_of :: "('s \<Rightarrow> 'op \<Rightarrow> 's \<Rightarrow> bool) \<Rightarrow> 's \<Rightarrow> 'op list \<Rightarrow> 's \<Rightarrow> bool" for step where
  run_nil: "run_of step s [] s"
| run_snoc: "run_of step s ops s' \<Longrightarrow> step s' op s'' \<Longrightarrow> run_of step s (ops @ [op]) s''"

lemma run_one: "step s op s' \<Longrightarrow> run_of step s [op] s'"
  using run_snoc [OF run_nil] by fastforce

lemma run_trans: "run_of step s' ops' s'' \<Longrightarrow> run_of step s ops s' \<Longrightarrow> run_of step s (ops @ ops') s''"
  by (induction rule: run_of.induct) (simp_all add: run_snoc flip: append_assoc)

lemma run_cons: "step s op s' \<Longrightarrow> run_of step s' ops s'' \<Longrightarrow> run_of step s (op # ops) s''"
  using run_trans [OF _ run_one] by fastforce

lemma run_mono: "run_of step s ops s' \<Longrightarrow> (\<And>s op s'. step s op s' \<Longrightarrow> step' s op s') \<Longrightarrow> run_of step' s ops s'"
  by (induction rule: run_of.induct) (auto intro: run_nil run_snoc)

section \<open>Invariants\<close>

text \<open>An invariant that speaks about the operations done so far.\<close>

locale tracked =
  fixes step :: "'s \<Rightarrow> 'op \<Rightarrow> 's \<Rightarrow> bool" and tinv :: "'op list \<Rightarrow> 's \<Rightarrow> bool"
  assumes tinv_step: "step s op s' \<Longrightarrow> tinv ops s \<Longrightarrow> tinv (ops @ [op]) s'"
begin

lemma tinv_run_from: "run_of step s ops s' \<Longrightarrow> tinv before s \<Longrightarrow> tinv (before @ ops) s'"
  by (induction rule: run_of.induct) (auto dest: tinv_step simp flip: append_assoc)

lemma tinv_run: "run_of step s ops s' \<Longrightarrow> tinv [] s \<Longrightarrow> tinv ops s'"
  using tinv_run_from [of s ops s' "[]"] by simp

end

locale invariant =
  fixes step :: "'s \<Rightarrow> 'op \<Rightarrow> 's \<Rightarrow> bool" and inv :: "'s \<Rightarrow> bool"
  assumes inv_step: "step s op s' \<Longrightarrow> inv s \<Longrightarrow> inv s'"

sublocale invariant \<subseteq> tracked step "\<lambda>_. inv"
  by unfold_locales (rule inv_step)

section \<open>Accounting\<close>

text \<open>
  A quantity the steps neither create nor destroy: what an operation brings in is in the stock
  afterwards, or in what it takes out.
\<close>

locale accounting = invariant step inv
  for step :: "'s \<Rightarrow> 'op \<Rightarrow> 's \<Rightarrow> bool" and inv :: "'s \<Rightarrow> bool" +
  fixes stock :: "'s \<Rightarrow> 'n::comm_monoid_add" and gain loss :: "'op list \<Rightarrow> 'n"
  assumes gain_nil: "gain [] = 0" and gain_append: "gain (ops @ ops') = gain ops + gain ops'"
    and loss_nil: "loss [] = 0" and loss_append: "loss (ops @ ops') = loss ops + loss ops'"
    and stock_step: "step s op s' \<Longrightarrow> inv s \<Longrightarrow> stock s + gain [op] = stock s' + loss [op]"
begin

lemma stock_run: "run_of step s ops s' \<Longrightarrow> inv s \<Longrightarrow> stock s + gain ops = stock s' + loss ops"
proof (induction rule: run_of.induct)
  case (run_snoc s ops s' op s'')
  have "stock s' + gain [op] = stock s'' + loss [op]"
    using stock_step [OF run_snoc(2) tinv_run [OF run_snoc(1,4)]] .
  moreover have "stock s + gain (ops @ [op]) = (stock s + gain ops) + gain [op]" by (simp add: gain_append add.assoc)
  moreover have "stock s' + loss ops + gain [op] = stock s' + gain [op] + loss ops" by (simp only: ac_simps)
  ultimately have "stock s + gain (ops @ [op]) = stock s'' + loss [op] + loss ops"
    using run_snoc.IH [OF run_snoc(4)] by simp
  then show ?case by (simp add: loss_append ac_simps)
qed (simp add: gain_nil loss_nil)

end

section \<open>Simulation\<close>

locale simulation = invariant step inv
  for step :: "'s \<Rightarrow> 'op \<Rightarrow> 's \<Rightarrow> bool" and inv :: "'s \<Rightarrow> bool" +
  fixes step' :: "'t \<Rightarrow> 'op' \<Rightarrow> 't \<Rightarrow> bool" and view :: "'s \<Rightarrow> 't" and ops_of :: "'op list \<Rightarrow> 'op' list"
  assumes ops_nil: "ops_of [] = []" and ops_append: "ops_of (ops @ ops') = ops_of ops @ ops_of ops'"
    and view_step: "step s op s' \<Longrightarrow> inv s \<Longrightarrow> run_of step' (view s) (ops_of [op]) (view s')"
begin

lemma view_run: "run_of step s ops s' \<Longrightarrow> inv s \<Longrightarrow> run_of step' (view s) (ops_of ops) (view s')"
proof (induction rule: run_of.induct)
  case (run_snoc s ops s' op s'')
  then show ?case using view_step tinv_run run_trans ops_append by metis
qed (simp add: ops_nil run_nil)

end

section \<open>Systems that come to rest\<close>

text \<open>
  Every step lowers the rank, and only a final state has no step: no schedule runs for ever, and none
  gets stuck before the end.
\<close>

locale resting = invariant step inv
  for step :: "'s \<Rightarrow> 'op \<Rightarrow> 's \<Rightarrow> bool" and inv :: "'s \<Rightarrow> bool" +
  fixes rank :: "'s \<Rightarrow> nat" and final :: "'s \<Rightarrow> bool"
  assumes rank_step: "step s op s' \<Longrightarrow> inv s \<Longrightarrow> rank s' < rank s"
    and progress: "inv s \<Longrightarrow> \<not> final s \<Longrightarrow> \<exists>op s'. step s op s'"
begin

lemma run_bounded: "run_of step s ops s' \<Longrightarrow> inv s \<Longrightarrow> length ops + rank s' \<le> rank s"
proof (induction rule: run_of.induct)
  case (run_snoc s ops s' op s'')
  then show ?case using rank_step [OF run_snoc(2) tinv_run [OF run_snoc(1,4)]] by simp
qed simp

lemma stuck_final: "inv s \<Longrightarrow> \<nexists>op s'. step s op s' \<Longrightarrow> final s"
  using progress by blast

lemma comes_to_rest: "inv s \<Longrightarrow> \<exists>ops s'. run_of step s ops s' \<and> final s'"
proof (induction "rank s" arbitrary: s rule: less_induct)
  case less
  show ?case
  proof (cases "final s")
    case False
    then obtain op s' where st: "step s op s'" using progress less.prems by blast
    from less.hyps [OF rank_step [OF st less.prems] inv_step [OF st less.prems]]
    obtain ops s'' where "run_of step s' ops s''" "final s''" by blast
    then show ?thesis using run_cons [of step, OF st] by blast
  qed (blast intro: run_nil)
qed

end

end
