(* ===== verification/Drone_Correct.thy ===== *)
theory Drone_Correct
  imports Drone Transition
begin

text \<open>
  Correctness of the drone registry.  Each operation is described without its control flow (what
  the map, the rings and the notification channel hold afterwards); the registry's invariant is
  preserved by every step; and the registry, heap of histories included, refines one pure automaton
  per drone, from which the statements about message counts, positions and histories follow by
  induction on the events.
\<close>

section \<open>Notifications\<close>

definition emitted :: "StateUpdate \<Rightarrow> Manager \<Rightarrow> Manager" where
  "emitted u m = snd (emitUpdate u m)"

definition emit_all :: "StateUpdate list \<Rightarrow> Manager \<Rightarrow> Manager" where
  "emit_all us m = fold emitted us m"

definition updates_open :: "Manager \<Rightarrow> bool" where
  "updates_open m \<longleftrightarrow> (case mgr_updates m of None \<Rightarrow> True | Some c \<Rightarrow> open_chan c)"

text \<open>What the registry holds beside the notifications.\<close>

definition core :: "Manager \<Rightarrow> DroneConfig \<times> (DroneID \<Rightarrow> State option) \<times> RingBuffer list \<times> bool" where
  "core m = (mgr_cfg m, mgr_drones m, mgr_rings m, mgr_stopped m)"

lemma emitUpdate_open:
  assumes "updates_open m"
  shows "emitUpdate u m = (Val (), emitted u m)" "updates_open (emitted u m)"
proof -
  have "emitUpdate u m = (Val (), emitted u m) \<and> updates_open (emitted u m)"
  proof (cases "mgr_updates m")
    case None
    then show ?thesis using assms by (simp add: emitted_def emitUpdate_def)
  next
    case (Some c)
    with assms have c: "open_chan c" by (simp add: updates_open_def)
    then obtain c' b where s: "try_send u c = Val (c', b)" using try_send_open [of c u] by (auto simp: open_chan_def)
    moreover from s c have "open_chan c'" by (rule try_send_ok)
    ultimately show ?thesis
      using Some c by (cases b) (simp_all add: emitted_def emitUpdate_def updates_open_def)
  qed
  then show "emitUpdate u m = (Val (), emitted u m)" "updates_open (emitted u m)" by simp_all
qed

lemma emitted_fields [simp]:
  "mgr_cfg (emitted u m) = mgr_cfg m" "mgr_drones (emitted u m) = mgr_drones m"
  "mgr_rings (emitted u m) = mgr_rings m" "mgr_stopped (emitted u m) = mgr_stopped m"
  by (auto simp: emitted_def emitUpdate_def split: option.split go.split)

lemma emitted_update [simp]:
  "(emitted u m)\<lparr>mgr_drones := d\<rparr> = emitted u (m\<lparr>mgr_drones := d\<rparr>)"
  "(emitted u m)\<lparr>mgr_rings := r\<rparr> = emitted u (m\<lparr>mgr_rings := r\<rparr>)"
  by (auto simp: emitted_def emitUpdate_def split: option.split go.split)

lemma updates_open_cong [simp]:
  "updates_open (m\<lparr>mgr_drones := d\<rparr>) = updates_open m" "updates_open (m\<lparr>mgr_rings := r\<rparr>) = updates_open m"
  by (simp_all add: updates_open_def)

lemma emit_all_simps [simp]:
  "emit_all [] m = m" "emit_all (u # us) m = emit_all us (emitted u m)"
  "emit_all (us @ vs) m = emit_all vs (emit_all us m)"
  by (simp_all add: emit_all_def)

lemma emit_all_fields [simp]:
  "mgr_cfg (emit_all us m) = mgr_cfg m" "mgr_drones (emit_all us m) = mgr_drones m"
  "mgr_rings (emit_all us m) = mgr_rings m" "mgr_stopped (emit_all us m) = mgr_stopped m"
  by (induction us arbitrary: m) simp_all

lemma updates_open_emit_all: "updates_open m \<Longrightarrow> updates_open (emit_all us m)"
  by (induction us arbitrary: m) (simp_all add: emitUpdate_open)

text \<open>
  The notifications reach the channel in order as long as they fit; what does not fit is counted.
\<close>

lemma emit_all_channel:
  assumes "mgr_updates m = Some c" "open_chan c"
  shows "mgr_updates (emit_all us m) =
      Some (c\<lparr>ch_buf := ch_buf c @ take (ch_cap c - length (ch_buf c)) us\<rparr>) \<and>
    mgr_dropped (emit_all us m) = mgr_dropped m + of_nat (length us - (ch_cap c - length (ch_buf c)))"
  using assms
proof (induction us arbitrary: m c)
  case (Cons u us)
  show ?case
  proof (cases "length (ch_buf c) < ch_cap c")
    case True
    let ?c = "c\<lparr>ch_buf := ch_buf c @ [u]\<rparr>"
    have e: "mgr_updates (emitted u m) = Some ?c" "mgr_dropped (emitted u m) = mgr_dropped m"
      using True Cons.prems by (simp_all add: emitted_def emitUpdate_def try_send_def open_chan_def)
    moreover have "open_chan ?c" using True Cons.prems by (simp add: open_chan_def chan_ok_def)
    moreover have "ch_cap c - length (ch_buf c) = Suc (ch_cap c - length (ch_buf ?c))" using True by simp
    ultimately show ?thesis using Cons.IH [OF e(1)] by simp
  next
    case False
    have "mgr_updates (emitted u m) = Some c" "mgr_dropped (emitted u m) = mgr_dropped m + 1"
      using False Cons.prems by (simp_all add: emitted_def emitUpdate_def try_send_def open_chan_def)
    then show ?thesis using Cons.IH [of "emitted u m" c] Cons.prems(2) False by simp
  qed
qed simp

section \<open>Processing an event, without the control flow\<close>

definition hist_size :: "DroneConfig \<Rightarrow> int" where
  "hist_size cfg = (if dc_HistorySize cfg \<le> 0 then 1000 else dc_HistorySize cfg)"

definition new_ring :: "DroneConfig \<Rightarrow> RingBuffer" where
  "new_ring cfg = \<lparr>rb_entries = replicate (nat (hist_size cfg)) zero_entry, rb_head = 0, rb_count = 0,
     rb_cap = hist_size cfg\<rparr>"

lemma hist_size_pos: "0 < hist_size cfg"
  by (simp add: hist_size_def)

lemma new_ring_eq: "NewRingBuffer (hist_size cfg) = Val (new_ring cfg)"
  using hist_size_pos [of cfg] by (simp add: NewRingBuffer_def make_slice_def new_ring_def)

definition fresh_state :: "TelemetryEvent \<Rightarrow> nat \<Rightarrow> State" where
  "fresh_state ev a =
    \<lparr>st_ID = ev_DroneID ev, st_SourceAddr = ev_SourceAddr ev, st_FirstSeen = ev_Timestamp ev,
     st_LastSeen = ev_Timestamp ev, st_LastHeartbeat = zero_time, st_Heartbeat = None,
     st_GPS = None, st_Battery = None, st_Attitude = None, st_IsConnected = True,
     st_IsArmed = False, st_FlightMode = [], st_History = Some a, st_MessageCount = 0\<rparr>"

definition found_state :: "TelemetryEvent \<Rightarrow> Manager \<Rightarrow> State" where
  "found_state ev m =
    (case mgr_drones m (ev_DroneID ev) of None \<Rightarrow> fresh_state ev (length (mgr_rings m)) | Some st \<Rightarrow> st)"

definition touched :: "TelemetryEvent \<Rightarrow> State \<Rightarrow> State" where
  "touched ev st = st\<lparr>st_IsConnected := True, st_LastSeen := ev_Timestamp ev,
     st_SourceAddr := ev_SourceAddr ev, st_MessageCount := st_MessageCount st + 1\<rparr>"

definition absorbed :: "TelemetryEvent \<Rightarrow> State \<Rightarrow> State" where
  "absorbed ev st =
    (case ev_Payload ev of
       PHeartbeat p \<Rightarrow>
         (let st = st\<lparr>st_Heartbeat := p, st_LastHeartbeat := ev_Timestamp ev\<rparr> in
          case p of None \<Rightarrow> st
          | Some hb \<Rightarrow> st\<lparr>st_IsArmed := hb_Armed hb,
              st_FlightMode := decodeFlightMode (hb_CustomMode hb) (hb_BaseMode hb)\<rparr>)
     | PGPS p \<Rightarrow> st\<lparr>st_GPS := p\<rparr>
     | PBattery p \<Rightarrow> st\<lparr>st_Battery := p\<rparr>
     | PAttitude p \<Rightarrow> st\<lparr>st_Attitude := p\<rparr>
     | PRaw _ \<Rightarrow> st)"

text \<open>The position an event adds to the history.\<close>

definition recorded :: "TelemetryEvent \<Rightarrow> State \<Rightarrow> HistoryEntry list" where
  "recorded ev st =
    (case ev_Payload ev of PGPS (Some g) \<Rightarrow> [historyEntry (ev_Timestamp ev) g st] | _ \<Rightarrow> [])"

definition change_type :: "TelemetryEvent \<Rightarrow> State \<Rightarrow> UpdateType" where
  "change_type ev st =
    (let armed = st_IsArmed (absorbed ev st) in
     if armed \<and> \<not> st_IsArmed st then UpdateTypeArmed
     else if \<not> armed \<and> st_IsArmed st then UpdateTypeDisarmed
     else UpdateTypeTelemetry)"

text \<open>The event whose payload the switch dereferences is a typed nil.\<close>

definition nil_deref :: "TelemetryEvent \<Rightarrow> bool" where
  "nil_deref ev \<longleftrightarrow> ev_Payload ev = PHeartbeat None \<or> ev_Payload ev = PGPS None"

definition event_updates :: "TelemetryEvent \<Rightarrow> Manager \<Rightarrow> StateUpdate list" where
  "event_updates ev m =
    (let st = found_state ev m; up = (\<lambda>ty s. \<lparr>up_DroneID = ev_DroneID ev, up_Timestamp = ev_Timestamp ev,
       up_Type = ty, up_State = s\<rparr>)
     in (if mgr_drones m (ev_DroneID ev) = None then [up UpdateTypeNew st] else []) @
        (if st_IsConnected st then [] else [up UpdateTypeReconnect (st\<lparr>st_IsConnected := True\<rparr>)]) @
        (if nil_deref ev then [] else [up (change_type ev st) (absorbed ev (touched ev st))]))"

definition rings_after :: "TelemetryEvent \<Rightarrow> Manager \<Rightarrow> RingBuffer list" where
  "rings_after ev m =
    (let st = found_state ev m;
         rings = (if mgr_drones m (ev_DroneID ev) = None then mgr_rings m @ [new_ring (mgr_cfg m)]
                  else mgr_rings m)
     in case recorded ev (touched ev st) of
          [] \<Rightarrow> rings
        | e # _ \<Rightarrow>
            (let a = the (st_History st)
             in case Push (rings ! a) e of Val rb \<Rightarrow> rings[a := rb] | _ \<Rightarrow> rings))"

section \<open>The invariant\<close>

definition drones_ok :: "(DroneID \<Rightarrow> State option) \<Rightarrow> nat \<Rightarrow> bool" where
  "drones_ok d n \<longleftrightarrow>
     (\<forall>i st. d i = Some st \<longrightarrow> st_ID st = i \<and> (\<exists>a. st_History st = Some a \<and> a < n)) \<and>
     (\<forall>i j st su. d i = Some st \<and> d j = Some su \<and> st_History st = st_History su \<longrightarrow> i = j) \<and>
     finite (dom d)"

definition rings_ok :: "DroneConfig \<Rightarrow> RingBuffer list \<Rightarrow> bool" where
  "rings_ok cfg rs \<longleftrightarrow> (\<forall>rb\<in>set rs. rb_wf rb \<and> rb_size rb = nat (hist_size cfg))"

definition mgr_ok :: "Manager \<Rightarrow> bool" where
  "mgr_ok m \<longleftrightarrow> drones_ok (mgr_drones m) (length (mgr_rings m)) \<and> rings_ok (mgr_cfg m) (mgr_rings m) \<and>
     updates_open m"

lemma new_ring_ok: "rb_wf (new_ring cfg)" "rb_size (new_ring cfg) = nat (hist_size cfg)"
  "rb_abs (new_ring cfg) = []"
  using NewRingBuffer_wf [OF hist_size_pos, of cfg] by (auto simp: new_ring_eq)

lemma rings_ok_new: "rings_ok cfg rs \<Longrightarrow> rings_ok cfg (rs @ [new_ring cfg])"
  by (auto simp: rings_ok_def new_ring_ok)

lemma rings_ok_update:
  "rings_ok cfg rs \<Longrightarrow> rb_wf rb \<Longrightarrow> rb_size rb = nat (hist_size cfg) \<Longrightarrow> rings_ok cfg (rs[a := rb])"
  by (auto simp: rings_ok_def dest: set_update_subset_insert [THEN subsetD])

lemma drones_ok_put:
  assumes "drones_ok d n" "d i = Some st" "st_History su = st_History st" "st_ID su = i"
  shows "drones_ok (d(i \<mapsto> su)) n"
  using assms by (auto simp: drones_ok_def split: if_splits)

lemma drones_ok_new:
  assumes "drones_ok d n" "d i = None" "st_History su = Some n" "st_ID su = i"
  shows "drones_ok (d(i \<mapsto> su)) (Suc n)"
  using assms unfolding drones_ok_def by (fastforce split: if_splits)

lemma mgr_ok_emit_all: "mgr_ok m \<Longrightarrow> mgr_ok (emit_all us m)"
  by (simp add: mgr_ok_def updates_open_emit_all)

lemma NewManager_ok: "updates_open (NewManager cfg u) \<Longrightarrow> mgr_ok (NewManager cfg u)"
  by (simp add: mgr_ok_def NewManager_def drones_ok_def rings_ok_def)

section \<open>The steps of an event\<close>

definition notify :: "TelemetryEvent \<Rightarrow> UpdateType \<Rightarrow> State \<Rightarrow> StateUpdate" where
  "notify ev ty st = \<lparr>up_DroneID = ev_DroneID ev, up_Timestamp = ev_Timestamp ev, up_Type = ty, up_State = st\<rparr>"

definition registered :: "TelemetryEvent \<Rightarrow> Manager \<Rightarrow> Manager" where
  "registered ev m =
    (if mgr_drones m (ev_DroneID ev) = None
     then emitted (notify ev UpdateTypeNew (found_state ev m))
       (m\<lparr>mgr_rings := mgr_rings m @ [new_ring (mgr_cfg m)],
          mgr_drones := (mgr_drones m)(ev_DroneID ev \<mapsto> found_state ev m)\<rparr>)
     else m)"

lemma registerDrone_eq:
  assumes "updates_open m"
  shows "registerDrone ev m = (Val (found_state ev m), registered ev m)"
proof (cases "mgr_drones m (ev_DroneID ev)")
  case None
  have h: "(if dc_HistorySize (mgr_cfg m) \<le> 0 then 1000 else dc_HistorySize (mgr_cfg m)) = hist_size (mgr_cfg m)"
    by (simp add: hist_size_def)
  let ?m = "m\<lparr>mgr_rings := mgr_rings m @ [new_ring (mgr_cfg m)],
              mgr_drones := (mgr_drones m)(ev_DroneID ev \<mapsto> fresh_state ev (length (mgr_rings m)))\<rparr>"
  have "emitUpdate u ?m = (Val (), emitted u ?m)" for u
    using assms by (intro emitUpdate_open) simp
  then show ?thesis
    using None
    by (simp add: registerDrone_def Let_def h new_ring_eq act_simps put_state_def fresh_state_def [symmetric]
        found_state_def registered_def notify_def [symmetric] cong: if_cong)
next
  case (Some st)
  then show ?thesis by (simp add: registerDrone_def found_state_def registered_def)
qed

definition reconnected :: "TelemetryEvent \<Rightarrow> State \<Rightarrow> Manager \<Rightarrow> Manager" where
  "reconnected ev st m =
    (if st_IsConnected st then m
     else emitted (notify ev UpdateTypeReconnect (st\<lparr>st_IsConnected := True\<rparr>))
       (m\<lparr>mgr_drones := (mgr_drones m)(ev_DroneID ev \<mapsto> st\<lparr>st_IsConnected := True\<rparr>)\<rparr>))"

lemma reconnectDrone_eq:
  assumes "updates_open m"
  shows "reconnectDrone ev st m = (Val (st\<lparr>st_IsConnected := True\<rparr>), reconnected ev st m)"
proof (cases "st_IsConnected st")
  case False
  let ?m = "m\<lparr>mgr_drones := (mgr_drones m)(ev_DroneID ev \<mapsto> st\<lparr>st_IsConnected := True\<rparr>)\<rparr>"
  have "emitUpdate u ?m = (Val (), emitted u ?m)" for u
    using assms by (intro emitUpdate_open) simp
  with False show ?thesis
    by (simp add: reconnectDrone_def reconnected_def act_simps put_state_def Let_def notify_def)
next
  case True
  then have "st\<lparr>st_IsConnected := True\<rparr> = st" by simp
  with True show ?thesis by (simp add: reconnectDrone_def reconnected_def act_simps)
qed

lemma pushHistory_eq:
  "a < length (mgr_rings m) \<Longrightarrow> Push (mgr_rings m ! a) e = Val rb \<Longrightarrow>
     pushHistory a e m = (Val (), m\<lparr>mgr_rings := (mgr_rings m)[a := rb]\<rparr>)"
  by (simp add: pushHistory_def act_simps go_simps)

definition pushed :: "TelemetryEvent \<Rightarrow> State \<Rightarrow> Manager \<Rightarrow> Manager" where
  "pushed ev st m =
    (case recorded ev st of
       [] \<Rightarrow> m
     | e # _ \<Rightarrow>
         (let a = the (st_History st) in
          case Push (mgr_rings m ! a) e of
            Val rb \<Rightarrow> m\<lparr>mgr_rings := (mgr_rings m)[a := rb]\<rparr> | _ \<Rightarrow> m))"

lemma historyEntry_GPS [simp]: "historyEntry now g (st\<lparr>st_GPS := p\<rparr>) = historyEntry now g st"
  by (simp add: historyEntry_def)

lemma applyPayload_eq:
  assumes "mgr_drones m (ev_DroneID ev) = Some st" "st_History st = Some a"
    "a < length (mgr_rings m)" "rb_wf (mgr_rings m ! a)"
  shows "applyPayload ev st m =
    (if nil_deref ev then Panic NilDereference else Val (absorbed ev st, change_type ev st),
     pushed ev st (m\<lparr>mgr_drones := (mgr_drones m)(ev_DroneID ev \<mapsto> absorbed ev st)\<rparr>))"
proof (cases "ev_Payload ev")
  case (PHeartbeat p)
  then show ?thesis
    by (cases p)
      (simp_all add: applyPayload_def nil_deref_def absorbed_def change_type_def pushed_def recorded_def Let_def
        act_simps put_state_def)
next
  case (PGPS p)
  show ?thesis
  proof (cases p)
    case None
    then show ?thesis
      by (simp add: PGPS applyPayload_def nil_deref_def absorbed_def change_type_def pushed_def recorded_def
          Let_def act_simps put_state_def assms)
  next
    case (Some g)
    let ?e = "historyEntry (ev_Timestamp ev) g st"
      and ?m = "m\<lparr>mgr_drones := (mgr_drones m)(ev_DroneID ev \<mapsto> st\<lparr>st_GPS := Some g\<rparr>)\<rparr>"
    obtain rb where rb: "Push (mgr_rings m ! a) ?e = Val rb" using Push_refines [OF assms(4)] by blast
    then have "pushHistory a ?e ?m = (Val (), ?m\<lparr>mgr_rings := (mgr_rings m)[a := rb]\<rparr>)"
      using assms(3) pushHistory_eq [of a ?m ?e rb] by simp
    with rb show ?thesis
      by (simp add: PGPS Some applyPayload_def nil_deref_def absorbed_def change_type_def pushed_def recorded_def
          Let_def act_simps put_state_def assms)
  qed
qed (use assms in \<open>simp_all add: applyPayload_def nil_deref_def absorbed_def change_type_def pushed_def
    recorded_def Let_def act_simps put_state_def fun_upd_idem\<close>)

section \<open>The whole handler\<close>

definition after_event :: "TelemetryEvent \<Rightarrow> Manager \<Rightarrow> Manager" where
  "after_event ev m =
    emit_all (event_updates ev m)
      (m\<lparr>mgr_drones := (mgr_drones m)(ev_DroneID ev \<mapsto> absorbed ev (touched ev (found_state ev m))),
         mgr_rings := rings_after ev m\<rparr>)"

lemma found_ring:
  assumes "mgr_ok m"
  obtains a where "st_History (found_state ev m) = Some a" "a < length (mgr_rings (registered ev m))"
    "rb_wf (mgr_rings (registered ev m) ! a)" "mgr_drones (registered ev m) (ev_DroneID ev) = Some (found_state ev m)"
proof (cases "mgr_drones m (ev_DroneID ev)")
  case None
  then show ?thesis
    using that [of "length (mgr_rings m)"] new_ring_ok
    by (simp add: found_state_def registered_def fresh_state_def)
next
  case (Some st)
  then obtain a where "st_History st = Some a" "a < length (mgr_rings m)"
    using assms by (fastforce simp: mgr_ok_def drones_ok_def)
  moreover from this have "rb_wf (mgr_rings m ! a)" using assms by (auto simp: mgr_ok_def rings_ok_def)
  ultimately show ?thesis using that [of a] Some by (simp add: found_state_def registered_def)
qed

lemma registered_open: "updates_open m \<Longrightarrow> updates_open (registered ev m)"
  by (simp add: registered_def emitUpdate_open)

lemma reconnected_open: "updates_open m \<Longrightarrow> updates_open (reconnected ev st m)"
  by (simp add: reconnected_def emitUpdate_open)

lemma change_type_touched [simp]: "change_type ev (touched ev st) = change_type ev st"
  by (cases "ev_Payload ev") (simp_all add: change_type_def absorbed_def touched_def Let_def split: option.split)

lemma pushed_emitted: "pushed ev st (emitted u m) = emitted u (pushed ev st m)"
  by (simp add: pushed_def Let_def split: list.split go.split)

lemma registered_rings:
  "mgr_rings (registered ev m) =
    (if mgr_drones m (ev_DroneID ev) = None then mgr_rings m @ [new_ring (mgr_cfg m)] else mgr_rings m)"
  by (simp add: registered_def)

lemma rings_after_pushed:
  assumes "mgr_rings m' = mgr_rings (registered ev m)"
  shows "pushed ev (touched ev (found_state ev m)) m' = m'\<lparr>mgr_rings := rings_after ev m\<rparr>"
proof -
  have "m'\<lparr>mgr_rings := mgr_rings (registered ev m)\<rparr> = m'" using assms by (cases m') simp
  then show ?thesis
    using assms
    by (simp add: pushed_def rings_after_def registered_rings [symmetric] Let_def touched_def
        split: list.split go.split)
qed

lemma ProcessEvent_eq:
  assumes "mgr_ok m"
  shows "ProcessEvent ev m =
    (if nil_deref ev then Panic NilDereference else Val (), after_event ev m)"
proof -
  let ?i = "ev_DroneID ev" and ?st = "found_state ev m"
  let ?t = "touched ev ?st"
  let ?m1 = "registered ev m"
  let ?m2 = "reconnected ev ?st ?m1"
  let ?m3 = "?m2\<lparr>mgr_drones := (mgr_drones ?m2)(?i \<mapsto> ?t)\<rparr>"
  let ?m4 = "pushed ev ?t (?m3\<lparr>mgr_drones := (mgr_drones ?m3)(?i \<mapsto> absorbed ev ?t)\<rparr>)"
  have op: "updates_open m" "updates_open ?m1" "updates_open ?m2"
    using assms by (simp_all add: mgr_ok_def registered_open reconnected_open)
  obtain a where a: "st_History ?st = Some a" "a < length (mgr_rings ?m1)" "rb_wf (mgr_rings ?m1 ! a)"
    using found_ring [OF assms, of ev] by blast
  have rings: "mgr_rings ?m3 = mgr_rings ?m1" by (simp add: reconnected_def)
  have ap: "applyPayload ev ?t ?m3 =
      (if nil_deref ev then Panic NilDereference else Val (absorbed ev ?t, change_type ev ?st), ?m4)"
  proof -
    have "st_History ?t = Some a" using a(1) by (simp add: touched_def)
    then show ?thesis using applyPayload_eq [of ?m3 ev ?t a] a(2,3) rings by simp
  qed
  have "updates_open ?m4" using op(3) by (simp add: pushed_def Let_def split: list.split go.split)
  then have "emitUpdate u ?m4 = (Val (), emitted u ?m4)" for u by (rule emitUpdate_open)
  then have eq: "ProcessEvent ev m =
      (if nil_deref ev then (Panic NilDereference, ?m4)
       else (Val (), emitted (notify ev (change_type ev ?st) (absorbed ev ?t)) ?m4))"
    using op ap
    by (simp add: ProcessEvent_def act_simps registerDrone_eq reconnectDrone_eq touched_def [symmetric]
        put_state_def notify_def Let_def)
  have m4: "?m4 = ?m2\<lparr>mgr_drones := (mgr_drones m)(?i \<mapsto> absorbed ev ?t), mgr_rings := rings_after ev m\<rparr>"
    using rings by (subst rings_after_pushed) (simp_all add: registered_def reconnected_def)
  then have "after_event ev m =
      (if nil_deref ev then ?m4 else emitted (notify ev (change_type ev ?st) (absorbed ev ?t)) ?m4)"
    by (simp add: after_event_def event_updates_def registered_def reconnected_def notify_def Let_def)
  with eq show ?thesis by simp
qed

section \<open>The invariant is kept\<close>

lemma absorbed_keeps [simp]: "st_ID (absorbed ev st) = st_ID st" "st_History (absorbed ev st) = st_History st"
  "st_MessageCount (absorbed ev st) = st_MessageCount st" "st_IsConnected (absorbed ev st) = st_IsConnected st"
  "st_LastSeen (absorbed ev st) = st_LastSeen st" "st_FirstSeen (absorbed ev st) = st_FirstSeen st"
  "st_SourceAddr (absorbed ev st) = st_SourceAddr st"
  by (auto simp: absorbed_def Let_def split: Payload.split option.split)

lemma touched_keeps [simp]: "st_ID (touched ev st) = st_ID st" "st_History (touched ev st) = st_History st"
  "st_FirstSeen (touched ev st) = st_FirstSeen st" "st_IsArmed (touched ev st) = st_IsArmed st"
  "st_Battery (touched ev st) = st_Battery st" "st_FlightMode (touched ev st) = st_FlightMode st"
  by (simp_all add: touched_def)

lemma touched_sets [simp]: "st_IsConnected (touched ev st)" "st_LastSeen (touched ev st) = ev_Timestamp ev"
  "st_SourceAddr (touched ev st) = ev_SourceAddr ev" "st_MessageCount (touched ev st) = st_MessageCount st + 1"
  by (simp_all add: touched_def)

text \<open>The one ring an event can change is its drone's, and it changes by at most one push.\<close>

lemma rings_after_update:
  assumes "mgr_ok m"
  obtains a rb where "st_History (found_state ev m) = Some a" "a < length (mgr_rings (registered ev m))"
    "rings_after ev m = (mgr_rings (registered ev m))[a := rb]" "rb_wf rb"
    "rb_size rb = nat (hist_size (mgr_cfg m))"
    "rb_abs rb = last_n (nat (hist_size (mgr_cfg m)))
       (rb_abs (mgr_rings (registered ev m) ! a) @ recorded ev (touched ev (found_state ev m)))"
proof -
  let ?rs = "mgr_rings (registered ev m)" and ?st = "found_state ev m"
  let ?N = "nat (hist_size (mgr_cfg m))"
  obtain a where a: "st_History ?st = Some a" "a < length ?rs" using found_ring [OF assms, of ev] by blast
  have "rings_ok (mgr_cfg m) ?rs"
    using assms by (simp add: registered_rings mgr_ok_def rings_ok_new)
  then have wf: "rb_wf (?rs ! a)" "rb_size (?rs ! a) = ?N" using a(2) by (auto simp: rings_ok_def)
  show ?thesis
  proof (cases "recorded ev (touched ev ?st)")
    case Nil
    then have "rings_after ev m = ?rs[a := ?rs ! a]" by (simp add: rings_after_def registered_rings Let_def)
    then show ?thesis
      using that [OF a, of "?rs ! a"] wf Nil ring.entries_le [OF wf(1)] by (simp add: last_n_all)
  next
    case (Cons e es)
    then have es: "es = []" by (auto simp: recorded_def split: Payload.splits option.splits)
    obtain rb where rb: "Push (?rs ! a) e = Val rb" "rb_wf rb" "rb_size rb = ?N"
      "rb_abs rb = last_n ?N (rb_abs (?rs ! a) @ [e])"
      using ring.push_entries [OF wf(1), of e] wf(2) by auto
    then have "rings_after ev m = ?rs[a := rb]"
      using a(1) Cons by (simp add: rings_after_def registered_rings [symmetric] Let_def)
    then show ?thesis using that [OF a, of rb] rb Cons es by simp
  qed
qed

lemma length_rings_after:
  assumes "mgr_ok m"
  shows "length (rings_after ev m) = length (mgr_rings (registered ev m))"
  by (rule rings_after_update [OF assms, of ev]) simp

lemma after_event_ok:
  assumes "mgr_ok m"
  shows "mgr_ok (after_event ev m)"
proof -
  let ?i = "ev_DroneID ev"
  let ?su = "absorbed ev (touched ev (found_state ev m))"
  obtain a rb where rs: "rings_after ev m = (mgr_rings (registered ev m))[a := rb]" "rb_wf rb"
    "rb_size rb = nat (hist_size (mgr_cfg m))"
    using rings_after_update [OF assms, of ev] by blast
  have ok: "drones_ok (mgr_drones m) (length (mgr_rings m))" "rings_ok (mgr_cfg m) (mgr_rings m)"
    using assms by (simp_all add: mgr_ok_def)
  have d: "drones_ok ((mgr_drones m)(?i \<mapsto> ?su)) (length (rings_after ev m))"
  proof (cases "mgr_drones m ?i")
    case None
    then have "drones_ok ((mgr_drones m)(?i \<mapsto> ?su)) (Suc (length (mgr_rings m)))"
      by (intro drones_ok_new [OF ok(1)]) (simp_all add: found_state_def fresh_state_def)
    then show ?thesis by (simp add: length_rings_after [OF assms] registered_rings None)
  next
    case (Some st)
    then have "drones_ok ((mgr_drones m)(?i \<mapsto> ?su)) (length (mgr_rings m))"
      using ok(1) by (intro drones_ok_put [OF ok(1) Some]) (simp_all add: found_state_def drones_ok_def)
    then show ?thesis by (simp add: length_rings_after [OF assms] registered_rings Some)
  qed
  moreover have "rings_ok (mgr_cfg m) (rings_after ev m)"
    using ok(2) rs by (simp add: rings_ok_update registered_rings rings_ok_new)
  ultimately have "mgr_ok (m\<lparr>mgr_drones := (mgr_drones m)(?i \<mapsto> ?su), mgr_rings := rings_after ev m\<rparr>)"
    using assms by (simp add: mgr_ok_def)
  then show ?thesis unfolding after_event_def by (rule mgr_ok_emit_all)
qed

section \<open>Staleness\<close>

definition marked :: "instant \<Rightarrow> duration \<Rightarrow> State \<Rightarrow> State" where
  "marked now threshold st = (if isStale now threshold st then st\<lparr>st_IsConnected := False\<rparr> else st)"

definition stale_updates :: "instant \<Rightarrow> duration \<Rightarrow> DroneID list \<Rightarrow> (DroneID \<Rightarrow> State option) \<Rightarrow> StateUpdate list" where
  "stale_updates now threshold ks d =
    concat (map (\<lambda>k. case d k of
        None \<Rightarrow> []
      | Some st \<Rightarrow> if isStale now threshold st
          then [\<lparr>up_DroneID = k, up_Timestamp = now, up_Type = UpdateTypeDisconnect,
                 up_State = st\<lparr>st_IsConnected := False\<rparr>\<rparr>] else []) ks)"

definition mark_drones :: "instant \<Rightarrow> duration \<Rightarrow> DroneID set \<Rightarrow> (DroneID \<Rightarrow> State option) \<Rightarrow> DroneID \<Rightarrow> State option" where
  "mark_drones now threshold K d i = (if i \<in> K then map_option (marked now threshold) (d i) else d i)"

lemma mark_drones_insert:
  "k \<notin> K \<Longrightarrow> d k = Some st \<Longrightarrow>
     mark_drones now th (insert k K) d = mark_drones now th K (d(k \<mapsto> marked now th st))"
  by (auto simp: mark_drones_def)

lemma stale_updates_upd:
  "k \<notin> set ks \<Longrightarrow> stale_updates now th ks (d(k \<mapsto> s)) = stale_updates now th ks d"
  by (auto simp: stale_updates_def intro!: arg_cong [where f = concat])

lemma staleLoop_eq:
  assumes "distinct ks" "updates_open m"
  shows "staleLoop now th ks m =
    (Val (), emit_all (stale_updates now th ks (mgr_drones m))
       (m\<lparr>mgr_drones := mark_drones now th (set ks) (mgr_drones m)\<rparr>))"
  using assms
proof (induction ks arbitrary: m)
  case Nil
  have "mark_drones now th {} (mgr_drones m) = mgr_drones m" by (auto simp: mark_drones_def)
  then show ?case by (simp add: stale_updates_def)
next
  case (Cons k ks)
  show ?case
  proof (cases "mgr_drones m k")
    case None
    then have "mark_drones now th (insert k (set ks)) (mgr_drones m) = mark_drones now th (set ks) (mgr_drones m)"
      by (auto simp: mark_drones_def)
    then show ?thesis using Cons None by (simp add: stale_updates_def)
  next
    case (Some st)
    have mark: "mark_drones now th (insert k (set ks)) (mgr_drones m) =
        mark_drones now th (set ks) ((mgr_drones m)(k \<mapsto> marked now th st))"
      using Cons.prems(1) Some by (simp add: mark_drones_insert)
    show ?thesis
    proof (cases "isStale now th st")
      case True
      let ?s = "st\<lparr>st_IsConnected := False\<rparr>"
      let ?u = "\<lparr>up_DroneID = k, up_Timestamp = now, up_Type = UpdateTypeDisconnect, up_State = ?s\<rparr>"
      let ?m = "m\<lparr>mgr_drones := (mgr_drones m)(k \<mapsto> ?s)\<rparr>"
      have u: "emitUpdate ?u ?m = (Val (), emitted ?u ?m)" "updates_open (emitted ?u ?m)"
        using Cons.prems(2) by (intro emitUpdate_open, simp)+
      have "staleLoop now th (k # ks) m = staleLoop now th ks (emitted ?u ?m)"
        using Some True u(1) by (simp add: Let_def act_simps put_state_def)
      also have "\<dots> = (Val (), emit_all (stale_updates now th ks ((mgr_drones m)(k \<mapsto> ?s)))
          ((emitted ?u ?m)\<lparr>mgr_drones := mark_drones now th (set ks) ((mgr_drones m)(k \<mapsto> ?s))\<rparr>))"
        using Cons.prems(1) by (subst Cons.IH [OF _ u(2)]) simp_all
      also have "stale_updates now th ks ((mgr_drones m)(k \<mapsto> ?s)) = stale_updates now th ks (mgr_drones m)"
        using Cons.prems(1) by (intro stale_updates_upd) simp
      finally show ?thesis
        using Some True mark by (simp add: stale_updates_def marked_def fun_upd_def)
    next
      case False
      then have "(mgr_drones m)(k \<mapsto> marked now th st) = mgr_drones m"
        using Some by (auto simp: marked_def)
      then show ?thesis
        using Cons Some False mark by (simp add: stale_updates_def)
    qed
  qed
qed

definition after_stale :: "DroneID list \<Rightarrow> instant \<Rightarrow> Manager \<Rightarrow> Manager" where
  "after_stale ks now m =
    (let th = dc_StaleThreshold (mgr_cfg m) in
     emit_all (stale_updates now th ks (mgr_drones m))
       (m\<lparr>mgr_drones := mark_drones now th (set ks) (mgr_drones m)\<rparr>))"

lemma checkStale_eq:
  "distinct ks \<Longrightarrow> updates_open m \<Longrightarrow> checkStale ks now m = (Val (), after_stale ks now m)"
  by (simp add: checkStale_def after_stale_def staleLoop_eq Let_def)

lemma marked_keeps [simp]: "st_ID (marked now th st) = st_ID st" "st_History (marked now th st) = st_History st"
  by (simp_all add: marked_def)

lemma drones_ok_mark: "drones_ok d n \<Longrightarrow> drones_ok (mark_drones now th K d) n"
proof -
  assume ok: "drones_ok d n"
  have dom: "dom (mark_drones now th K d) = dom d" by (auto simp: mark_drones_def dom_def)
  have ex: "mark_drones now th K d i = Some st \<Longrightarrow>
      \<exists>su. d i = Some su \<and> st_ID su = st_ID st \<and> st_History su = st_History st" for i st
    by (auto simp: mark_drones_def split: if_splits)
  have id: "st_ID st = i \<and> (\<exists>a. st_History st = Some a \<and> a < n)" if m: "mark_drones now th K d i = Some st" for i st
  proof -
    obtain su where "d i = Some su" "st_ID su = st_ID st" "st_History su = st_History st"
      using ex [OF m] by blast
    then show ?thesis using ok unfolding drones_ok_def by metis
  qed
  have inj: "i = j" if m: "mark_drones now th K d i = Some st" "mark_drones now th K d j = Some su"
    and h: "st_History st = st_History su" for i j st su
  proof -
    obtain st' su' where "d i = Some st'" "st_History st' = st_History st"
      "d j = Some su'" "st_History su' = st_History su"
      using ex [OF m(1)] ex [OF m(2)] by blast
    then show ?thesis using ok h unfolding drones_ok_def by metis
  qed
  have "finite (dom (mark_drones now th K d))" using ok by (simp add: dom drones_ok_def)
  with id inj show ?thesis unfolding drones_ok_def by blast
qed

lemma after_stale_ok: "mgr_ok m \<Longrightarrow> mgr_ok (after_stale ks now m)"
  unfolding after_stale_def Let_def
  by (rule mgr_ok_emit_all) (simp add: mgr_ok_def drones_ok_mark)

section \<open>One automaton per drone\<close>

text \<open>
  What the registry says of a drone, without the heap: its state and the entries of its history.
\<close>

type_synonym drone_view = "State \<times> HistoryEntry list"

definition view :: "Manager \<Rightarrow> DroneID \<Rightarrow> drone_view option" where
  "view m i =
    map_option (\<lambda>st. (st\<lparr>st_History := None\<rparr>, rb_abs (mgr_rings m ! the (st_History st)))) (mgr_drones m i)"

definition spec_event :: "nat \<Rightarrow> TelemetryEvent \<Rightarrow> drone_view option \<Rightarrow> drone_view" where
  "spec_event N ev v =
    (let (st, h) = (case v of None \<Rightarrow> ((fresh_state ev 0)\<lparr>st_History := None\<rparr>, []) | Some w \<Rightarrow> w);
         st' = touched ev st
     in (absorbed ev st', last_n N (h @ recorded ev st')))"

definition spec_stale :: "instant \<Rightarrow> duration \<Rightarrow> drone_view \<Rightarrow> drone_view" where
  "spec_stale now th v = (marked now th (fst v), snd v)"

lemma erase_history [simp]:
  "(touched ev st)\<lparr>st_History := h\<rparr> = touched ev (st\<lparr>st_History := h\<rparr>)"
  "(absorbed ev st)\<lparr>st_History := h\<rparr> = absorbed ev (st\<lparr>st_History := h\<rparr>)"
  "recorded ev (st\<lparr>st_History := h\<rparr>) = recorded ev st"
  "(marked now th st)\<lparr>st_History := h\<rparr> = marked now th (st\<lparr>st_History := h\<rparr>)"
  by (auto simp: touched_def absorbed_def recorded_def historyEntry_def marked_def isStale_def Let_def
      split: Payload.split option.split)

lemma recorded_erase [simp]:
  "recorded ev (touched ev (st\<lparr>st_History := h\<rparr>)) = recorded ev (touched ev st)"
  by (metis erase_history(1,3))

lemma view_emit_all [simp]: "view (emit_all us m) = view m"
  by (simp add: view_def fun_eq_iff)

text \<open>An event is a step of its drone's automaton and of no other's.\<close>

lemma view_after_event:
  assumes "mgr_ok m"
  shows "view (after_event ev m) =
    (view m)(ev_DroneID ev \<mapsto> spec_event (nat (hist_size (mgr_cfg m))) ev (view m (ev_DroneID ev)))"
proof
  fix j
  let ?i = "ev_DroneID ev" and ?st = "found_state ev m" and ?N = "nat (hist_size (mgr_cfg m))"
  let ?rs = "mgr_rings (registered ev m)"
  obtain a rb where a: "st_History ?st = Some a" "a < length ?rs" and rs: "rings_after ev m = ?rs[a := rb]"
    and rb: "rb_abs rb = last_n ?N (rb_abs (?rs ! a) @ recorded ev (touched ev ?st))"
    using rings_after_update [OF assms, of ev] by metis
  have ok: "drones_ok (mgr_drones m) (length (mgr_rings m))" using assms by (simp add: mgr_ok_def)
  have v: "view (after_event ev m) k =
      map_option (\<lambda>st. (st\<lparr>st_History := None\<rparr>, rb_abs (?rs[a := rb] ! the (st_History st))))
        (((mgr_drones m)(?i \<mapsto> absorbed ev (touched ev ?st))) k)" for k
    by (simp add: after_event_def view_def rs)
  show "view (after_event ev m) j = ((view m)(?i \<mapsto> spec_event ?N ev (view m ?i))) j"
  proof (cases "j = ?i")
    case True
    have w: "(?st\<lparr>st_History := None\<rparr>, rb_abs (?rs ! a)) =
        (case view m ?i of None \<Rightarrow> ((fresh_state ev 0)\<lparr>st_History := None\<rparr>, []) | Some w \<Rightarrow> w)"
      using a(1) new_ring_ok(3)
      by (auto simp: view_def found_state_def registered_rings fresh_state_def split: option.splits)
    have "spec_event ?N ev (view m ?i) =
        (absorbed ev (touched ev (?st\<lparr>st_History := None\<rparr>)), last_n ?N (rb_abs (?rs ! a) @ recorded ev (touched ev ?st)))"
      by (simp add: spec_event_def Let_def flip: w)
    then show ?thesis using True a rb by (simp add: v)
  next
    case False
    show ?thesis
    proof (cases "mgr_drones m j")
      case None
      then show ?thesis using False by (simp add: v) (simp add: view_def)
    next
      case (Some su)
      then obtain b where b: "st_History su = Some b" "b < length (mgr_rings m)"
        using ok unfolding drones_ok_def by blast
      have "b \<noteq> a"
      proof (cases "mgr_drones m ?i")
        case None
        then have "a = length (mgr_rings m)" using a(1) by (simp add: found_state_def fresh_state_def)
        then show ?thesis using b(2) by simp
      next
        case (Some st)
        then show ?thesis
          using ok False b(1) a(1) \<open>mgr_drones m j = Some su\<close> unfolding found_state_def drones_ok_def
          by fastforce
      qed
      moreover have "?rs ! b = mgr_rings m ! b" using b(2) by (simp add: registered_rings nth_append)
      ultimately show ?thesis using False Some b by (simp add: v) (simp add: view_def)
    qed
  qed
qed

lemma view_after_stale:
  "view (after_stale ks now m) =
    (\<lambda>i. if i \<in> set ks then map_option (spec_stale now (dc_StaleThreshold (mgr_cfg m))) (view m i) else view m i)"
  by (rule ext) (simp add: after_stale_def Let_def view_def mark_drones_def spec_stale_def option.map_comp comp_def)

section \<open>Runs of the registry\<close>

text \<open>
  The steps of a running registry: the event processor handles an event (recovering from the panic
  of a nil payload), the stale checker makes its round over the map in some order, a consumer takes
  a notification.  Each holds the lock for its whole duration.
\<close>

datatype mgr_op = OpEvent TelemetryEvent | OpStale "DroneID list" instant | OpTake StateUpdate

inductive mgr_step :: "Manager \<Rightarrow> mgr_op \<Rightarrow> Manager \<Rightarrow> bool" where
  step_event: "mgr_step m (OpEvent ev) (snd (recovered (ProcessEvent ev) m))"
| step_stale: "distinct ks \<Longrightarrow> set ks = dom (mgr_drones m) \<Longrightarrow>
    mgr_step m (OpStale ks now) (snd (recovered (checkStale ks now) m))"
| step_take: "mgr_updates m = Some c \<Longrightarrow> recv c = Some (Some u, c') \<Longrightarrow>
    mgr_step m (OpTake u) (m\<lparr>mgr_updates := Some c'\<rparr>)"

inductive_cases mgr_step_eventE: "mgr_step m (OpEvent ev) m'"
inductive_cases mgr_step_staleE: "mgr_step m (OpStale ks now) m'"
inductive_cases mgr_step_takeE: "mgr_step m (OpTake u) m'"

abbreviation mgr_run :: "Manager \<Rightarrow> mgr_op list \<Rightarrow> Manager \<Rightarrow> bool" where
  "mgr_run \<equiv> run_of mgr_step"

lemmas mgr_snoc = run_snoc [where step = mgr_step]

lemma recovered_event: "mgr_ok m \<Longrightarrow> snd (recovered (ProcessEvent ev) m) = after_event ev m"
  by (simp add: recovered_def ProcessEvent_eq)

lemma recovered_stale:
  "mgr_ok m \<Longrightarrow> distinct ks \<Longrightarrow> snd (recovered (checkStale ks now) m) = after_stale ks now m"
  by (simp add: recovered_def checkStale_eq mgr_ok_def)

lemma mgr_step_ok:
  assumes "mgr_step m op m'" "mgr_ok m"
  shows "mgr_ok m' \<and> mgr_cfg m' = mgr_cfg m"
  using assms
proof (induction rule: mgr_step.induct)
  case (step_event m ev)
  then show ?case by (simp add: recovered_event after_event_ok) (simp add: after_event_def)
next
  case (step_stale ks m now)
  then show ?case by (simp add: recovered_stale after_stale_ok) (simp add: after_stale_def Let_def)
next
  case (step_take m c u c')
  then have "open_chan c'"
    by (auto simp: mgr_ok_def updates_open_def recv_def open_chan_def chan_ok_def split: list.splits if_splits)
  with step_take show ?case by (simp add: mgr_ok_def updates_open_def)
qed

interpretation mgr: invariant mgr_step "\<lambda>m. mgr_ok m \<and> mgr_cfg m = cfg" for cfg
  by unfold_locales (use mgr_step_ok in blast)

lemma mgr_run_ok: "mgr_run m ops m' \<Longrightarrow> mgr_ok m \<Longrightarrow> mgr_ok m' \<and> mgr_cfg m' = mgr_cfg m"
  using mgr.tinv_run by blast

fun spec_op :: "DroneConfig \<Rightarrow> DroneID \<Rightarrow> mgr_op \<Rightarrow> drone_view option \<Rightarrow> drone_view option" where
  "spec_op cfg i (OpEvent ev) v =
     (if ev_DroneID ev = i then Some (spec_event (nat (hist_size cfg)) ev v) else v)"
| "spec_op cfg i (OpStale ks now) v = map_option (spec_stale now (dc_StaleThreshold cfg)) v"
| "spec_op cfg i (OpTake u) v = v"

definition spec_run :: "DroneConfig \<Rightarrow> DroneID \<Rightarrow> mgr_op list \<Rightarrow> drone_view option \<Rightarrow> drone_view option" where
  "spec_run cfg i ops v = fold (spec_op cfg i) ops v"

lemma view_dom: "view m i = None \<longleftrightarrow> i \<notin> dom (mgr_drones m)"
  by (auto simp: view_def)

lemma mgr_step_view:
  assumes "mgr_step m op m'" "mgr_ok m"
  shows "view m' i = spec_op (mgr_cfg m) i op (view m i)"
  using assms
proof (induction rule: mgr_step.induct)
  case (step_event m ev)
  then show ?case by (simp add: recovered_event view_after_event)
next
  case (step_stale ks m now)
  then show ?case using view_dom [of m i] by (auto simp: recovered_stale view_after_stale)
next
  case (step_take m c u c')
  then show ?case by (simp add: view_def)
qed

text \<open>The view of a drone follows the automaton, whatever operations came before.\<close>

interpretation mgr_view: tracked mgr_step
  "\<lambda>ops m. mgr_ok m \<and> mgr_cfg m = cfg \<and> view m i = spec_run cfg i ops v" for cfg i v
  by unfold_locales (use mgr_step_ok mgr_step_view in \<open>simp add: spec_run_def\<close>)

lemma mgr_run_view:
  "mgr_run m ops m' \<Longrightarrow> mgr_ok m \<Longrightarrow> view m' i = spec_run (mgr_cfg m) i ops (view m i)"
  using mgr_view.tinv_run [of m ops m' "mgr_cfg m" i "view m i"] by (simp add: spec_run_def)

end
