(* ===== verification/Drone_Theorems.thy ===== *)
theory Drone_Theorems
  imports Drone_Correct
begin

text \<open>
  The properties of the drone registry, over arbitrary runs of events, stale checks and consumers:
  what it reports of a drone is a function of the events of that drone.
\<close>

section \<open>The events of a drone\<close>

fun events_of :: "DroneID \<Rightarrow> mgr_op list \<Rightarrow> TelemetryEvent list" where
  "events_of i [] = []"
| "events_of i (OpEvent ev # ops) = (if ev_DroneID ev = i then ev # events_of i ops else events_of i ops)"
| "events_of i (OpStale ks now # ops) = events_of i ops"
| "events_of i (OpTake u # ops) = events_of i ops"

lemma events_of_append [simp]: "events_of i (ops @ ops') = events_of i ops @ events_of i ops'"
  by (induction i ops rule: events_of.induct) simp_all

text \<open>The value the last event that has one gives.\<close>

definition latest :: "(TelemetryEvent \<Rightarrow> 'a option) \<Rightarrow> 'a \<Rightarrow> TelemetryEvent list \<Rightarrow> 'a" where
  "latest f d es = foldl (\<lambda>a ev. case f ev of None \<Rightarrow> a | Some x \<Rightarrow> x) d es"

lemma latest_simps [simp]:
  "latest f d [] = d"
  "latest f d (es @ [ev]) = (case f ev of None \<Rightarrow> latest f d es | Some x \<Rightarrow> x)"
  by (simp_all add: latest_def split: option.split)

definition gps_of :: "TelemetryEvent \<Rightarrow> GPSPosition option option" where
  "gps_of ev = (case ev_Payload ev of PGPS p \<Rightarrow> Some p | _ \<Rightarrow> None)"

definition battery_of :: "TelemetryEvent \<Rightarrow> BatteryStatus option option" where
  "battery_of ev = (case ev_Payload ev of PBattery p \<Rightarrow> Some p | _ \<Rightarrow> None)"

definition attitude_of :: "TelemetryEvent \<Rightarrow> Attitude option option" where
  "attitude_of ev = (case ev_Payload ev of PAttitude p \<Rightarrow> Some p | _ \<Rightarrow> None)"

definition armed_of :: "TelemetryEvent \<Rightarrow> bool option" where
  "armed_of ev = (case ev_Payload ev of PHeartbeat (Some hb) \<Rightarrow> Some (hb_Armed hb) | _ \<Rightarrow> None)"

definition mode_of :: "TelemetryEvent \<Rightarrow> string option" where
  "mode_of ev = (case ev_Payload ev of
     PHeartbeat (Some hb) \<Rightarrow> Some (decodeFlightMode (hb_CustomMode hb) (hb_BaseMode hb)) | _ \<Rightarrow> None)"

definition heartbeat_of :: "TelemetryEvent \<Rightarrow> Heartbeat option option" where
  "heartbeat_of ev = (case ev_Payload ev of PHeartbeat p \<Rightarrow> Some p | _ \<Rightarrow> None)"

lemmas of_defs = gps_of_def battery_of_def attitude_of_def armed_of_def mode_of_def heartbeat_of_def

text \<open>The position an event records, given the events of the drone before it.\<close>

definition entry_of :: "TelemetryEvent list \<Rightarrow> TelemetryEvent \<Rightarrow> HistoryEntry list" where
  "entry_of past ev =
    (case ev_Payload ev of
       PGPS (Some g) \<Rightarrow>
         [\<lparr>he_Timestamp = ev_Timestamp ev, he_Lat = gps_Latitude g, he_Lon = gps_Longitude g,
           he_Alt = gps_Altitude g, he_Heading = gps_Heading g,
           he_Battery = (case latest battery_of None past of None \<Rightarrow> - 1 | Some b \<Rightarrow> bat_Remaining b),
           he_Armed = latest armed_of False past, he_Mode = latest mode_of [] past\<rparr>]
     | _ \<Rightarrow> [])"

definition positions :: "TelemetryEvent list \<Rightarrow> HistoryEntry list" where
  "positions es = concat (map (\<lambda>k. entry_of (take k es) (es ! k)) [0..<length es])"

lemma positions_simps [simp]:
  "positions [] = []" "positions (es @ [ev]) = positions es @ entry_of es ev"
  by (auto simp: positions_def nth_append intro!: arg_cong [where f = concat])

section \<open>What the automaton of a drone holds\<close>

text \<open>A state that reports the events \<open>es\<close>, not empty, of one drone.\<close>

definition reports :: "DroneID \<Rightarrow> TelemetryEvent list \<Rightarrow> State \<Rightarrow> bool" where
  "reports i es st \<longleftrightarrow>
     st_ID st = i \<and> st_FirstSeen st = ev_Timestamp (hd es) \<and> st_LastSeen st = ev_Timestamp (last es) \<and>
     st_SourceAddr st = ev_SourceAddr (last es) \<and> st_MessageCount st = of_nat (length es) \<and>
     st_Heartbeat st = latest heartbeat_of None es \<and> st_GPS st = latest gps_of None es \<and>
     st_Battery st = latest battery_of None es \<and> st_Attitude st = latest attitude_of None es \<and>
     st_IsArmed st = latest armed_of False es \<and> st_FlightMode st = latest mode_of [] es"

lemma reports_fresh:
  assumes "ev_DroneID ev = i"
  shows "reports i [ev] (absorbed ev (touched ev (fresh_state ev a)))"
  using assms
  by (cases "ev_Payload ev")
    (auto simp: reports_def latest_def of_defs absorbed_def touched_def fresh_state_def Let_def split: option.split)

lemma reports_step:
  assumes "reports i es st" "es \<noteq> []" "ev_DroneID ev = i"
  shows "reports i (es @ [ev]) (absorbed ev (touched ev st))"
  using assms
  by (cases "ev_Payload ev")
    (auto simp: reports_def of_defs absorbed_def touched_def Let_def split: option.split)

lemma reports_cong [simp]:
  "reports i es (st\<lparr>st_History := h\<rparr>) = reports i es st"
  "reports i es (marked now th st) = reports i es st"
  by (simp_all add: reports_def marked_def)

lemma recorded_entry:
  "reports i es st \<Longrightarrow> recorded ev (touched ev st) = entry_of es ev"
  by (auto simp: recorded_def entry_of_def reports_def historyEntry_def split: Payload.split option.split)

lemma recorded_fresh: "recorded ev (touched ev (fresh_state ev a)) = entry_of [] ev"
  by (auto simp: recorded_def entry_of_def fresh_state_def historyEntry_def split: Payload.split option.split)

lemma last_n_snoc_last_n: "last_n n (last_n n xs @ ys) = last_n n (xs @ ys)"
  by (rule last_n_shrink) simp

lemma spec_run_reports:
  "case spec_run cfg i ops None of
     None \<Rightarrow> events_of i ops = []
   | Some (st, h) \<Rightarrow> events_of i ops \<noteq> [] \<and> reports i (events_of i ops) st \<and>
       h = last_n (nat (hist_size cfg)) (positions (events_of i ops))"
proof (induction ops rule: rev_induct)
  case Nil
  then show ?case by (simp add: spec_run_def)
next
  case (snoc op ops)
  let ?v = "spec_run cfg i ops None" and ?N = "nat (hist_size cfg)"
  have run: "spec_run cfg i (ops @ [x]) None = spec_op cfg i x ?v" for x by (simp add: spec_run_def)
  show ?case
  proof (cases op)
    case (OpEvent ev)
    show ?thesis
    proof (cases "ev_DroneID ev = i")
      case False
      then show ?thesis using snoc by (auto simp: run OpEvent split: option.splits)
    next
      case True
      show ?thesis
      proof (cases ?v)
        case None
        then have es: "events_of i ops = []" using snoc by simp
        have "reports i [ev] (absorbed ev (touched ev ((fresh_state ev 0)\<lparr>st_History := None\<rparr>)))"
          using reports_fresh [OF True] by (simp flip: erase_history)
        moreover have "positions [ev] = entry_of [] ev" using positions_simps(2) [of "[]" ev] by simp
        ultimately show ?thesis
          using True es by (simp add: run OpEvent None spec_event_def Let_def recorded_fresh)
      next
        case (Some w)
        obtain st h where w: "w = (st, h)" by (cases w)
        then show ?thesis
          using snoc True reports_step [of i "events_of i ops" st ev]
            recorded_entry [of i "events_of i ops" st ev]
          by (simp add: run OpEvent Some spec_event_def Let_def last_n_snoc_last_n)
      qed
    qed
  next
    case (OpStale ks now)
    then show ?thesis using snoc by (auto simp: run spec_stale_def split: option.splits)
  next
    case (OpTake u)
    then show ?thesis using snoc by (auto simp: run split: option.splits)
  qed
qed

section \<open>Handling an event\<close>


definition sample_id :: DroneID where
  "sample_id = \<lparr>SystemID = 1, ComponentID = 1\<rparr>"

definition sample_event :: "instant \<Rightarrow> Payload \<Rightarrow> TelemetryEvent" where
  "sample_event now p = \<lparr>ev_DroneID = sample_id, ev_MessageID = 0, ev_Timestamp = now,
     ev_SourceAddr = ''10.0.0.1:14550'', ev_Payload = p\<rparr>"

definition sample_manager :: Manager where
  "sample_manager = NewManager (cfg_Drone Default)
     (Some \<lparr>ch_buf = [], ch_cap = 2, ch_closed = False\<rparr>)"

lemma sample_manager_ok: "mgr_ok sample_manager" "mgr_drones sample_manager = Map.empty"
  "mgr_cfg sample_manager = cfg_Drone Default"
proof -
  show "mgr_ok sample_manager" unfolding sample_manager_def
    by (rule NewManager_ok) (simp add: updates_open_def NewManager_def open_chan_def chan_ok_def)
qed (simp_all add: sample_manager_def NewManager_def)


section \<open>What the registry reports\<close>

lemma view_GetState: "view m i = None \<longleftrightarrow> GetState i m = None"
  by (simp add: view_def GetState_def split: option.split)

lemma run_view:
  assumes "mgr_run (NewManager cfg u) ops m" "updates_open (NewManager cfg u)"
  shows "mgr_ok m \<and> mgr_cfg m = cfg \<and> (\<forall>i. view m i = spec_run cfg i ops None)"
proof -
  have "mgr_ok (NewManager cfg u)" using assms(2) by (rule NewManager_ok)
  moreover have "mgr_cfg (NewManager cfg u) = cfg" "view (NewManager cfg u) i = None" for i
    by (simp_all add: NewManager_def view_def)
  ultimately show ?thesis using mgr_run_ok [OF assms(1)] mgr_run_view [OF assms(1)] by simp
qed

lemma run_reports:
  assumes "mgr_run (NewManager cfg u) ops m" "updates_open (NewManager cfg u)"
  shows "case mgr_drones m i of
     None \<Rightarrow> events_of i ops = []
   | Some st \<Rightarrow> events_of i ops \<noteq> [] \<and> reports i (events_of i ops) st \<and>
       rb_abs (mgr_rings m ! the (st_History st)) =
         last_n (nat (hist_size cfg)) (positions (events_of i ops))"
proof -
  have v: "view m i = spec_run cfg i ops None" using run_view [OF assms] by blast
  with spec_run_reports [where cfg = cfg and i = i and ops = ops] show ?thesis
    by (cases "mgr_drones m i") (auto simp: view_def simp flip: v)
qed

text \<open>
  C2: after any run from an empty registry, a drone is known exactly when an event named it, and
  its state reports its events: the first and last time stamps, the last address, the message count
  (modulo \<open>2 ^ 64\<close>), the latest payload of each kind (a truncated message counts, as a nil), and
  the armed flag and flight mode of the last decoded heartbeat.
\<close>

theorem registry_reports_events:
  assumes "mgr_run (NewManager cfg u) ops m" "updates_open (NewManager cfg u)"
  shows "case GetState i m of
     None \<Rightarrow> events_of i ops = []
   | Some st \<Rightarrow> events_of i ops \<noteq> [] \<and> reports i (events_of i ops) st"
  using run_reports [OF assms, of i] by (auto simp: GetState_def split: option.splits)

definition sample_ops :: "mgr_op list" where
  "sample_ops = [OpEvent (sample_event 5 (PBattery None)), OpEvent (sample_event 8 (PRaw [1]))]"

definition sample_run :: Manager where
  "sample_run = snd (recovered (ProcessEvent (sample_event 8 (PRaw [1])))
     (snd (recovered (ProcessEvent (sample_event 5 (PBattery None))) sample_manager)))"

lemma sample_run_run: "mgr_run sample_manager sample_ops sample_run"
proof -
  have "mgr_run sample_manager ([] @ [OpEvent (sample_event 5 (PBattery None))])
      (snd (recovered (ProcessEvent (sample_event 5 (PBattery None))) sample_manager))"
    by (rule mgr_snoc [OF run_nil step_event])
  then have "mgr_run sample_manager
      ([OpEvent (sample_event 5 (PBattery None))] @ [OpEvent (sample_event 8 (PRaw [1]))]) sample_run"
    unfolding sample_run_def by (intro mgr_snoc [OF _ step_event]) simp
  then show ?thesis by (simp add: sample_ops_def)
qed

lemma sample_updates_open: "updates_open (NewManager (cfg_Drone Default)
    (Some \<lparr>ch_buf = [], ch_cap = 2, ch_closed = False\<rparr>))"
  by (simp add: updates_open_def NewManager_def open_chan_def chan_ok_def)

theorem registry_reports_events_witness:
  "case GetState sample_id sample_run of None \<Rightarrow> False
   | Some st \<Rightarrow> st_MessageCount st = 2 \<and> st_LastSeen st = 8 \<and> st_FirstSeen st = 5"
  using registry_reports_events [OF sample_run_run [unfolded sample_manager_def] sample_updates_open, of sample_id]
  by (simp add: sample_ops_def sample_event_def reports_def split: option.splits)

lemma GetHistory_find:
  assumes "distinct ks" "i \<in> set ks" "mgr_drones m i = Some st" "st_History st = Some a"
    "\<forall>k\<in>set ks. mgr_drones m k \<noteq> None \<and> SystemID k = SystemID i \<longrightarrow> k = i"
  shows "GetHistory ks (SystemID i) n m = go_bind (index_at (mgr_rings m) a) (\<lambda>rb. Last rb n)"
  using assms by (induction ks) (auto split: option.split)

lemma history_query:
  assumes "mgr_run (NewManager cfg u) ops m" "updates_open (NewManager cfg u)"
    and "distinct ks" "set ks = dom (mgr_drones m)" "events_of i ops \<noteq> []"
    and "\<forall>k\<in>set ks. SystemID k = SystemID i \<longrightarrow> k = i" and "0 \<le> n"
  shows "GetHistory ks (SystemID i) n m =
    Val (last_n (nat (min n (hist_size cfg))) (positions (events_of i ops)))"
proof -
  obtain st where st: "mgr_drones m i = Some st"
    "rb_abs (mgr_rings m ! the (st_History st)) = last_n (nat (hist_size cfg)) (positions (events_of i ops))"
    using run_reports [OF assms(1,2), of i] assms(5) by (auto split: option.splits)
  have ok: "mgr_ok m" "mgr_cfg m = cfg" using run_view [OF assms(1,2)] by simp_all
  then obtain a where a: "st_History st = Some a" "a < length (mgr_rings m)"
    using st(1) unfolding mgr_ok_def drones_ok_def by blast
  moreover from ok a have "rb_wf (mgr_rings m ! a)" by (auto simp: mgr_ok_def rings_ok_def)
  then have "Last (mgr_rings m ! a) n = Val (last_n (nat n) (rb_abs (mgr_rings m ! a)))"
    using assms(7) by (rule ring.read_entries)
  moreover have "i \<in> set ks" using st(1) assms(4) by auto
  then have "GetHistory ks (SystemID i) n m = go_bind (index_at (mgr_rings m) a) (\<lambda>rb. Last rb n)"
    using assms(3,6) st(1) a(1) by (intro GetHistory_find) auto
  moreover have "min (nat n) (nat (hist_size cfg)) = nat (min n (hist_size cfg))" by simp
  ultimately show ?thesis using st(2) by (simp add: go_simps last_n_last_n)
qed

text \<open>
  The history query of a system with one known component returns the latest positions of that
  drone, at most \<open>n\<close> and at most the history's size, oldest first, each with the battery charge,
  armed flag and flight mode known when it arrived.
\<close>

theorem history_query_exact:
  assumes "mgr_run (NewManager cfg u) ops m" "updates_open (NewManager cfg u)"
    and "distinct ks" "set ks = dom (mgr_drones m)" "events_of i ops \<noteq> []"
    and "\<forall>k\<in>set ks. SystemID k = SystemID i \<longrightarrow> k = i" and "0 \<le> n"
  shows "GetHistory ks (SystemID i) n m =
    Val (last_n (nat (min n (hist_size cfg))) (positions (events_of i ops)))"
  using assms by (rule history_query)

lemma sample_run_dom: "dom (mgr_drones sample_run) = {sample_id}"
proof -
  have "(mgr_drones sample_run i = None) = (events_of i sample_ops = [])" for i
    using run_reports [OF sample_run_run [unfolded sample_manager_def] sample_updates_open, of i]
    by (auto split: option.splits)
  then show ?thesis by (auto simp: dom_def sample_ops_def sample_event_def)
qed

theorem history_query_exact_witness: "GetHistory [sample_id] (SystemID sample_id) 10 sample_run = Val []"
proof -
  have "positions (events_of sample_id sample_ops) = []"
    by (simp add: sample_ops_def sample_event_def positions_def entry_of_def)
  then show ?thesis
    using history_query_exact [OF sample_run_run [unfolded sample_manager_def] sample_updates_open,
        of "[sample_id]" sample_id 10]
    by (simp add: sample_run_dom last_n_def del: GetHistory.simps) (simp add: sample_ops_def sample_event_def)
qed

section \<open>The well-formed registry\<close>

text \<open>
  C13: after any run from an empty registry, every drone is stored under its own id with a history of
  its own, two drones never share one, and every history is a ring of the configured size whose head
  and count are in range; the configuration never changes.
\<close>

theorem registry_wellformed:
  assumes "mgr_run (NewManager cfg u) ops m" "updates_open (NewManager cfg u)"
  shows "mgr_cfg m = cfg \<and> finite (dom (mgr_drones m)) \<and>
    (\<forall>i st. mgr_drones m i = Some st \<longrightarrow> st_ID st = i \<and>
       (\<exists>a rb. st_History st = Some a \<and> index_at (mgr_rings m) a = Val rb \<and>
          int (length (rb_entries rb)) = hist_size cfg \<and> 0 \<le> rb_head rb \<and> rb_head rb < hist_size cfg \<and>
          0 \<le> Len rb \<and> Len rb \<le> hist_size cfg)) \<and>
    (\<forall>i j. i \<noteq> j \<and> mgr_drones m i \<noteq> None \<and> mgr_drones m j \<noteq> None \<longrightarrow>
       st_History (the (mgr_drones m i)) \<noteq> st_History (the (mgr_drones m j)))"
proof -
  have ok: "drones_ok (mgr_drones m) (length (mgr_rings m))" "rings_ok cfg (mgr_rings m)" "mgr_cfg m = cfg"
    using run_view [OF assms] by (auto simp: mgr_ok_def)
  have "int (length (rb_entries rb)) = hist_size cfg \<and> 0 \<le> rb_head rb \<and> rb_head rb < hist_size cfg \<and>
      0 \<le> Len rb \<and> Len rb \<le> hist_size cfg" if "rb \<in> set (mgr_rings m)" for rb
    using that ok(2) hist_size_pos [of cfg] by (auto simp: rings_ok_def rb_wf_def Len_def rb_size_def)
  then have ring: "\<exists>rb. index_at (mgr_rings m) a = Val rb \<and> int (length (rb_entries rb)) = hist_size cfg \<and>
      0 \<le> rb_head rb \<and> rb_head rb < hist_size cfg \<and> 0 \<le> Len rb \<and> Len rb \<le> hist_size cfg"
    if "a < length (mgr_rings m)" for a
    using that by (simp add: go_simps)
  have "st_ID st = i \<and> (\<exists>a rb. st_History st = Some a \<and> index_at (mgr_rings m) a = Val rb \<and>
      int (length (rb_entries rb)) = hist_size cfg \<and> 0 \<le> rb_head rb \<and> rb_head rb < hist_size cfg \<and>
      0 \<le> Len rb \<and> Len rb \<le> hist_size cfg)" if known: "mgr_drones m i = Some st" for i st
  proof -
    obtain a where "st_ID st = i" "st_History st = Some a" "a < length (mgr_rings m)"
      using known ok(1) unfolding drones_ok_def by blast
    then show ?thesis using ring [of a] by simp
  qed
  moreover have "st_History (the (mgr_drones m i)) \<noteq> st_History (the (mgr_drones m j))"
    if "i \<noteq> j" "mgr_drones m i \<noteq> None" "mgr_drones m j \<noteq> None" for i j
  proof -
    from that(2,3) obtain st su where "mgr_drones m i = Some st" "mgr_drones m j = Some su" by blast
    moreover from this that(1) ok(1) have "st_History st \<noteq> st_History su" unfolding drones_ok_def by blast
    ultimately show ?thesis by simp
  qed
  moreover have "finite (dom (mgr_drones m))" using ok(1) by (simp add: drones_ok_def)
  ultimately show ?thesis using ok(3) by simp
qed

theorem registry_wellformed_witness:
  "\<exists>st. mgr_drones sample_run sample_id = Some st \<and> st_ID st = sample_id \<and> st_History st \<noteq> None"
  using registry_wellformed [OF sample_run_run [unfolded sample_manager_def] sample_updates_open] sample_run_dom
  by (metis domD option.distinct(1) singletonI)

section \<open>Staleness and reconnection\<close>

definition is_connected :: "Manager \<Rightarrow> DroneID \<Rightarrow> bool" where
  "is_connected m i = (case mgr_drones m i of None \<Rightarrow> False | Some st \<Rightarrow> st_IsConnected st)"

text \<open>
  C16: a round of the stale checker, in whatever order it meets the drones, leaves exactly those
  connected that were connected and were seen at most the threshold ago; it changes nothing else of
  any drone; an event connects its drone and no other.
\<close>

theorem staleness_exact:
  assumes "mgr_ok m" "distinct ks" "set ks = dom (mgr_drones m)"
    and "mgr_drones m i = Some st" "0 \<le> dc_StaleThreshold (mgr_cfg m)" "dc_StaleThreshold (mgr_cfg m) < 2 ^ 63 - 1"
  shows "mgr_drones (snd (checkStale ks now m)) i = Some (st\<lparr>st_IsConnected :=
      (st_IsConnected st \<and> now - st_LastSeen st \<le> dc_StaleThreshold (mgr_cfg m))\<rparr>) \<and>
    is_connected (snd (ProcessEvent ev (snd (checkStale ks now m)))) i =
      (ev_DroneID ev = i \<or> is_connected (snd (checkStale ks now m)) i)"
proof -
  let ?th = "dc_StaleThreshold (mgr_cfg m)" and ?m = "snd (checkStale ks now m)"
  have m: "?m = after_stale ks now m" using assms(1,2) by (simp add: checkStale_eq mgr_ok_def)
  have i: "i \<in> set ks" using assms(3,4) by auto
  have "?th < time_sub now (st_LastSeen st) \<longleftrightarrow> ?th < now - st_LastSeen st"
    using assms(5,6) by (intro time_sub_gt_iff) auto
  then have "marked now ?th st = st\<lparr>st_IsConnected := (st_IsConnected st \<and> now - st_LastSeen st \<le> ?th)\<rparr>"
    by (cases st) (auto simp: marked_def isStale_def)
  moreover have "mgr_drones ?m i = Some (marked now ?th st)"
    using i assms(4) by (simp add: m after_stale_def Let_def mark_drones_def)
  moreover have "snd (ProcessEvent ev ?m) = after_event ev ?m"
    using assms(1) after_stale_ok by (simp add: m ProcessEvent_eq)
  then have "is_connected (snd (ProcessEvent ev ?m)) i = (ev_DroneID ev = i \<or> is_connected ?m i)"
    by (simp add: is_connected_def after_event_def)
  ultimately show ?thesis by simp
qed

theorem staleness_exact_witness:
  "\<not> is_connected (snd (checkStale [sample_id] 40000000009 sample_run)) sample_id"
proof -
  obtain st where st: "mgr_drones sample_run sample_id = Some st"
    "reports sample_id (events_of sample_id sample_ops) st"
    using run_reports [OF sample_run_run [unfolded sample_manager_def] sample_updates_open, of sample_id]
    by (simp add: sample_ops_def sample_event_def split: option.splits)
  have cfg: "mgr_cfg sample_run = cfg_Drone Default" and ok: "mgr_ok sample_run"
    using run_view [OF sample_run_run [unfolded sample_manager_def] sample_updates_open] by simp_all
  have seen: "st_LastSeen st = 8" using st(2) by (simp add: reports_def sample_ops_def sample_event_def)
  show ?thesis
    using staleness_exact [OF ok, of "[sample_id]" sample_id st 40000000009] st(1) seen
    by (simp add: cfg sample_run_dom Default_def second_def is_connected_def)
qed

section \<open>Notifications\<close>

definition armed :: "Manager \<Rightarrow> DroneID \<Rightarrow> bool" where
  "armed m i = (case mgr_drones m i of None \<Rightarrow> False | Some st \<Rightarrow> st_IsArmed st)"

definition flip_type :: "bool \<Rightarrow> bool \<Rightarrow> UpdateType" where
  "flip_type before after =
    (if after \<and> \<not> before then UpdateTypeArmed
     else if \<not> after \<and> before then UpdateTypeDisarmed else UpdateTypeTelemetry)"

text \<open>
  C31: the notifications of an event that does not panic, on a channel with room for them: a new
  drone is announced first, a return from staleness next, and last the event itself, as an arming
  or a disarming exactly when it flips the armed flag; each carries the state of the drone at that
  point, and nothing is dropped.
\<close>

theorem notifications_exact:
  assumes "mgr_ok m" "mgr_updates m = Some c" "length (ch_buf c) + 3 \<le> ch_cap c" "\<not> nil_deref ev"
  shows "\<exists>c' ups. mgr_updates (snd (ProcessEvent ev m)) = Some c' \<and> ch_buf c' = ch_buf c @ ups \<and>
    mgr_dropped (snd (ProcessEvent ev m)) = mgr_dropped m \<and>
    map up_Type ups =
      (if mgr_drones m (ev_DroneID ev) = None then [UpdateTypeNew] else []) @
      (if mgr_drones m (ev_DroneID ev) \<noteq> None \<and> \<not> is_connected m (ev_DroneID ev) then [UpdateTypeReconnect] else []) @
      [flip_type (armed m (ev_DroneID ev)) (armed (snd (ProcessEvent ev m)) (ev_DroneID ev))] \<and>
    mgr_drones (snd (ProcessEvent ev m)) (ev_DroneID ev) = Some (up_State (last ups))"
proof -
  let ?ups = "event_updates ev m"
  have open': "open_chan c" using assms(1,2) by (simp add: mgr_ok_def updates_open_def)
  have "length ?ups \<le> 3" by (simp add: event_updates_def Let_def)
  then have room: "length ?ups \<le> ch_cap c - length (ch_buf c)" using assms(3) by simp
  have after: "snd (ProcessEvent ev m) = after_event ev m" using assms(1) by (simp add: ProcessEvent_eq)
  let ?m = "m\<lparr>mgr_drones := (mgr_drones m)(ev_DroneID ev \<mapsto> absorbed ev (touched ev (found_state ev m))),
      mgr_rings := rings_after ev m\<rparr>"
  have "mgr_updates (after_event ev m) = Some (c\<lparr>ch_buf := ch_buf c @ ?ups\<rparr>)"
    "mgr_dropped (after_event ev m) = mgr_dropped m"
    using emit_all_channel [of ?m c ?ups] assms(2) open' room by (simp_all add: after_event_def)
  moreover have "mgr_drones (after_event ev m) (ev_DroneID ev) = Some (up_State (last ?ups))"
    using assms(4) by (simp add: after_event_def event_updates_def Let_def)
  moreover have "mgr_drones m (ev_DroneID ev) = None \<Longrightarrow> st_IsConnected (found_state ev m)"
    by (simp add: found_state_def fresh_state_def)
  then have "map up_Type ?ups =
      (if mgr_drones m (ev_DroneID ev) = None then [UpdateTypeNew] else []) @
      (if mgr_drones m (ev_DroneID ev) \<noteq> None \<and> \<not> is_connected m (ev_DroneID ev) then [UpdateTypeReconnect] else []) @
      [change_type ev (found_state ev m)]"
    using assms(4)
    by (auto simp: event_updates_def Let_def is_connected_def found_state_def split: option.splits)
  moreover have a: "armed (after_event ev m) (ev_DroneID ev) =
      st_IsArmed (absorbed ev (touched ev (found_state ev m)))"
    by (simp add: armed_def after_event_def)
  have "st_IsArmed (found_state ev m) = armed m (ev_DroneID ev)"
    by (simp add: found_state_def armed_def fresh_state_def split: option.split)
  then have "change_type ev (found_state ev m) =
      flip_type (armed m (ev_DroneID ev)) (armed (after_event ev m) (ev_DroneID ev))"
    by (subst change_type_touched [symmetric])
      (simp add: change_type_def flip_type_def a Let_def)
  ultimately show ?thesis unfolding after
    by (intro exI [of _ "c\<lparr>ch_buf := ch_buf c @ ?ups\<rparr>"] exI [of _ ?ups] conjI) simp_all
qed

theorem notifications_exact_witness:
  "\<exists>c. mgr_updates (snd (ProcessEvent (sample_event 3 (PRaw [])) (sample_manager\<lparr>mgr_updates :=
      Some \<lparr>ch_buf = [], ch_cap = 3, ch_closed = False\<rparr>\<rparr>))) = Some c \<and>
    map up_Type (ch_buf c) = [UpdateTypeNew, UpdateTypeTelemetry]"
proof -
  let ?m = "sample_manager\<lparr>mgr_updates := Some \<lparr>ch_buf = [], ch_cap = 3, ch_closed = False\<rparr>\<rparr>"
  have "mgr_ok ?m" using sample_manager_ok(1)
    by (simp add: mgr_ok_def updates_open_def open_chan_def chan_ok_def)
  moreover from this have "\<not> armed (snd (ProcessEvent (sample_event 3 (PRaw [])) ?m)) sample_id"
    by (simp add: ProcessEvent_eq armed_def after_event_def absorbed_def found_state_def sample_manager_ok
        fresh_state_def) (simp add: sample_event_def)
  ultimately show ?thesis
    using notifications_exact [of ?m "\<lparr>ch_buf = [], ch_cap = 3, ch_closed = False\<rparr>" "sample_event 3 (PRaw [])"]
    by (auto simp: sample_manager_ok nil_deref_def sample_event_def flip_type_def armed_def)
qed

section \<open>Statistics\<close>

fun event_count :: "mgr_op list \<Rightarrow> nat" where
  "event_count [] = 0"
| "event_count (OpEvent ev # ops) = Suc (event_count ops)"
| "event_count (_ # ops) = event_count ops"

lemma foldl_countState:
  "foldl countState s sts =
    s\<lparr>ms_ConnectedDrones := ms_ConnectedDrones s + int (length (filter st_IsConnected sts)),
      ms_ArmedDrones := ms_ArmedDrones s + int (length (filter st_IsArmed sts)),
      ms_TotalMessages := ms_TotalMessages s + sum_list (map st_MessageCount sts)\<rparr>"
  by (induction sts arbitrary: s) (simp_all add: countState_def Let_def add.assoc)

lemma statesLoop_map: "set ks \<subseteq> dom (mgr_drones m) \<Longrightarrow> statesLoop ks m = map (\<lambda>k. the (mgr_drones m k)) ks"
  by (induction ks) auto

lemma sum_list_indicator:
  "distinct ks \<Longrightarrow> i \<in> set ks \<Longrightarrow> sum_list (map (\<lambda>k. if i = k then 1 else (0 :: nat)) ks) = 1"
proof (induction ks)
  case (Cons k ks)
  have "i \<notin> set ks \<Longrightarrow> sum_list (map (\<lambda>k. if i = k then 1 else (0 :: nat)) ks) = 0"
    by (simp add: sum_list_eq_0_iff)
  with Cons show ?case by auto
qed simp

lemma sum_events_of:
  assumes "distinct ks" "\<And>i. events_of i ops \<noteq> [] \<Longrightarrow> i \<in> set ks"
  shows "sum_list (map (\<lambda>k. length (events_of k ops)) ks) = event_count ops"
  using assms(2)
proof (induction ops)
  case (Cons op ops)
  have prem: "i \<in> set ks" if "events_of i ops \<noteq> []" for i
  proof -
    have "events_of i ([op] @ ops) \<noteq> []" using that by (simp only: events_of_append) simp
    then show ?thesis using Cons.prems [of i] by simp
  qed
  show ?case
  proof (cases op)
    case (OpEvent ev)
    have "length (events_of k (op # ops)) = (if ev_DroneID ev = k then 1 else 0) + length (events_of k ops)" for k
      by (simp add: OpEvent)
    moreover have "ev_DroneID ev \<in> set ks" using Cons.prems [of "ev_DroneID ev"] by (simp add: OpEvent)
    ultimately show ?thesis
      using Cons.IH prem sum_list_indicator [OF assms(1)] by (simp add: sum_list_addf OpEvent)
  qed (use Cons.IH prem in simp_all)
qed simp

lemma length_filter_dom:
  assumes "distinct ks" "set ks = dom (mgr_drones m)"
  shows "length (filter P (map (\<lambda>k. the (mgr_drones m k)) ks)) =
    card {i. case mgr_drones m i of None \<Rightarrow> False | Some st \<Rightarrow> P st}"
proof -
  have "{i. case mgr_drones m i of None \<Rightarrow> False | Some st \<Rightarrow> P st} = set (filter (\<lambda>k. P (the (mgr_drones m k))) ks)"
    using assms(2) by (auto split: option.splits)
  moreover have "card (set (filter (\<lambda>k. P (the (mgr_drones m k))) ks)) = length (filter (\<lambda>k. P (the (mgr_drones m k))) ks)"
    using assms(1) by (intro distinct_card) simp
  ultimately show ?thesis by (simp only: filter_map length_map comp_def)
qed

text \<open>
  C40: the statistics after any run: the drones ever heard from, those connected and those armed
  now, and as total the number of events handled (modulo \<open>2 ^ 64\<close>), whatever order the map is
  walked in; the connected count agrees with its own query.
\<close>

theorem statistics_exact:
  assumes "mgr_run (NewManager cfg u) ops m" "updates_open (NewManager cfg u)"
    and "distinct ks" "set ks = dom (mgr_drones m)"
  shows "Manager_Stats ks m =
      \<lparr>ms_TotalDrones = int (card {i. events_of i ops \<noteq> []}),
       ms_ConnectedDrones = int (card {i. is_connected m i}), ms_ArmedDrones = int (card {i. armed m i}),
       ms_TotalMessages = of_nat (event_count ops)\<rparr> \<and>
    GetConnectedCount ks m = ms_ConnectedDrones (Manager_Stats ks m)"
proof -
  have reports: "\<exists>st. mgr_drones m k = Some st \<and> st_MessageCount st = of_nat (length (events_of k ops))"
    if "k \<in> set ks" for k
    using run_reports [OF assms(1,2), of k] that assms(4) by (auto simp: reports_def)
  have dom: "events_of i ops \<noteq> [] \<longleftrightarrow> i \<in> set ks" for i
    using run_reports [OF assms(1,2), of i] assms(4) by (auto split: option.splits)
  then have known: "{i. events_of i ops \<noteq> []} = set ks" by blast
  let ?f = "\<lambda>k. the (mgr_drones m k)"
  have "sum_list (map (\<lambda>k. st_MessageCount (?f k)) ks) =
      sum_list (map (\<lambda>k. of_nat (length (events_of k ops))) ks)"
    using reports by (intro arg_cong [where f = sum_list] map_cong) fastforce+
  also have "\<dots> = of_nat (sum_list (map (\<lambda>k. length (events_of k ops)) ks))"
    by (induction ks) simp_all
  also have "\<dots> = of_nat (event_count ops)"
    using sum_events_of [OF assms(3), of ops] dom by simp
  finally have total: "sum_list (map (\<lambda>k. st_MessageCount (?f k)) ks) = of_nat (event_count ops)" .
  have count: "foldl (\<lambda>c st. if st_IsConnected st then c + 1 else c) n sts =
      n + int (length (filter st_IsConnected sts))" for n sts
    by (induction sts arbitrary: n) simp_all
  have cards: "length (filter st_IsConnected (map ?f ks)) = card {i. is_connected m i}"
    "length (filter st_IsArmed (map ?f ks)) = card {i. armed m i}"
    using length_filter_dom [OF assms(3,4)] by (simp_all add: is_connected_def armed_def)
  have loop: "statesLoop ks m = map ?f ks" using assms(4) by (simp add: statesLoop_map)
  have stats: "Manager_Stats ks m =
      \<lparr>ms_TotalDrones = int (card {i. events_of i ops \<noteq> []}),
       ms_ConnectedDrones = int (card {i. is_connected m i}), ms_ArmedDrones = int (card {i. armed m i}),
       ms_TotalMessages = of_nat (event_count ops)\<rparr>"
    using total cards by (simp add: Manager_Stats_def foldl_countState loop comp_def known distinct_card [OF assms(3)])
  then show ?thesis using cards by (simp add: GetConnectedCount_def count loop)
qed

theorem statistics_exact_witness:
  "ms_TotalMessages (Manager_Stats [sample_id] sample_run) = 2 \<and>
   ms_TotalDrones (Manager_Stats [sample_id] sample_run) = 1"
proof -
  have "{i. events_of i sample_ops \<noteq> []} = {sample_id}" by (auto simp: sample_ops_def sample_event_def)
  then show ?thesis
    using statistics_exact [OF sample_run_run [unfolded sample_manager_def] sample_updates_open, of "[sample_id]"]
    by (simp add: sample_run_dom) (simp add: sample_ops_def)
qed

end
