(* ===== verification/Goroutine.thy ===== *)
theory Goroutine
  imports Prelude
begin

text \<open>
  The supervised service loops.  Every long-running goroutine of the program has one shape: an inner
  loop that selects between shutdown and its input and calls a handler, a deferred \<^verbatim>\<open>recover\<close> that
  reports a panic, and an outer loop that starts the inner one again after a panic.  The run-time
  system's choices are the argument: the list of select outcomes the goroutine sees.
\<close>

datatype 'x selected =
    Shutdown          \<comment> \<open>\<^verbatim>\<open>ctx.Done()\<close> or the component's done channel\<close>
  | InputClosed       \<comment> \<open>a receive with \<^verbatim>\<open>ok = false\<close>\<close>
  | Received 'x       \<comment> \<open>an item of the input, or a tick\<close>

text \<open>
  The inner loop: whether it panicked, the outcomes it has not looked at, and the state.  With no
  outcome left the goroutine waits in its select; a handler that blocks holds it forever.
\<close>

fun innerLoop ::
    "('x \<Rightarrow> ('s, unit) act) \<Rightarrow> 'x selected list \<Rightarrow> 's \<Rightarrow> bool \<times> 'x selected list \<times> 's" where
  "innerLoop h [] s = (False, [], s)"
| "innerLoop h (Shutdown # sels) s = (False, sels, s)"
| "innerLoop h (InputClosed # sels) s = (False, sels, s)"
| "innerLoop h (Received x # sels) s =
    (case h x s of
       (Val _, s') \<Rightarrow> innerLoop h sels s'
     | (Panic _, s') \<Rightarrow> (True, sels, s')
     | (Diverge, s') \<Rightarrow> (False, sels, s'))"

lemma innerLoop_shorter: "innerLoop h sels s = (True, sels', s') \<Longrightarrow> length sels' < length sels"
proof (induction h sels s rule: innerLoop.induct)
  case (4 h x sels s)
  then show ?case by (cases "h x s"; cases "fst (h x s)") fastforce+
qed auto

text \<open>\<^verbatim>\<open>for { if !runLoop() { return } }\<close>\<close>

function (sequential) supervised ::
    "('x \<Rightarrow> ('s, unit) act) \<Rightarrow> 'x selected list \<Rightarrow> 's \<Rightarrow> 's" where
  "supervised h sels s =
    (case innerLoop h sels s of
       (panicked, sels', s') \<Rightarrow> if \<not> panicked then s' else supervised h sels' s')"
  by pat_completeness auto
termination
  by (relation "measure (\<lambda>(h, sels, s). length sels)") (auto dest: innerLoop_shorter [OF sym])

declare supervised.simps [simp del]

text \<open>The items before the first shutdown or closed input: the work a goroutine is given.\<close>

fun items_until :: "'x selected list \<Rightarrow> 'x list" where
  "items_until (Received x # sels) = x # items_until sels"
| "items_until _ = []"

locale service =
  fixes ok :: "'s \<Rightarrow> bool" and handle :: "'x \<Rightarrow> ('s, unit) act"
  assumes never_blocks: "ok s \<Longrightarrow> fst (handle x s) \<noteq> Diverge"
    and keeps_ok: "ok s \<Longrightarrow> ok (snd (handle x s))"
begin

text \<open>
  Supervision: every item that arrives before the shutdown is handled exactly once and in order,
  those after a panicking one included.
\<close>

lemma supervised_handles_all:
  "ok s \<Longrightarrow> supervised handle sels s = fold (\<lambda>x s. snd (handle x s)) (items_until sels) s"
proof (induction "length sels" arbitrary: sels s rule: less_induct)
  case less
  show ?case
  proof (cases sels)
    case Nil
    then show ?thesis by (simp add: supervised.simps)
  next
    case (Cons sel rest)
    show ?thesis
    proof (cases sel)
      case (Received x)
      obtain r s' where h: "handle x s = (r, s')" by (cases "handle x s")
      have ok': "ok s'" using keeps_ok [OF less.prems, of x] h by simp
      have IH: "supervised handle rest s' = fold (\<lambda>x s. snd (handle x s)) (items_until rest) s'"
        using less.hyps [OF _ ok'] Cons by simp
      have "supervised handle sels s = supervised handle rest s'"
      proof (cases r)
        case (Val u)
        then have "innerLoop handle sels s = innerLoop handle rest s'" by (simp add: Cons Received h)
        then show ?thesis by (subst (1 2) supervised.simps) simp
      next
        case (Panic p)
        then show ?thesis by (subst supervised.simps) (simp add: Cons Received h)
      next
        case Diverge
        then show ?thesis using never_blocks [OF less.prems, of x] h by simp
      qed
      then show ?thesis using IH by (simp add: Cons Received h)
    qed (simp_all add: Cons supervised.simps)
  qed
qed

lemma supervised_ok: "ok s \<Longrightarrow> ok (supervised handle sels s)"
proof -
  assume "ok s"
  moreover have "ok s \<Longrightarrow> ok (fold (\<lambda>x s. snd (handle x s)) xs s)" for xs
    by (induction xs arbitrary: s) (simp_all add: keeps_ok)
  ultimately show ?thesis by (simp add: supervised_handles_all)
qed

end

end
