(* ===== verification/Stale_Checker.thy ===== *)
theory Stale_Checker
  imports Drone_Theorems Goroutine
begin

text \<open>
  The goroutine of the registry (\<^verbatim>\<open>staleChecker\<close> and \<^verbatim>\<open>runStaleChecker\<close> of
  \<^verbatim>\<open>internal/drone/manager.go\<close>): its ticker, its select, its recovery.  A tick is an outcome of the
  select; it comes with the order of the map and the clock of its round.
\<close>

definition staleTick :: "DroneID list \<times> instant \<Rightarrow> (Manager, unit) act" where
  "staleTick tick = (case tick of (ks, now) \<Rightarrow> checkStale ks now)"

text \<open>
  \<^verbatim>\<open>time.NewTicker\<close> panics on a period that is not positive.  The result: whether it panicked, the
  outcomes not looked at, the registry.
\<close>

definition runStaleChecker ::
    "(DroneID list \<times> instant) selected list \<Rightarrow> Manager \<Rightarrow>
     bool \<times> (DroneID list \<times> instant) selected list \<times> Manager" where
  "runStaleChecker sels m =
    (if dc_StaleCheckInterval (mgr_cfg m) \<le> 0 then (True, sels, m) else innerLoop staleTick sels m)"

text \<open>\<open>None\<close>: the goroutine never returns.\<close>

partial_function (option) staleChecker ::
    "(DroneID list \<times> instant) selected list \<Rightarrow> Manager \<Rightarrow> Manager option" where
  "staleChecker sels m =
    (case runStaleChecker sels m of
       (panicked, sels, m) \<Rightarrow> if \<not> panicked then Some m else staleChecker sels m)"

lemma staleLoop_open:
  "updates_open m \<Longrightarrow> fst (staleLoop now th ks m) = Val () \<and> updates_open (snd (staleLoop now th ks m)) \<and>
     mgr_cfg (snd (staleLoop now th ks m)) = mgr_cfg m"
  by (induction ks arbitrary: m)
    (auto simp: Let_def put_state_def act_simps emitUpdate_open split: option.split)

lemma staleTick_open:
  assumes "updates_open m"
  shows "fst (staleTick x m) = Val ()" "updates_open (snd (staleTick x m))"
    "mgr_cfg (snd (staleTick x m)) = mgr_cfg m"
  using staleLoop_open [OF assms, of "snd x" "dc_StaleThreshold (mgr_cfg m)" "fst x"]
  by (simp_all add: staleTick_def checkStale_def split_beta' prod_eq_iff)

interpretation stale_service: service updates_open staleTick
proof unfold_locales
  fix m :: Manager and x :: "DroneID list \<times> instant"
  assume "updates_open m"
  from staleTick_open [OF this, of x] show "fst (staleTick x m) \<noteq> Diverge" "updates_open (snd (staleTick x m))"
    by simp_all
qed

text \<open>With an open notification channel no round panics: the inner loop runs once.\<close>

lemma innerLoop_rounds:
  "updates_open m \<Longrightarrow> \<exists>sels'. innerLoop staleTick sels m = (False, sels', supervised staleTick sels m)"
proof (induction staleTick sels m rule: innerLoop.induct)
  case (4 x sels m)
  obtain m1 where m1: "staleTick x m = (Val (), m1)" "updates_open m1"
    using staleTick_open [OF 4(2), of x] by (cases "staleTick x m") simp
  from 4(1) [OF m1(1) [symmetric] refl m1(2)] obtain sels' where
    IH: "innerLoop staleTick sels m1 = (False, sels', supervised staleTick sels m1)" by blast
  then have run: "innerLoop staleTick (Received x # sels) m = (False, sels', supervised staleTick sels m1)"
    by (simp add: m1(1))
  then have "supervised staleTick (Received x # sels) m = supervised staleTick sels m1"
    by (subst supervised.simps) (simp add: run)
  with run show ?case by simp
qed (simp_all add: supervised.simps)

lemma staleChecker_runs: "staleChecker sels m = Some m' \<Longrightarrow> 0 < dc_StaleCheckInterval (mgr_cfg m)"
  by (erule staleChecker.raw_induct [rotated]) (auto simp: runStaleChecker_def split: prod.splits if_splits)

text \<open>
  C17: the stale checker performs every round whose tick comes before the shutdown, in order, and then
  returns, exactly when the configured interval is positive; otherwise its ticker panics, the panic is
  recovered and the loop starts again for ever, blind to the shutdown.
\<close>

theorem stale_checker_rounds:
  assumes "updates_open m"
  shows "staleChecker sels m =
    (if 0 < dc_StaleCheckInterval (mgr_cfg m)
     then Some (fold (\<lambda>(ks, now) m. snd (checkStale ks now m)) (items_until sels) m) else None)"
proof (cases "0 < dc_StaleCheckInterval (mgr_cfg m)")
  case True
  obtain sels' where "innerLoop staleTick sels m = (False, sels', supervised staleTick sels m)"
    using innerLoop_rounds [OF assms] by blast
  then have "staleChecker sels m = Some (supervised staleTick sels m)"
    using True by (subst staleChecker.simps) (simp add: runStaleChecker_def)
  then show ?thesis
    using True stale_service.supervised_handles_all [OF assms, of sels] by (simp add: staleTick_def split_beta')
next
  case False
  then show ?thesis using staleChecker_runs [of sels m] by (cases "staleChecker sels m") auto
qed

theorem stale_checker_rounds_witness:
  "staleChecker [Received ([], 5), Shutdown] sample_manager = Some sample_manager \<and>
   staleChecker [Shutdown] (sample_manager\<lparr>mgr_cfg := (mgr_cfg sample_manager)\<lparr>dc_StaleCheckInterval := 0\<rparr>\<rparr>) = None"
proof -
  have "updates_open sample_manager" using sample_manager_ok(1) by (simp add: mgr_ok_def)
  moreover have "updates_open (sample_manager\<lparr>mgr_cfg := cfg\<rparr>)" for cfg
    using calculation by (simp add: updates_open_def)
  moreover have "0 < dc_StaleCheckInterval (mgr_cfg sample_manager)"
    by (simp add: sample_manager_def NewManager_def Default_def second_def)
  ultimately show ?thesis by (simp add: stale_checker_rounds checkStale_def)
qed

end
