(* ===== verification/Hub.thy ===== *)
theory Hub
  imports Protocol Channel Config Goroutine
begin

text \<open>
  \<^verbatim>\<open>internal/pubsub/hub.go\<close>: the fan-out hub.  Subscribers live on a heap, because the map of the
  hub and the component that subscribed share the pointer: a subscriber that leaves the map is still
  read by its owner.  A loop over the map takes the order of the keys as an argument.
\<close>

section \<open>Go strings of runes\<close>

text \<open>
  \<^verbatim>\<open>string(rune(id))\<close>: the conversion to a 32-bit rune, then its UTF-8 encoding, with the
  replacement character for what is no Unicode scalar value.
\<close>

definition utf8_rune :: "int \<Rightarrow> string" where
  "utf8_rune r =
    (let r = (if r < 0 \<or> 0x10FFFF < r \<or> (0xD800 \<le> r \<and> r \<le> 0xDFFF) then 0xFFFD else r);
         byte = (\<lambda>b :: int. char_of (nat b))
     in if r < 0x80 then [byte r]
        else if r < 0x800 then [byte (0xC0 + r div 64), byte (0x80 + r mod 64)]
        else if r < 0x10000 then
          [byte (0xE0 + r div 4096), byte (0x80 + (r div 64) mod 64), byte (0x80 + r mod 64)]
        else
          [byte (0xF0 + r div 262144), byte (0x80 + (r div 4096) mod 64),
           byte (0x80 + (r div 64) mod 64), byte (0x80 + r mod 64)])"

definition rune_of :: "uint64 \<Rightarrow> int" where
  "rune_of w = sint (ucast w :: 32 word)"

section \<open>Subscribers and the hub\<close>

record Subscriber =
  sub_ID :: uint64
  sub_Name :: string
  sub_Events :: "TelemetryEvent chan"
  sub_closeOnce :: bool
  sub_dropped :: uint64

record Hub =
  hub_cfg :: PubSubConfig
  hub_heap :: "Subscriber list"
  hub_subscribers :: "string \<Rightarrow> nat option"
  hub_nextID :: uint64
  hub_done :: bool
  hub_eventsReceived :: uint64
  hub_eventsBroadcast :: uint64
  hub_eventsDropped :: uint64

definition NewHub :: "PubSubConfig \<Rightarrow> Hub" where
  "NewHub cfg =
    \<lparr>hub_cfg = cfg, hub_heap = [], hub_subscribers = Map.empty, hub_nextID = 0, hub_done = False,
     hub_eventsReceived = 0, hub_eventsBroadcast = 0, hub_eventsDropped = 0\<rparr>"

definition put_sub :: "nat \<Rightarrow> Subscriber \<Rightarrow> (Hub, unit) act" where
  "put_sub a s = act_modify (\<lambda>h. h\<lparr>hub_heap := (hub_heap h)[a := s]\<rparr>)"

text \<open>The pointer returned is the address of the new subscriber.\<close>

definition Subscribe :: "string \<Rightarrow> (Hub, nat) act" where
  "Subscribe name h =
    (let sid = hub_nextID h + 1; h = h\<lparr>hub_nextID := sid\<rparr> in
     act_bind (act_go (make_chan (ps_SubscriberBufferSize (hub_cfg h)))) (\<lambda>events.
     let sub = \<lparr>sub_ID = sid, sub_Name = name, sub_Events = events, sub_closeOnce = False, sub_dropped = 0\<rparr>;
         a = length (hub_heap h);
         key = (if hub_subscribers h name \<noteq> None then name @ ''_'' @ utf8_rune (rune_of sid) else name)
     in
     act_then (act_modify (\<lambda>h. h\<lparr>hub_heap := hub_heap h @ [sub],
       hub_subscribers := (hub_subscribers h)(key \<mapsto> a)\<rparr>)) (
     act_return a)) h)"

text \<open>\<^verbatim>\<open>Subscriber.Close\<close>: the once marks itself done even when the close panics.\<close>

definition Subscriber_Close :: "nat \<Rightarrow> (Hub, unit) act" where
  "Subscriber_Close a h =
    (let s = hub_heap h ! a in
     if sub_closeOnce s then (Val (), h)
     else
       (case close_chan (sub_Events s) of
          Val c \<Rightarrow> put_sub a (s\<lparr>sub_closeOnce := True, sub_Events := c\<rparr>) h
        | Panic p \<Rightarrow> (Panic p, h\<lparr>hub_heap := (hub_heap h)[a := s\<lparr>sub_closeOnce := True\<rparr>]\<rparr>)
        | Diverge \<Rightarrow> (Diverge, h)))"

text \<open>The loop over the map in the order \<open>ks\<close>; it stops at the first subscriber with the ID.\<close>

fun unsubscribeLoop :: "uint64 \<Rightarrow> string list \<Rightarrow> (Hub, unit) act" where
  "unsubscribeLoop sid [] h = (Val (), h)"
| "unsubscribeLoop sid (key # ks) h =
    (case hub_subscribers h key of
       None \<Rightarrow> unsubscribeLoop sid ks h
     | Some a \<Rightarrow>
         if sub_ID (hub_heap h ! a) = sid
         then act_then (act_modify (\<lambda>h. h\<lparr>hub_subscribers := (hub_subscribers h)(key := None)\<rparr>))
                (Subscriber_Close a) h
         else unsubscribeLoop sid ks h)"

definition Unsubscribe :: "string list \<Rightarrow> nat \<Rightarrow> (Hub, unit) act" where
  "Unsubscribe ks a h = unsubscribeLoop (sub_ID (hub_heap h ! a)) ks h"

definition SubscriberCount :: "string list \<Rightarrow> Hub \<Rightarrow> int" where
  "SubscriberCount ks h = int (length ks)"

section \<open>Broadcasting\<close>

text \<open>One subscriber's turn.  A blocking send that finds the buffer full does not come back.\<close>

definition deliver :: "TelemetryEvent \<Rightarrow> nat \<Rightarrow> (Hub, unit) act" where
  "deliver event a h =
    (let s = hub_heap h ! a in
     if ps_DropOnSlowSubscriber (hub_cfg h) then
       (case try_send event (sub_Events s) of
          Val (c, sent) \<Rightarrow>
            if sent
            then (Val (), h\<lparr>hub_heap := (hub_heap h)[a := s\<lparr>sub_Events := c\<rparr>],
                   hub_eventsBroadcast := hub_eventsBroadcast h + 1\<rparr>)
            else (Val (), h\<lparr>hub_eventsDropped := hub_eventsDropped h + 1,
                   hub_heap := (hub_heap h)[a := s\<lparr>sub_dropped := sub_dropped s + 1\<rparr>]\<rparr>)
        | Panic p \<Rightarrow> (Panic p, h)
        | Diverge \<Rightarrow> (Diverge, h))
     else
       (case block_send event (sub_Events s) of
          Val c \<Rightarrow> (Val (), h\<lparr>hub_heap := (hub_heap h)[a := s\<lparr>sub_Events := c\<rparr>],
            hub_eventsBroadcast := hub_eventsBroadcast h + 1\<rparr>)
        | Panic p \<Rightarrow> (Panic p, h)
        | Diverge \<Rightarrow> (Diverge, h)))"

fun broadcastLoop :: "TelemetryEvent \<Rightarrow> string list \<Rightarrow> (Hub, unit) act" where
  "broadcastLoop event [] h = (Val (), h)"
| "broadcastLoop event (key # ks) h =
    (case hub_subscribers h key of
       None \<Rightarrow> broadcastLoop event ks h
     | Some a \<Rightarrow> act_then (deliver event a) (broadcastLoop event ks) h)"

definition broadcast :: "string list \<Rightarrow> TelemetryEvent \<Rightarrow> (Hub, unit) act" where
  "broadcast ks event =
    act_then (act_modify (\<lambda>h. h\<lparr>hub_eventsReceived := hub_eventsReceived h + 1\<rparr>))
      (broadcastLoop event ks)"

text \<open>
  The goroutine of the hub, handling the events its select receives; the map order of each
  broadcast comes with the event.
\<close>

definition hub_run :: "(string list \<times> TelemetryEvent) selected list \<Rightarrow> Hub \<Rightarrow> Hub" where
  "hub_run = supervised (\<lambda>(ks, event). broadcast ks event)"

section \<open>Shutdown and statistics\<close>

fun closeLoop :: "string list \<Rightarrow> (Hub, unit) act" where
  "closeLoop [] h = (Val (), h)"
| "closeLoop (key # ks) h =
    (case hub_subscribers h key of
       None \<Rightarrow> closeLoop ks h
     | Some a \<Rightarrow> act_then (Subscriber_Close a) (closeLoop ks) h)"

definition Hub_Stop :: "string list \<Rightarrow> (Hub, unit) act" where
  "Hub_Stop ks h =
    (if hub_done h then (Panic CloseOfClosedChannel, h)
     else
       act_then (act_modify (\<lambda>h. h\<lparr>hub_done := True\<rparr>)) (
       act_then (closeLoop ks) (
       act_modify (\<lambda>h. h\<lparr>hub_subscribers := Map.empty\<rparr>))) h)"

record SubscriberStats =
  ss_ID :: uint64
  ss_Name :: string
  ss_Pending :: int
  ss_Dropped :: uint64

record HubStats =
  hs_Subscribers :: int
  hs_EventsReceived :: uint64
  hs_EventsBroadcast :: uint64
  hs_EventsDropped :: uint64
  hs_SubscriberStats :: "SubscriberStats list"

fun subscriberStats :: "string list \<Rightarrow> Hub \<Rightarrow> SubscriberStats list" where
  "subscriberStats [] h = []"
| "subscriberStats (key # ks) h =
    (case hub_subscribers h key of
       None \<Rightarrow> subscriberStats ks h
     | Some a \<Rightarrow>
         (let sub = hub_heap h ! a in
          \<lparr>ss_ID = sub_ID sub, ss_Name = sub_Name sub, ss_Pending = int (length (ch_buf (sub_Events sub))),
           ss_Dropped = sub_dropped sub\<rparr> # subscriberStats ks h))"

definition Hub_Stats :: "string list \<Rightarrow> Hub \<Rightarrow> HubStats" where
  "Hub_Stats ks h =
    \<lparr>hs_Subscribers = int (length ks), hs_EventsReceived = hub_eventsReceived h,
     hs_EventsBroadcast = hub_eventsBroadcast h, hs_EventsDropped = hub_eventsDropped h,
     hs_SubscriberStats = subscriberStats ks h\<rparr>"

end
