(* ===== verification/Hub_Correct.thy ===== *)
theory Hub_Correct
  imports Hub
begin

text \<open>
  Correctness of the hub: the invariant that registered subscribers are distinct and open, a
  broadcast described subscriber by subscriber, and the stream each subscriber sees over a run.
\<close>

section \<open>The invariant\<close>

definition live :: "Hub \<Rightarrow> nat \<Rightarrow> bool" where
  "live h a \<longleftrightarrow> a < length (hub_heap h) \<and> open_chan (sub_Events (hub_heap h ! a)) \<and> \<not> sub_closeOnce (hub_heap h ! a)"

definition registered_at :: "Hub \<Rightarrow> nat \<Rightarrow> bool" where
  "registered_at h a \<longleftrightarrow> a \<in> ran (hub_subscribers h)"

definition hub_ok :: "Hub \<Rightarrow> bool" where
  "hub_ok h \<longleftrightarrow>
     (\<forall>a. registered_at h a \<longrightarrow> live h a) \<and>
     (\<forall>k k' a. hub_subscribers h k = Some a \<and> hub_subscribers h k' = Some a \<longrightarrow> k = k') \<and>
     finite (dom (hub_subscribers h)) \<and>
     hub_nextID h = of_nat (length (hub_heap h)) \<and>
     (\<forall>a < length (hub_heap h). sub_ID (hub_heap h ! a) = of_nat (Suc a))"

lemma hub_okD:
  assumes "hub_ok h" "hub_subscribers h k = Some a"
  shows "a < length (hub_heap h)" "open_chan (sub_Events (hub_heap h ! a))" "\<not> sub_closeOnce (hub_heap h ! a)"
  using assms by (auto simp: hub_ok_def live_def registered_at_def ran_def)

lemma NewHub_ok: "hub_ok (NewHub cfg)"
  by (simp add: hub_ok_def NewHub_def registered_at_def ran_def)

section \<open>A broadcast, subscriber by subscriber\<close>

definition has_room :: "Subscriber \<Rightarrow> bool" where
  "has_room s \<longleftrightarrow> length (ch_buf (sub_Events s)) < ch_cap (sub_Events s)"

definition offered_sub :: "TelemetryEvent \<Rightarrow> Subscriber \<Rightarrow> Subscriber" where
  "offered_sub ev s =
    (if has_room s then s\<lparr>sub_Events := (sub_Events s)\<lparr>ch_buf := ch_buf (sub_Events s) @ [ev]\<rparr>\<rparr>
     else s\<lparr>sub_dropped := sub_dropped s + 1\<rparr>)"

fun deliverAll :: "TelemetryEvent \<Rightarrow> nat list \<Rightarrow> (Hub, unit) act" where
  "deliverAll ev [] h = (Val (), h)"
| "deliverAll ev (a # as) h = act_then (deliver ev a) (deliverAll ev as) h"

definition addresses :: "string list \<Rightarrow> (string \<Rightarrow> nat option) \<Rightarrow> nat list" where
  "addresses ks d = List.map_filter d ks"

lemma addresses_simps [simp]:
  "addresses [] d = []"
  "addresses (k # ks) d = (case d k of None \<Rightarrow> addresses ks d | Some a \<Rightarrow> a # addresses ks d)"
  by (simp_all add: addresses_def map_filter_simps split: option.split)

lemma deliver_subscribers [simp]: "hub_subscribers (snd (deliver ev a h)) = hub_subscribers h"
  by (simp add: deliver_def Let_def split: go.split prod.split)

lemma broadcastLoop_eq: "broadcastLoop ev ks h = deliverAll ev (addresses ks (hub_subscribers h)) h"
proof (induction ks arbitrary: h)
  case (Cons k ks)
  show ?case
  proof (cases "hub_subscribers h k")
    case (Some a)
    obtain r h1 where d: "deliver ev a h = (r, h1)" by (cases "deliver ev a h")
    then have "hub_subscribers h1 = hub_subscribers h" using deliver_subscribers [of ev a h] by simp
    then show ?thesis using Cons.IH Some d by (cases r) (simp_all add: act_then_def act_bind_def)
  qed (simp add: Cons.IH)
qed simp

definition fanned :: "TelemetryEvent \<Rightarrow> nat list \<Rightarrow> Hub \<Rightarrow> Hub" where
  "fanned ev as h =
    h\<lparr>hub_heap := map (\<lambda>a. if a \<in> set as then offered_sub ev (hub_heap h ! a) else hub_heap h ! a)
        [0..<length (hub_heap h)],
      hub_eventsBroadcast := hub_eventsBroadcast h + of_nat (length (filter (\<lambda>a. has_room (hub_heap h ! a)) as)),
      hub_eventsDropped := hub_eventsDropped h + of_nat (length (filter (\<lambda>a. \<not> has_room (hub_heap h ! a)) as))\<rparr>"

lemma deliver_open:
  assumes "ps_DropOnSlowSubscriber (hub_cfg h)" "live h a"
  shows "deliver ev a h = (Val (), fanned ev [a] h)"
proof -
  have upd: "(hub_heap h)[a := offered_sub ev (hub_heap h ! a)] =
      map (\<lambda>b. if b \<in> set [a] then offered_sub ev (hub_heap h ! b) else hub_heap h ! b) [0..<length (hub_heap h)]"
    using assms(2) by (intro nth_equalityI) (auto simp: nth_list_update live_def)
  show ?thesis
    using assms upd
    by (auto simp: deliver_def Let_def try_send_def live_def open_chan_def fanned_def offered_sub_def has_room_def)
qed

lemma live_fanned: "live h b \<Longrightarrow> live (fanned ev as h) b"
  by (auto simp: live_def fanned_def offered_sub_def open_chan_def chan_ok_def has_room_def)

lemma fanned_Cons:
  assumes "a \<notin> set as" "set as \<subseteq> {..<length (hub_heap h)}"
  shows "fanned ev as (fanned ev [a] h) = fanned ev (a # as) h"
proof -
  let ?h = "fanned ev [a] h"
  have len: "length (hub_heap ?h) = length (hub_heap h)" by (simp add: fanned_def)
  have same: "hub_heap ?h ! b = hub_heap h ! b" if "b \<in> set as" for b
    using that assms by (auto simp: fanned_def)
  have filters: "filter (\<lambda>b. P (hub_heap ?h ! b)) as = filter (\<lambda>b. P (hub_heap h ! b)) as" for P
    using same by (intro filter_cong) auto
  have heap: "map (\<lambda>b. if b \<in> set as then offered_sub ev (hub_heap ?h ! b) else hub_heap ?h ! b) [0..<length (hub_heap h)] =
      map (\<lambda>b. if b \<in> set (a # as) then offered_sub ev (hub_heap h ! b) else hub_heap h ! b) [0..<length (hub_heap h)]"
    using assms(1) same by (intro map_cong) (auto simp: fanned_def)
  show ?thesis
    unfolding fanned_def [of ev as ?h] filters [of has_room] filters [of "\<lambda>s. \<not> has_room s"] len heap
    by (simp add: fanned_def add.assoc)
qed

lemma deliverAll_eq:
  assumes "ps_DropOnSlowSubscriber (hub_cfg h)" "distinct as" "\<forall>a\<in>set as. live h a"
  shows "deliverAll ev as h = (Val (), fanned ev as h)"
  using assms
proof (induction as arbitrary: h)
  case Nil
  have "map ((!) (hub_heap h)) [0..<length (hub_heap h)] = hub_heap h" by (rule map_nth)
  then show ?case by (simp add: fanned_def)
next
  case (Cons a as)
  have d: "deliver ev a h = (Val (), fanned ev [a] h)" using Cons.prems by (intro deliver_open) auto
  have "deliverAll ev as (fanned ev [a] h) = (Val (), fanned ev as (fanned ev [a] h))"
    using Cons.prems by (intro Cons.IH) (auto simp: live_fanned, simp add: fanned_def)
  moreover have "set as \<subseteq> {..<length (hub_heap h)}" using Cons.prems(3) by (auto simp: live_def)
  ultimately show ?case using d Cons.prems(2) by (simp add: act_simps fanned_Cons)
qed

lemma set_addresses: "set (addresses ks d) = {a. \<exists>k\<in>set ks. d k = Some a}"
  by (induction ks) (auto split: option.splits)

lemma distinct_addresses:
  assumes "distinct ks" "\<forall>k k' a. d k = Some a \<and> d k' = Some a \<longrightarrow> k = k'"
  shows "distinct (addresses ks d)"
  using assms(1) by (induction ks) (use assms(2) in \<open>auto simp: set_addresses split: option.splits\<close>)

lemma addresses_dom: "set ks = dom d \<Longrightarrow> set (addresses ks d) = ran d"
  by (auto simp: set_addresses ran_def)

lemma broadcast_eq:
  assumes "hub_ok h" "ps_DropOnSlowSubscriber (hub_cfg h)" "distinct ks" "set ks = dom (hub_subscribers h)"
  shows "broadcast ks ev h = (Val (), fanned ev (addresses ks (hub_subscribers h))
    (h\<lparr>hub_eventsReceived := hub_eventsReceived h + 1\<rparr>))"
proof -
  have "distinct (addresses ks (hub_subscribers h))"
    using assms(1,3) by (intro distinct_addresses) (simp_all add: hub_ok_def)
  moreover have "\<forall>a\<in>set (addresses ks (hub_subscribers h)). live h a"
    using assms(1) addresses_dom [OF assms(4)] by (simp add: hub_ok_def registered_at_def)
  ultimately show ?thesis
    using assms(2) deliverAll_eq [of "h\<lparr>hub_eventsReceived := hub_eventsReceived h + 1\<rparr>"]
    by (simp add: broadcast_def act_simps broadcastLoop_eq live_def)
qed

lemma fanned_ok:
  assumes "hub_ok h"
  shows "hub_ok (fanned ev as h)"
proof -
  have "registered_at (fanned ev as h) a = registered_at h a" for a
    by (simp add: registered_at_def fanned_def)
  moreover have "sub_ID (offered_sub ev s) = sub_ID s" for s by (simp add: offered_sub_def)
  ultimately show ?thesis
    using assms live_fanned unfolding hub_ok_def by (auto simp: fanned_def)
qed

section \<open>Registration\<close>

lemma Subscribe_eq:
  assumes "0 \<le> ps_SubscriberBufferSize (hub_cfg h)"
  shows "\<exists>c. open_chan c \<and> ch_buf c = [] \<and>
    Subscribe name h = (Val (length (hub_heap h)), h\<lparr>hub_nextID := hub_nextID h + 1,
      hub_heap := hub_heap h @ [\<lparr>sub_ID = hub_nextID h + 1, sub_Name = name, sub_Events = c,
        sub_closeOnce = False, sub_dropped = 0\<rparr>],
      hub_subscribers := (hub_subscribers h)
        ((if hub_subscribers h name \<noteq> None then name @ ''_'' @ utf8_rune (rune_of (hub_nextID h + 1))
          else name) \<mapsto> length (hub_heap h))\<rparr>)"
proof -
  let ?c = "\<lparr>ch_buf = [], ch_cap = nat (ps_SubscriberBufferSize (hub_cfg h)), ch_closed = False\<rparr> :: TelemetryEvent chan"
  have "make_chan (ps_SubscriberBufferSize (hub_cfg h)) = Val ?c" using assms by (simp add: make_chan_def)
  then show ?thesis
    by (intro exI [of _ ?c]) (simp add: Subscribe_def Let_def act_simps open_chan_def chan_ok_def)
qed

lemma Subscribe_ok:
  assumes "hub_ok h" "0 \<le> ps_SubscriberBufferSize (hub_cfg h)" "Subscribe name h = (Val a, h')"
  shows "hub_ok h' \<and> a = length (hub_heap h) \<and> registered_at h' a \<and> hub_cfg h' = hub_cfg h"
proof -
  define key where "key = (if hub_subscribers h name \<noteq> None
    then name @ ''_'' @ utf8_rune (rune_of (hub_nextID h + 1)) else name)"
  obtain c where c: "open_chan c" and S: "Subscribe name h = (Val (length (hub_heap h)),
      h\<lparr>hub_nextID := hub_nextID h + 1,
      hub_heap := hub_heap h @ [\<lparr>sub_ID = hub_nextID h + 1, sub_Name = name, sub_Events = c,
        sub_closeOnce = False, sub_dropped = 0\<rparr>],
      hub_subscribers := (hub_subscribers h)(key \<mapsto> length (hub_heap h))\<rparr>)"
    using Subscribe_eq [OF assms(2), of name] by (auto simp: key_def)
  have h': "a = length (hub_heap h)" "hub_nextID h' = hub_nextID h + 1" "hub_cfg h' = hub_cfg h"
    "hub_heap h' = hub_heap h @ [\<lparr>sub_ID = hub_nextID h + 1, sub_Name = name, sub_Events = c,
        sub_closeOnce = False, sub_dropped = 0\<rparr>]"
    "hub_subscribers h' = (hub_subscribers h)(key \<mapsto> length (hub_heap h))"
    using assms(3) S by auto
  have old: "hub_subscribers h k = Some b \<Longrightarrow> live h b" for k b
    using assms(1) by (auto simp: hub_ok_def registered_at_def ran_def)
  have live: "live h' b" if "hub_subscribers h' k = Some b" for k b
    using that old [of k b] c by (auto simp: h' live_def nth_append split: if_splits)
  have "k = k'" if "hub_subscribers h' k = Some b" "hub_subscribers h' k' = Some b" for k k' b
    using that old [of k b] old [of k' b] assms(1) by (auto simp: h' live_def hub_ok_def split: if_splits)
  moreover have "registered_at h' a" by (auto simp: registered_at_def ran_def h')
  moreover have "\<forall>b < length (hub_heap h'). sub_ID (hub_heap h' ! b) = of_nat (Suc b)"
    using assms(1) by (auto simp: h' nth_append hub_ok_def less_Suc_eq)
  moreover have "finite (dom (hub_subscribers h'))" "hub_nextID h' = of_nat (length (hub_heap h'))"
    using assms(1) by (auto simp: h' hub_ok_def)
  ultimately show ?thesis using live h'(1,3) by (auto simp: hub_ok_def registered_at_def ran_def)
qed

text \<open>Unsubscribing takes the subscriber out of the map and closes its channel, once.\<close>

definition closed_sub :: "Subscriber \<Rightarrow> Subscriber" where
  "closed_sub s = s\<lparr>sub_closeOnce := True, sub_Events := (sub_Events s)\<lparr>ch_closed := True\<rparr>\<rparr>"

definition without :: "string \<Rightarrow> nat \<Rightarrow> Hub \<Rightarrow> Hub" where
  "without k a h = h\<lparr>hub_subscribers := (hub_subscribers h)(k := None),
     hub_heap := (hub_heap h)[a := closed_sub (hub_heap h ! a)]\<rparr>"

lemma Subscriber_Close_open:
  assumes "live h a"
  shows "Subscriber_Close a h = (Val (), h\<lparr>hub_heap := (hub_heap h)[a := closed_sub (hub_heap h ! a)]\<rparr>)"
  using assms
  by (simp add: Subscriber_Close_def Let_def live_def close_chan_def open_chan_def put_sub_def act_simps closed_sub_def)

lemma unsubscribeLoop_eq:
  assumes "\<forall>k\<in>set ks. \<forall>b. hub_subscribers h k = Some b \<longrightarrow> (sub_ID (hub_heap h ! b) = sid \<longleftrightarrow> b = a)"
    and "live h a" "\<forall>k k'. hub_subscribers h k = Some a \<and> hub_subscribers h k' = Some a \<longrightarrow> k = k'"
  shows "unsubscribeLoop sid ks h =
    (Val (), case find (\<lambda>k. hub_subscribers h k = Some a) ks of None \<Rightarrow> h | Some k \<Rightarrow> without k a h)"
  using assms(1)
proof (induction ks)
  case (Cons k ks)
  have "Subscriber_Close a (h\<lparr>hub_subscribers := (hub_subscribers h)(k := None)\<rparr>) = (Val (), without k a h)"
    using Subscriber_Close_open [of "h\<lparr>hub_subscribers := (hub_subscribers h)(k := None)\<rparr>" a] assms(2)
    by (simp add: live_def without_def)
  then show ?case using Cons by (auto simp: act_simps split: option.split)
qed simp

lemma find_unique:
  assumes "k \<in> set ks" "P k" "\<And>k'. P k' \<Longrightarrow> k' = k"
  shows "find P ks = Some k"
  using assms(1) by (induction ks) (auto simp: assms(2) dest: assms(3))

lemma Unsubscribe_eq:
  assumes "hub_ok h" "length (hub_heap h) < 2 ^ 64" "set ks = dom (hub_subscribers h)" "hub_subscribers h k = Some a"
  shows "Unsubscribe ks a h = (Val (), without k a h)"
proof -
  have ids: "sub_ID (hub_heap h ! b) = of_nat (Suc b)" if "b < length (hub_heap h)" for b
    using assms(1) that by (simp add: hub_ok_def)
  have a: "live h a" using assms(1,4) by (auto simp: hub_ok_def registered_at_def ran_def)
  have same: "sub_ID (hub_heap h ! b) = sub_ID (hub_heap h ! a) \<longleftrightarrow> b = a" if "hub_subscribers h k' = Some b" for b k'
  proof -
    have b: "b < length (hub_heap h)" using hub_okD [OF assms(1) that] by simp
    have "(of_nat (Suc b) :: uint64) = of_nat (Suc a) \<longleftrightarrow> Suc b = Suc a"
      using a b assms(2) by (simp add: word_of_nat_eq_iff take_bit_nat_eq_self live_def)
    then show ?thesis using ids b a by (simp add: live_def)
  qed
  have found: "find (\<lambda>k. hub_subscribers h k = Some a) ks = Some k"
  proof -
    have "k \<in> set ks" using assms(3,4) by auto
    moreover have "k' = k" if "hub_subscribers h k' = Some a" for k'
      using that assms(1,4) unfolding hub_ok_def by blast
    ultimately show ?thesis using assms(4) find_unique [of k ks "\<lambda>k. hub_subscribers h k = Some a"] by blast
  qed
  have inj: "\<forall>k k'. hub_subscribers h k = Some a \<and> hub_subscribers h k' = Some a \<longrightarrow> k = k'"
    using assms(1) unfolding hub_ok_def by blast
  have "unsubscribeLoop (sub_ID (hub_heap h ! a)) ks h =
      (Val (), case find (\<lambda>k. hub_subscribers h k = Some a) ks of None \<Rightarrow> h | Some k \<Rightarrow> without k a h)"
    using same by (intro unsubscribeLoop_eq [OF _ a inj] ballI allI impI)
  then show ?thesis by (simp add: Unsubscribe_def found)
qed

lemma without_ok:
  assumes "hub_ok h" "hub_subscribers h k = Some a"
  shows "hub_ok (without k a h)"
proof -
  have "live (without k a h) b" if "hub_subscribers (without k a h) k' = Some b" for b k'
  proof -
    have k': "k' \<noteq> k" "hub_subscribers h k' = Some b" using that by (auto simp: without_def split: if_splits)
    then have "b \<noteq> a" using assms unfolding hub_ok_def by blast
    then show ?thesis using hub_okD [OF assms(1) k'(2)] by (simp add: live_def without_def)
  qed
  then have "\<forall>b. registered_at (without k a h) b \<longrightarrow> live (without k a h) b"
    by (auto simp: registered_at_def ran_def)
  moreover have "\<forall>b < length (hub_heap (without k a h)). sub_ID (hub_heap (without k a h) ! b) = of_nat (Suc b)"
    using assms(1) hub_okD(1) [OF assms] by (auto simp: hub_ok_def without_def nth_list_update closed_sub_def)
  ultimately show ?thesis
    using assms(1) by (auto simp: hub_ok_def without_def split: if_splits)
qed

section \<open>Runs of the hub\<close>

text \<open>
  The hub's goroutine broadcasts, the owner of a subscriber receives from its channel, components
  subscribe and unsubscribe; each broadcast and each change of the map holds the lock.
\<close>

datatype hub_op = HBroadcast TelemetryEvent | HRecv nat | HSubscribe string | HUnsubscribe nat

definition take_one :: "nat \<Rightarrow> TelemetryEvent chan \<Rightarrow> Hub \<Rightarrow> Hub" where
  "take_one a c h = h\<lparr>hub_heap := (hub_heap h)[a := (hub_heap h ! a)\<lparr>sub_Events := c\<rparr>]\<rparr>"

inductive hub_step :: "Hub \<Rightarrow> hub_op \<Rightarrow> Hub \<Rightarrow> bool" where
  step_broadcast: "distinct ks \<Longrightarrow> set ks = dom (hub_subscribers h) \<Longrightarrow>
    hub_step h (HBroadcast ev) (snd (recovered (broadcast ks ev) h))"
| step_recv: "a < length (hub_heap h) \<Longrightarrow> recv (sub_Events (hub_heap h ! a)) = Some (x, c) \<Longrightarrow>
    hub_step h (HRecv a) (take_one a c h)"
| step_subscribe: "Subscribe name h = (Val a, h') \<Longrightarrow> hub_step h (HSubscribe name) h'"
| step_unsubscribe: "a < length (hub_heap h) \<Longrightarrow> hub_subscribers h k = Some a \<Longrightarrow>
    distinct ks \<Longrightarrow> set ks = dom (hub_subscribers h) \<Longrightarrow>
    hub_step h (HUnsubscribe a) (snd (recovered (Unsubscribe ks a) h))"

inductive_cases hub_step_broadcastE: "hub_step h (HBroadcast ev) h'"
inductive_cases hub_step_recvE: "hub_step h (HRecv a) h'"
inductive_cases hub_step_subscribeE: "hub_step h (HSubscribe name) h'"
inductive_cases hub_step_unsubscribeE: "hub_step h (HUnsubscribe a) h'"

text \<open>What the steps need of the configuration and of the number of subscriptions made.\<close>

definition hub_sane :: "Hub \<Rightarrow> bool" where
  "hub_sane h \<longleftrightarrow> hub_ok h \<and> ps_DropOnSlowSubscriber (hub_cfg h) \<and> 0 \<le> ps_SubscriberBufferSize (hub_cfg h)"

lemma recv_open: "recv c = Some (x, c') \<Longrightarrow> open_chan c \<Longrightarrow> open_chan c'"
  by (auto simp: recv_def open_chan_def chan_ok_def split: list.splits if_splits)

lemma take_one_ok:
  assumes "hub_ok h" "a < length (hub_heap h)" "recv (sub_Events (hub_heap h ! a)) = Some (x, c)"
  shows "hub_ok (take_one a c h)"
proof -
  have "live (take_one a c h) b" if "live h b" for b
    using that recv_open [OF assms(3)] by (cases "b = a") (auto simp: live_def take_one_def)
  moreover have "registered_at (take_one a c h) b = registered_at h b" for b
    by (simp add: registered_at_def take_one_def)
  moreover have "\<forall>b < length (hub_heap (take_one a c h)). sub_ID (hub_heap (take_one a c h) ! b) = of_nat (Suc b)"
    using assms(1,2) by (auto simp: take_one_def hub_ok_def nth_list_update)
  ultimately show ?thesis using assms(1) by (auto simp: hub_ok_def take_one_def)
qed

lemma recovered_broadcast:
  "hub_sane h \<Longrightarrow> distinct ks \<Longrightarrow> set ks = dom (hub_subscribers h) \<Longrightarrow>
     snd (recovered (broadcast ks ev) h) =
       fanned ev (addresses ks (hub_subscribers h)) (h\<lparr>hub_eventsReceived := hub_eventsReceived h + 1\<rparr>)"
  by (simp add: recovered_def broadcast_eq hub_sane_def)

lemma hub_ok_received [simp]: "hub_ok (h\<lparr>hub_eventsReceived := n\<rparr>) = hub_ok h"
  by (simp add: hub_ok_def registered_at_def live_def)

lemma hub_step_sane:
  assumes "hub_step h op h'" "hub_sane h" "length (hub_heap h) < 2 ^ 64"
  shows "hub_sane h'"
  using assms
proof (induction rule: hub_step.induct)
  case (step_broadcast ks h ev)
  then show ?case
    using fanned_ok [of "h\<lparr>hub_eventsReceived := hub_eventsReceived h + 1\<rparr>"]
    by (simp add: recovered_broadcast) (simp add: hub_sane_def, simp add: fanned_def)
next
  case (step_recv a h x c)
  then show ?case using take_one_ok by (auto simp: hub_sane_def) (simp_all add: take_one_def)
next
  case (step_subscribe name h a h')
  then show ?case using Subscribe_ok [of h name a h'] by (simp add: hub_sane_def)
next
  case (step_unsubscribe a h k ks)
  then have "snd (recovered (Unsubscribe ks a) h) = without k a h"
    by (simp add: recovered_def Unsubscribe_eq hub_sane_def)
  then show ?case using step_unsubscribe without_ok [of h k a] by (simp add: hub_sane_def) (simp add: without_def)
qed

text \<open>A run during which the subscriber \<open>a\<close> stays registered.\<close>

inductive watched :: "nat \<Rightarrow> Hub \<Rightarrow> hub_op list \<Rightarrow> Hub \<Rightarrow> bool" for a where
  watched_nil: "registered_at h a \<Longrightarrow> watched a h [] h"
| watched_cons: "registered_at h a \<Longrightarrow> length (hub_heap h) < 2 ^ 64 \<Longrightarrow> hub_step h op h1 \<Longrightarrow>
    watched a h1 ops h2 \<Longrightarrow> watched a h (op # ops) h2"

text \<open>What the run does to the channel of \<open>a\<close>.\<close>

fun sub_ops :: "nat \<Rightarrow> hub_op list \<Rightarrow> TelemetryEvent queue_op list" where
  "sub_ops a [] = []"
| "sub_ops a (HBroadcast ev # ops) = Offer ev # sub_ops a ops"
| "sub_ops a (HRecv b # ops) = (if b = a then Poll # sub_ops a ops else sub_ops a ops)"
| "sub_ops a (HSubscribe name # ops) = sub_ops a ops"
| "sub_ops a (HUnsubscribe b # ops) = sub_ops a ops"

fun broadcasts :: "hub_op list \<Rightarrow> TelemetryEvent list" where
  "broadcasts [] = []"
| "broadcasts (HBroadcast ev # ops) = ev # broadcasts ops"
| "broadcasts (_ # ops) = broadcasts ops"

lemma offered_sub_ops [simp]: "offered (sub_ops a ops) = broadcasts ops"
  by (induction a ops rule: sub_ops.induct) simp_all

text \<open>The effect of one step on the subscriber \<open>a\<close>, as operations of its channel.\<close>

definition chan_of :: "Hub \<Rightarrow> nat \<Rightarrow> TelemetryEvent chan" where
  "chan_of h a = sub_Events (hub_heap h ! a)"

definition drops_of :: "Hub \<Rightarrow> nat \<Rightarrow> uint64" where
  "drops_of h a = sub_dropped (hub_heap h ! a)"

lemma step_on_subscriber:
  assumes "hub_step h op h'" "hub_sane h" "length (hub_heap h) < 2 ^ 64" "registered_at h a" "registered_at h' a"
  shows "\<exists>t. run_ops try_send recv (sub_ops a [op]) (chan_of h a) = Val (chan_of h' a, t) \<and>
    drops_of h' a = drops_of h a + of_nat (length (tr_refused t))"
  using assms
proof (induction rule: hub_step.induct)
  case (step_broadcast ks h ev)
  let ?h = "h\<lparr>hub_eventsReceived := hub_eventsReceived h + 1\<rparr>"
  have "a \<in> set (addresses ks (hub_subscribers h))"
    using step_broadcast by (simp add: addresses_dom registered_at_def)
  moreover have l: "live h a" using step_broadcast by (simp add: hub_sane_def hub_ok_def)
  ultimately have "hub_heap (snd (recovered (broadcast ks ev) h)) ! a = offered_sub ev (hub_heap h ! a)"
    using step_broadcast by (simp add: recovered_broadcast) (simp add: fanned_def live_def)
  then show ?case
    using l by (auto simp: chan_of_def drops_of_def live_def open_chan_def try_send_def offered_sub_def has_room_def)
next
  case (step_recv b h x c)
  show ?case
  proof (cases "b = a")
    case True
    have "open_chan (chan_of h a)" using step_recv by (simp add: hub_sane_def hub_ok_def live_def chan_of_def)
    then obtain y where "x = Some y"
      using step_recv True by (auto simp: recv_def chan_of_def open_chan_def split: list.splits)
    then show ?thesis
      using step_recv True by (auto simp: chan_of_def drops_of_def take_one_def)
  next
    case False
    then show ?thesis by (simp add: chan_of_def drops_of_def take_one_def)
  qed
next
  case (step_subscribe name h b h')
  obtain s m where S: "Subscribe name h = (Val (length (hub_heap h)), h\<lparr>hub_nextID := hub_nextID h + 1,
      hub_heap := hub_heap h @ [s], hub_subscribers := m\<rparr>)"
    using Subscribe_eq [of h name] step_subscribe by (auto simp: hub_sane_def)
  moreover have "a < length (hub_heap h)" using step_subscribe by (simp add: hub_sane_def hub_ok_def live_def)
  ultimately show ?case
    using step_subscribe by (auto simp: chan_of_def drops_of_def nth_append)
next
  case (step_unsubscribe b h k ks)
  then have w: "snd (recovered (Unsubscribe ks b) h) = without k b h"
    by (simp add: recovered_def Unsubscribe_eq hub_sane_def)
  then have "a \<noteq> b"
    using step_unsubscribe unfolding hub_sane_def hub_ok_def registered_at_def ran_def without_def
    by (auto split: if_splits)
  then show ?case unfolding w by (simp add: chan_of_def drops_of_def without_def)
qed

lemma sub_ops_Cons: "sub_ops a (op # ops) = sub_ops a [op] @ sub_ops a ops"
  by (cases op) simp_all

end
