(* ===== verification/Hub_Theorems.thy ===== *)
theory Hub_Theorems
  imports Hub_Correct
begin

text \<open>
  The properties of the hub: the stream of events every subscriber sees, the accounting of a
  broadcast, the supervised goroutine, the cost of the blocking mode, and shutdown.
\<close>

section \<open>A hub with one subscriber\<close>

definition sample_hub :: Hub where
  "sample_hub = snd (Subscribe ''ws'' (NewHub \<lparr>ps_SubscriberBufferSize = 1, ps_DropOnSlowSubscriber = True\<rparr>))"

definition hub_event :: "nat \<Rightarrow> TelemetryEvent" where
  "hub_event n = \<lparr>ev_DroneID = \<lparr>SystemID = 1, ComponentID = 1\<rparr>, ev_MessageID = 0, ev_Timestamp = int n,
     ev_SourceAddr = [], ev_Payload = PRaw []\<rparr>"

lemma sample_hub_eq:
  "sample_hub = \<lparr>hub_cfg = \<lparr>ps_SubscriberBufferSize = 1, ps_DropOnSlowSubscriber = True\<rparr>,
     hub_heap = [\<lparr>sub_ID = 1, sub_Name = ''ws'', sub_Events = \<lparr>ch_buf = [], ch_cap = 1, ch_closed = False\<rparr>,
       sub_closeOnce = False, sub_dropped = 0\<rparr>],
     hub_subscribers = [''ws'' \<mapsto> 0], hub_nextID = 1, hub_done = False,
     hub_eventsReceived = 0, hub_eventsBroadcast = 0, hub_eventsDropped = 0\<rparr>"
  by (simp add: sample_hub_def Subscribe_def NewHub_def Let_def make_chan_def act_simps)

lemma sample_hub_sane: "hub_sane sample_hub" "registered_at sample_hub 0"
  by (simp_all add: hub_sane_def hub_ok_def sample_hub_eq registered_at_def live_def open_chan_def chan_ok_def)

section \<open>The stream of a subscriber\<close>

lemma watched_registered: "watched a h ops h' \<Longrightarrow> registered_at h a"
  by (cases rule: watched.cases) auto

lemma watched_channel:
  assumes "watched a h ops h'" "hub_sane h"
  shows "\<exists>t. run_ops try_send recv (sub_ops a ops) (chan_of h a) = Val (chan_of h' a, t) \<and>
    drops_of h' a = drops_of h a + of_nat (length (tr_refused t))"
  using assms
proof (induction rule: watched.induct)
  case (watched_nil h)
  then show ?case by simp
next
  case (watched_cons h op h1 ops h2)
  obtain t where t: "run_ops try_send recv (sub_ops a [op]) (chan_of h a) = Val (chan_of h1 a, t)"
    "drops_of h1 a = drops_of h a + of_nat (length (tr_refused t))"
    using step_on_subscriber [OF watched_cons.hyps(3) watched_cons.prems watched_cons.hyps(2,1)
        watched_registered [OF watched_cons.hyps(4)]] by blast
  obtain u where "run_ops try_send recv (sub_ops a ops) (chan_of h1 a) = Val (chan_of h2 a, u)"
    "drops_of h2 a = drops_of h1 a + of_nat (length (tr_refused u))"
    using watched_cons.IH hub_step_sane [OF watched_cons.hyps(3) watched_cons.prems watched_cons.hyps(2)] by blast
  then show ?case
    using t run_ops_append [OF t(1)] by (subst sub_ops_Cons) (auto simp: join_traffic_def)
qed

text \<open>
  C6: over any run in which a subscriber stays registered, its owner receives, and finds buffered,
  what was buffered before followed by a subsequence of the broadcast events in their order, and
  exactly the missing ones are counted in its drop counter (modulo \<open>2 ^ 64\<close>); other subscribers
  joining, leaving or stalling make no difference.
\<close>

theorem subscriber_stream:
  assumes "watched a h ops h'" "hub_sane h"
  shows "\<exists>t. run_ops try_send recv (sub_ops a ops) (chan_of h a) = Val (chan_of h' a, t) \<and>
    accounts_for (ch_buf (chan_of h a)) (broadcasts ops) t (ch_buf (chan_of h' a)) \<and>
    drops_of h' a = drops_of h a + of_nat (length (tr_refused t))"
proof -
  have "live h a" using watched_registered [OF assms(1)] assms(2) by (simp add: hub_sane_def hub_ok_def)
  then have "open_chan (chan_of h a)" by (simp add: live_def chan_of_def)
  then show ?thesis
    using watched_channel [OF assms] channel_fifo [of "chan_of h a" "sub_ops a ops"] by auto
qed

lemma sample_hub_broadcast:
  "hub_step sample_hub (HBroadcast ev) (snd (recovered (broadcast [''ws''] ev) sample_hub))"
  by (rule step_broadcast) (auto simp: sample_hub_eq)

lemma sample_hub_after:
  "snd (recovered (broadcast [''ws''] ev) sample_hub) =
    sample_hub\<lparr>hub_heap := [(hub_heap sample_hub ! 0)\<lparr>sub_Events := \<lparr>ch_buf = [ev], ch_cap = 1, ch_closed = False\<rparr>\<rparr>],
      hub_eventsReceived := 1, hub_eventsBroadcast := 1\<rparr>"
  by (simp add: recovered_def broadcast_def act_simps sample_hub_eq deliver_def try_send_def)

theorem subscriber_stream_witness:
  "\<exists>t. run_ops try_send recv [Offer (hub_event 1)] \<lparr>ch_buf = [], ch_cap = 1, ch_closed = False\<rparr> =
      Val (\<lparr>ch_buf = [hub_event 1], ch_cap = 1, ch_closed = False\<rparr>, t) \<and>
    accounts_for [] [hub_event 1] t [hub_event 1]"
proof -
  have "watched 0 sample_hub [HBroadcast (hub_event 1)] (snd (recovered (broadcast [''ws''] (hub_event 1)) sample_hub))"
    by (rule watched_cons [OF sample_hub_sane(2) _ sample_hub_broadcast], simp add: sample_hub_eq, rule watched_nil)
      (simp add: sample_hub_after, simp add: sample_hub_eq registered_at_def)
  from subscriber_stream [OF this sample_hub_sane(1)] show ?thesis
    unfolding sample_hub_after by (auto simp: chan_of_def sample_hub_eq)
qed

section \<open>Accounting\<close>

lemma length_addresses: "set ks = dom d \<Longrightarrow> length (addresses ks d) = length ks"
proof -
  have "set ks \<subseteq> dom d \<Longrightarrow> length (addresses ks d) = length ks" by (induction ks) auto
  then show "set ks = dom d \<Longrightarrow> length (addresses ks d) = length ks" by simp
qed

text \<open>
  C32: with dropping enabled a broadcast returns, whatever the subscribers do: it counts one event
  received, delivers it at the end of every registered buffer with room, and counts a drop for
  every other one, so that the counters of deliveries and drops grow together by the number of
  subscribers.
\<close>

theorem broadcast_accounted:
  assumes "hub_sane h" "distinct ks" "set ks = dom (hub_subscribers h)"
  shows "\<exists>h'. broadcast ks ev h = (Val (), h') \<and> hub_sane h' \<and>
    hub_eventsReceived h' = hub_eventsReceived h + 1 \<and>
    hub_eventsBroadcast h' + hub_eventsDropped h' =
      hub_eventsBroadcast h + hub_eventsDropped h + of_nat (card (dom (hub_subscribers h))) \<and>
    (\<forall>a. registered_at h a \<longrightarrow>
      (if has_room (hub_heap h ! a) then ch_buf (chan_of h' a) = ch_buf (chan_of h a) @ [ev]
       else ch_buf (chan_of h' a) = ch_buf (chan_of h a) \<and> drops_of h' a = drops_of h a + 1))"
proof -
  let ?as = "addresses ks (hub_subscribers h)"
  let ?h = "fanned ev ?as (h\<lparr>hub_eventsReceived := hub_eventsReceived h + 1\<rparr>)"
  have b: "broadcast ks ev h = (Val (), ?h)"
    using assms by (intro broadcast_eq) (simp_all add: hub_sane_def)
  have "hub_sane ?h"
    using assms(1) fanned_ok [of "h\<lparr>hub_eventsReceived := hub_eventsReceived h + 1\<rparr>"]
    by (simp add: hub_sane_def) (simp add: fanned_def)
  moreover have "length (filter P ?as) + length (filter (\<lambda>a. \<not> P a) ?as) = card (dom (hub_subscribers h))" for P
    using sum_length_filter_compl [of P ?as] length_addresses [OF assms(3)] distinct_card [OF assms(2)] assms(3)
    by simp
  then have "hub_eventsBroadcast ?h + hub_eventsDropped ?h =
      hub_eventsBroadcast h + hub_eventsDropped h + of_nat (card (dom (hub_subscribers h)))"
    by (simp add: fanned_def flip: of_nat_add)
  moreover have "hub_heap ?h ! a = offered_sub ev (hub_heap h ! a)" if "registered_at h a" for a
  proof -
    have "a < length (hub_heap h)" using that assms(1) by (simp add: hub_sane_def hub_ok_def live_def)
    then show ?thesis using that addresses_dom [OF assms(3)] by (simp add: fanned_def registered_at_def)
  qed
  then have "\<forall>a. registered_at h a \<longrightarrow>
      (if has_room (hub_heap h ! a) then ch_buf (chan_of ?h a) = ch_buf (chan_of h a) @ [ev]
       else ch_buf (chan_of ?h a) = ch_buf (chan_of h a) \<and> drops_of ?h a = drops_of h a + 1)"
    by (simp add: chan_of_def drops_of_def offered_sub_def)
  moreover have "hub_eventsReceived ?h = hub_eventsReceived h + 1" by (simp add: fanned_def)
  ultimately show ?thesis using b by blast
qed

theorem broadcast_accounted_witness:
  "\<exists>h'. broadcast [''ws''] (hub_event 1) sample_hub = (Val (), h') \<and>
    hub_eventsBroadcast h' + hub_eventsDropped h' = 1 \<and> hub_eventsReceived h' = 1"
proof -
  obtain h' where "broadcast [''ws''] (hub_event 1) sample_hub = (Val (), h')"
    "hub_eventsBroadcast h' + hub_eventsDropped h' = hub_eventsBroadcast sample_hub +
       hub_eventsDropped sample_hub + of_nat (card (dom (hub_subscribers sample_hub)))"
    "hub_eventsReceived h' = hub_eventsReceived sample_hub + 1"
    using broadcast_accounted [OF sample_hub_sane(1), of "[''ws'']" "hub_event 1"] by (auto simp: sample_hub_eq)
  then show ?thesis by (intro exI [of _ h']) (simp add: sample_hub_eq)
qed

section \<open>The goroutine\<close>

lemma deliverAll_sane:
  assumes "hub_sane h" "\<forall>a\<in>set as. live h a"
  shows "\<exists>h'. deliverAll ev as h = (Val (), h') \<and> hub_sane h'"
  using assms
proof (induction as arbitrary: h)
  case (Cons a as)
  have d: "deliver ev a h = (Val (), fanned ev [a] h)"
    using Cons.prems by (intro deliver_open) (auto simp: hub_sane_def)
  have "hub_sane (fanned ev [a] h)"
    using Cons.prems(1) fanned_ok [of h ev "[a]"] by (simp add: hub_sane_def) (simp add: fanned_def)
  then obtain h' where "deliverAll ev as (fanned ev [a] h) = (Val (), h')" "hub_sane h'"
    using Cons.IH [of "fanned ev [a] h"] Cons.prems(2) live_fanned by auto
  then show ?case using d by (simp add: act_simps)
qed simp

lemma broadcast_sane:
  assumes "hub_sane h"
  shows "\<exists>h'. broadcast ks ev h = (Val (), h') \<and> hub_sane h'"
proof -
  let ?h = "h\<lparr>hub_eventsReceived := hub_eventsReceived h + 1\<rparr>"
  have "\<forall>a\<in>set (addresses ks (hub_subscribers h)). live ?h a"
    using assms by (auto simp: set_addresses hub_sane_def hub_ok_def registered_at_def ran_def live_def)
  moreover have "hub_sane ?h" using assms by (simp add: hub_sane_def)
  ultimately show ?thesis
    using deliverAll_sane [of ?h "addresses ks (hub_subscribers h)" ev]
    by (simp add: broadcast_def act_simps broadcastLoop_eq)
qed

interpretation hub_service: service hub_sane "\<lambda>(ks, event). broadcast ks event"
proof
  fix h :: Hub and x :: "string list \<times> TelemetryEvent"
  assume "hub_sane h"
  then obtain h' where "broadcast (fst x) (snd x) h = (Val (), h')" "hub_sane h'" using broadcast_sane by blast
  then show "fst ((case x of (ks, event) \<Rightarrow> broadcast ks event) h) \<noteq> Diverge"
    "hub_sane (snd ((case x of (ks, event) \<Rightarrow> broadcast ks event) h))"
    by (simp_all add: split_def)
qed

text \<open>
  The hub's goroutine, with dropping enabled, broadcasts every event its select receives
  before the shutdown, in order and once each; it never stops early, and the hub stays sane.
\<close>

theorem hub_handles_all:
  assumes "hub_sane h"
  shows "hub_run sels h = fold (\<lambda>(ks, ev) h. snd (broadcast ks ev h)) (items_until sels) h \<and> hub_sane (hub_run sels h)"
  using hub_service.supervised_handles_all [OF assms, of sels] hub_service.supervised_ok [OF assms, of sels]
  by (simp add: hub_run_def split_def)

theorem hub_handles_all_witness:
  "hub_sane (hub_run [Received ([''ws''], hub_event 1), Shutdown] sample_hub)"
  by (rule hub_handles_all [OF sample_hub_sane(1), THEN conjunct2])

section \<open>The blocking mode\<close>

lemma deliver_blocking:
  assumes "\<not> ps_DropOnSlowSubscriber (hub_cfg h)" "live h a"
  shows "if has_room (hub_heap h ! a)
    then \<exists>h'. deliver ev a h = (Val (), h') \<and> hub_cfg h' = hub_cfg h \<and>
      (\<forall>b. b \<noteq> a \<longrightarrow> hub_heap h' ! b = hub_heap h ! b) \<and> length (hub_heap h') = length (hub_heap h)
    else deliver ev a h = (Diverge, h)"
  using assms by (auto simp: deliver_def Let_def block_send_def live_def open_chan_def has_room_def)

lemma deliverAll_blocks:
  assumes "\<not> ps_DropOnSlowSubscriber (hub_cfg h)" "distinct as" "\<forall>a\<in>set as. live h a"
    "a \<in> set as" "\<not> has_room (hub_heap h ! a)"
  shows "fst (deliverAll ev as h) = Diverge"
  using assms
proof (induction as arbitrary: h)
  case (Cons b as)
  have b: "live h b" using Cons.prems by simp
  show ?case
  proof (cases "has_room (hub_heap h ! b)")
    case True
    then obtain h1 where h1: "deliver ev b h = (Val (), h1)" "hub_cfg h1 = hub_cfg h"
      "\<forall>c. c \<noteq> b \<longrightarrow> hub_heap h1 ! c = hub_heap h ! c" "length (hub_heap h1) = length (hub_heap h)"
      using deliver_blocking [OF Cons.prems(1) b, of ev] by auto
    have "\<forall>c\<in>set as. live h1 c" using Cons.prems h1 by (auto simp: live_def)
    moreover have "a \<noteq> b" using True Cons.prems by auto
    ultimately have "fst (deliverAll ev as h1) = Diverge"
      using Cons.prems h1 by (intro Cons.IH) auto
    then show ?thesis using h1(1) by (simp add: act_simps)
  next
    case False
    then have "deliver ev b h = (Diverge, h)" using deliver_blocking [OF Cons.prems(1) b, of ev] by simp
    then show ?thesis by (simp add: act_then_def act_bind_def)
  qed
qed simp

text \<open>
  C33: with dropping disabled, one registered subscriber that stopped reading blocks the hub: once
  its buffer is full the broadcast does not return, whoever else is registered.
\<close>

theorem blocking_hub_stalls:
  assumes "hub_ok h" "\<not> ps_DropOnSlowSubscriber (hub_cfg h)" "distinct ks" "set ks = dom (hub_subscribers h)"
    and "registered_at h a" "\<not> has_room (hub_heap h ! a)"
  shows "fst (broadcast ks ev h) = Diverge"
proof -
  let ?h = "h\<lparr>hub_eventsReceived := hub_eventsReceived h + 1\<rparr>" and ?as = "addresses ks (hub_subscribers h)"
  have "distinct ?as" using assms(1,3) by (intro distinct_addresses) (simp_all add: hub_ok_def)
  moreover have "set ?as = ran (hub_subscribers h)" by (rule addresses_dom [OF assms(4)])
  ultimately have "fst (deliverAll ev ?as ?h) = Diverge"
    using assms by (intro deliverAll_blocks [of ?h ?as a]) (auto simp: hub_ok_def registered_at_def live_def)
  then show ?thesis by (simp add: broadcast_def act_simps broadcastLoop_eq)
qed

definition stalled_hub :: Hub where
  "stalled_hub = sample_hub\<lparr>hub_cfg := \<lparr>ps_SubscriberBufferSize = 1, ps_DropOnSlowSubscriber = False\<rparr>,
     hub_heap := [(hub_heap sample_hub ! 0)\<lparr>sub_Events := \<lparr>ch_buf = [hub_event 1], ch_cap = 1, ch_closed = False\<rparr>\<rparr>]\<rparr>"

theorem blocking_hub_stalls_witness: "fst (broadcast [''ws''] (hub_event 2) stalled_hub) = Diverge"
  by (rule blocking_hub_stalls [where a = 0])
    (simp_all add: stalled_hub_def sample_hub_eq hub_ok_def registered_at_def live_def open_chan_def chan_ok_def
      has_room_def)

end
