(* ===== verification/Crc.thy ===== *)
theory Crc
  imports Protocol
begin

text \<open>
  \<^verbatim>\<open>internal/mavlink/crc.go\<close>: the seed table, the byte-wise update and the checksum loop, and
  their correctness: the shift-and-xor update equals the bit-serial CRC-16/MCRF4XX (reflected
  polynomial \<open>0x8408\<close>), it is injective in the register and in the data byte, and therefore the
  checksum changes whenever one byte of a buffer does.
\<close>

section \<open>The code\<close>

definition crcSeed :: "uint32 \<Rightarrow> byte option" where
  "crcSeed msgID =
     (if msgID = 0 then Some 50
      else if msgID = 1 then Some 124
      else if msgID = 24 then Some 24
      else if msgID = 30 then Some 39
      else if msgID = 33 then Some 104
      else if msgID = 147 then Some 154
      else if msgID = 245 then Some 130
      else None)"

definition crcAccumulate :: "byte \<Rightarrow> uint16 \<Rightarrow> uint16" where
  "crcAccumulate b crc =
     (let tmp = ucast b XOR (crc AND 0xFF);
          tmp = tmp XOR (push_bit 4 tmp AND 0xFF)
      in drop_bit 8 crc XOR push_bit 8 tmp XOR push_bit 3 tmp XOR drop_bit 4 tmp)"

fun crcLoop :: "byte list \<Rightarrow> uint16 \<Rightarrow> uint16" where
  "crcLoop [] crc = crc"
| "crcLoop (b # buf) crc = crcLoop buf (crcAccumulate b crc)"

definition crcCalculate :: "byte list \<Rightarrow> byte \<Rightarrow> uint16" where
  "crcCalculate buf seed = crcAccumulate seed (crcLoop buf 0xFFFF)"

section \<open>The bit-serial reference\<close>

text \<open>
  The checksum as its standard states it: per bit, shift right and xor the reflected polynomial
  when the bit shifted out is set; per byte, xor the byte into the low half and do eight bits.
\<close>

definition crc_bit :: "uint16 \<Rightarrow> uint16" where
  "crc_bit r = drop_bit 1 r XOR (if bit r 0 then 0x8408 else 0)"

definition crc_byte_ref :: "byte \<Rightarrow> uint16 \<Rightarrow> uint16" where
  "crc_byte_ref b r =
     (let r = r XOR ucast b
      in crc_bit (crc_bit (crc_bit (crc_bit (crc_bit (crc_bit (crc_bit (crc_bit r))))))))"

fun crc_ref :: "byte list \<Rightarrow> uint16 \<Rightarrow> uint16" where
  "crc_ref [] r = r"
| "crc_ref (b # bs) r = crc_ref bs (crc_byte_ref b r)"

section \<open>The update bit by bit\<close>

text \<open>Both updates depend on the byte and the register only through their xor.\<close>

definition crc_core :: "uint16 \<Rightarrow> uint16" where
  "crc_core w =
     (let t = w AND 0xFF; t = t XOR (push_bit 4 t AND 0xFF)
      in drop_bit 8 w XOR push_bit 8 t XOR push_bit 3 t XOR drop_bit 4 t)"

lemma word16_eqI:
  assumes "\<And>n. n \<in> {0,1,2,3,4,5,6,7,8,9,10,11,12,13,14,15} \<Longrightarrow> bit (x::uint16) n = bit y n"
  shows "x = y"
proof (rule bit_eqI)
  fix n
  show "bit x n = bit y n"
  proof (cases "n < 16")
    case True
    then have "n \<in> {0,1,2,3,4,5,6,7,8,9,10,11,12,13,14,15}"
      by (auto simp: less_Suc_eq numeral_eq_Suc)
    then show ?thesis by (rule assms)
  qed (auto dest: bit_imp_le_length)
qed

lemma bit_beyond: "16 \<le> n \<Longrightarrow> \<not> bit (r :: uint16) n"
  by (auto dest: bit_imp_le_length)

lemma bit_beyond_byte: "8 \<le> n \<Longrightarrow> \<not> bit (r :: byte) n"
  by (auto dest: bit_imp_le_length)

lemma bit_0xFF: "bit (0xFF :: uint16) n \<longleftrightarrow> n < 8"
  using bit_mask_iff [of 8 n, where 'a = uint16] by (auto simp: mask_eq_exp_minus_1)

lemma bit_0xFF_int: "bit (0xFF :: int) n \<longleftrightarrow> n < 8"
  using bit_mask_iff [of 8 n, where 'a = int] by (auto simp: mask_eq_exp_minus_1)

lemma bit_crc_bit:
  assumes "n < 16"
  shows "bit (crc_bit r) n \<longleftrightarrow> (bit r (Suc n) \<noteq> (bit r 0 \<and> (n = 3 \<or> n = 10 \<or> n = 15)))"
proof -
  have "bit (0x8408 :: uint16) n \<longleftrightarrow> n = 3 \<or> n = 10 \<or> n = 15"
    using assms by (simp add: less_Suc_eq eval_nat_numeral) auto
  then show ?thesis using assms by (auto simp: crc_bit_def bit_simps)
qed

lemmas crc_core_bits = crc_core_def Let_def bit_simps bit_0xFF bit_beyond

lemma drop_bit_ucast_byte: "drop_bit 8 (ucast (b :: byte) :: uint16) = 0"
  by (rule bit_eqI) (simp add: bit_simps bit_beyond_byte)

lemma ucast_byte_and_0xFF: "ucast (b :: byte) AND (0xFF :: uint16) = ucast b"
  by (rule bit_eqI) (auto simp: bit_simps bit_0xFF_int dest: bit_imp_le_length)

lemma crcAccumulate_core: "crcAccumulate b crc = crc_core (crc XOR ucast b)"
proof -
  have "ucast b XOR (crc AND 0xFF) = (crc XOR ucast b) AND 0xFF"
    by (rule bit_eqI) (auto simp: bit_simps bit_0xFF_int dest: bit_imp_le_length)
  moreover have "drop_bit 8 (crc XOR ucast b) = drop_bit 8 crc"
    by (simp add: drop_bit_ucast_byte)
  ultimately show ?thesis by (simp only: crcAccumulate_def crc_core_def Let_def)
qed

lemma crc_core_serial:
  "crc_core w = crc_bit (crc_bit (crc_bit (crc_bit (crc_bit (crc_bit (crc_bit (crc_bit w)))))))"
  apply (rule word16_eqI)
  apply (unfold insert_iff empty_iff)
  apply (elim disjE; simp add: crc_core_bits; simp add: bit_crc_bit bit_beyond)
  apply (simp_all add: eval_nat_numeral)
  apply (argo | blast)+
  done

lemma crc_core_inj: "crc_core x = crc_core y \<Longrightarrow> x = y"
proof -
  assume "crc_core x = crc_core y"
  then have e: "bit (crc_core x) n = bit (crc_core y) n" for n by simp
  show "x = y"
    apply (rule word16_eqI)
    using e [of 0] e [of 1] e [of 2] e [of 3] e [of 4] e [of 5] e [of 6] e [of 7]
      e [of 8] e [of 9] e [of 10] e [of 11] e [of 12] e [of 13] e [of 14] e [of 15]
    apply (simp add: crc_core_bits)
    apply (elim disjE; simp)
    apply argo+
    done
qed

text \<open>The high half of the result determines the low half of the input.\<close>

lemma crc_core_high:
  assumes "drop_bit 8 (crc_core x) = drop_bit 8 (crc_core y)"
  shows "take_bit 8 x = take_bit 8 y"
proof -
  have e: "bit (crc_core x) (8 + n) = bit (crc_core y) (8 + n)" for n
  proof -
    have "bit (drop_bit 8 (crc_core x)) n = bit (drop_bit 8 (crc_core y)) n" by (simp only: assms)
    then show ?thesis by (simp only: bit_drop_bit_eq comp_def)
  qed
  show ?thesis
    apply (rule word16_eqI)
    using e [of 0] e [of 1] e [of 2] e [of 3] e [of 4] e [of 5] e [of 6] e [of 7]
    apply (simp add: crc_core_bits)
    apply (elim disjE; simp add: bit_take_bit_iff)
    apply argo+
    done
qed

section \<open>Correctness\<close>

lemma crcAccumulate_ref: "crcAccumulate b r = crc_byte_ref b r"
  by (simp add: crcAccumulate_core crc_core_serial crc_byte_ref_def)

lemma crcLoop_ref: "crcLoop bs r = crc_ref bs r"
  by (induction bs arbitrary: r) (simp_all add: crcAccumulate_ref)

lemma crcLoop_append: "crcLoop (xs @ ys) r = crcLoop ys (crcLoop xs r)"
  by (induction xs arbitrary: r) simp_all

lemma ucast8_inj:
  assumes "(ucast (b :: byte) :: uint16) = ucast c"
  shows "b = c"
proof (rule bit_eqI)
  fix n
  have "bit (ucast b :: uint16) n = bit (ucast c :: uint16) n" using assms by simp
  then show "bit b n = bit c n" by (cases "n < 8") (auto simp: bit_simps bit_beyond_byte)
qed

lemma xor_right_cancel: "(x :: 'a::len word) XOR a = y XOR a \<Longrightarrow> x = y"
  by (drule arg_cong [where f = "\<lambda>w. w XOR a"]) (simp add: xor.assoc)

lemma crcAccumulate_inj_reg: "crcAccumulate b r = crcAccumulate b r' \<Longrightarrow> r = r'"
  unfolding crcAccumulate_core by (drule crc_core_inj) (rule xor_right_cancel)

lemma crcAccumulate_inj_byte: "crcAccumulate b r = crcAccumulate c r \<Longrightarrow> b = c"
  unfolding crcAccumulate_core
  by (drule crc_core_inj) (auto simp: xor.commute [of r] dest!: xor_right_cancel intro: ucast8_inj)

text \<open>Two consecutive bytes determine the register that takes them in from a given start.\<close>

lemma crcAccumulate_inj_pair:
  assumes "crcAccumulate b1 (crcAccumulate b0 r) = crcAccumulate c1 (crcAccumulate c0 r)"
  shows "b0 = c0 \<and> b1 = c1"
proof -
  from assms have "crcAccumulate b0 r XOR ucast b1 = crcAccumulate c0 r XOR ucast c1"
    unfolding crcAccumulate_core by (rule crc_core_inj)
  then have "drop_bit 8 (crcAccumulate b0 r XOR ucast b1) = drop_bit 8 (crcAccumulate c0 r XOR ucast c1)"
    by simp
  then have "drop_bit 8 (crc_core (r XOR ucast b0)) = drop_bit 8 (crc_core (r XOR ucast c0))"
    by (simp add: crcAccumulate_core drop_bit_ucast_byte)
  then have "take_bit 8 (r XOR ucast b0) = take_bit 8 (r XOR ucast c0)" by (rule crc_core_high)
  then have "take_bit 8 (ucast b0 :: uint16) = take_bit 8 (ucast c0)"
    by (simp add: xor.commute [of "take_bit 8 r"]) (rule xor_right_cancel)
  moreover have "take_bit 8 (ucast b :: uint16) = ucast b" for b :: byte
    by (rule bit_eqI) (auto simp: bit_simps dest: bit_imp_le_length)
  ultimately have "b0 = c0" by (simp add: ucast8_inj)
  with assms show ?thesis by (simp add: crcAccumulate_inj_byte)
qed

lemma crcLoop_inj: "crcLoop bs r = crcLoop bs r' \<Longrightarrow> r = r'"
  by (induction bs arbitrary: r r') (auto dest: crcAccumulate_inj_reg)

text \<open>
  Error detection: two buffers that differ only inside two adjacent bytes have different
  checksums, for every seed.
\<close>

lemma crcCalculate_burst:
  assumes "crcCalculate (xs @ b0 # b1 # ys) seed = crcCalculate (xs @ c0 # c1 # ys) seed"
  shows "b0 = c0 \<and> b1 = c1"
proof -
  from assms have "crcLoop ys (crcAccumulate b1 (crcAccumulate b0 (crcLoop xs 0xFFFF)))
      = crcLoop ys (crcAccumulate c1 (crcAccumulate c0 (crcLoop xs 0xFFFF)))"
    by (auto simp: crcCalculate_def crcLoop_append dest: crcAccumulate_inj_reg)
  then show ?thesis by (intro crcAccumulate_inj_pair) (rule crcLoop_inj)
qed

lemma crcCalculate_single:
  assumes "crcCalculate (xs @ b # ys) seed = crcCalculate (xs @ c # ys) seed"
  shows "b = c"
proof -
  from assms have "crcLoop ys (crcAccumulate b (crcLoop xs 0xFFFF))
      = crcLoop ys (crcAccumulate c (crcLoop xs 0xFFFF))"
    by (auto simp: crcCalculate_def crcLoop_append dest: crcAccumulate_inj_reg)
  then show ?thesis by (intro crcAccumulate_inj_byte) (rule crcLoop_inj)
qed

end
