(* ===== verification/Mavlink.thy ===== *)
theory Mavlink
  imports Crc
begin

text \<open>
  \<^verbatim>\<open>internal/mavlink/parser.go\<close> and \<^verbatim>\<open>validate.go\<close>: the frame parser, the payload decoders and the
  validation of the decoded values.  Every index and slice expression of the source is a checked
  access, so the absence of run-time panics is a theorem about the decoders and not a convention
  of the model; the heading loops of \<^verbatim>\<open>ValidateGPS\<close> are partial functions, so their termination
  is a theorem too.
\<close>

section \<open>Errors, frames, parsers\<close>

datatype ParserError =
    ErrInvalidMagic
  | ErrFrameTooShort
  | ErrPayloadTooLarge
  | ErrChecksumMismatch
  | ErrUnsupportedVersion
  | ErrInvalidSystemID
  | ErrInvalidTelemetry

record Frame =
  fr_PayloadLength :: uint8
  fr_IncompatFlags :: uint8
  fr_CompatFlags :: uint8
  fr_Sequence :: uint8
  fr_SystemID :: uint8
  fr_ComponentID :: uint8
  fr_MessageID :: uint32
  fr_Payload :: "byte list"
  fr_Checksum :: uint16

record Parser =
  ValidateCRC :: bool

definition NewParser :: Parser where
  "NewParser = \<lparr>ValidateCRC = True\<rparr>"

section \<open>Parsing a frame\<close>

text \<open>\<^verbatim>\<open>uint32(data[7]) | uint32(data[8])<<8 | uint32(data[9])<<16\<close>\<close>

definition msg_id_of :: "byte \<Rightarrow> byte \<Rightarrow> byte \<Rightarrow> uint32" where
  "msg_id_of b0 b1 b2 = ucast b0 OR push_bit 8 (ucast b1) OR push_bit 16 (ucast b2)"

definition parseV2Frame :: "Parser \<Rightarrow> byte list \<Rightarrow> (ParserError + Frame \<times> nat) go" where
  "parseV2Frame p data =
    (if length data < 1 + 9 + 2 then Val (Inl ErrFrameTooShort)
     else
       go_bind (index_at data 1) (\<lambda>payloadLen.
       if MaxPayloadSize < unat payloadLen then Val (Inl ErrPayloadTooLarge)
       else
       go_bind (index_at data 2) (\<lambda>incompatFlags.
       let frameSize = 1 + 9 + unat payloadLen + 2;
           frameSize = (if incompatFlags AND 0x01 \<noteq> 0 then frameSize + 13 else frameSize)
       in
       if length data < frameSize then Val (Inl ErrFrameTooShort)
       else
       go_bind (index_at data 7) (\<lambda>d7.
       go_bind (index_at data 8) (\<lambda>d8.
       go_bind (index_at data 9) (\<lambda>d9.
       go_bind (index_at data 3) (\<lambda>d3.
       go_bind (index_at data 4) (\<lambda>d4.
       go_bind (index_at data 5) (\<lambda>d5.
       go_bind (index_at data 6) (\<lambda>d6.
       let msgID = msg_id_of d7 d8 d9;
           payloadStart = 10;
           payloadEnd = payloadStart + unat payloadLen
       in
       go_bind (slice_of data payloadStart payloadEnd) (\<lambda>payload.
       go_bind (slice_of data payloadEnd (payloadEnd + 2)) (\<lambda>crcBytes.
       go_bind (le_uint16 crcBytes) (\<lambda>checksum.
       let frame = \<lparr>fr_PayloadLength = payloadLen, fr_IncompatFlags = incompatFlags,
             fr_CompatFlags = d3, fr_Sequence = d4, fr_SystemID = d5, fr_ComponentID = d6,
             fr_MessageID = msgID, fr_Payload = payload, fr_Checksum = checksum\<rparr>
       in
       if ValidateCRC p then
         (case crcSeed msgID of
            Some seed \<Rightarrow>
              go_bind (slice_of data 1 payloadEnd) (\<lambda>covered.
              if crcCalculate covered seed \<noteq> checksum then Val (Inl ErrChecksumMismatch)
              else Val (Inr (frame, frameSize)))
          | None \<Rightarrow> Val (Inr (frame, frameSize)))
       else Val (Inr (frame, frameSize)))))))))))))))"

definition ParseFrame :: "Parser \<Rightarrow> byte list \<Rightarrow> (ParserError + Frame \<times> nat) go" where
  "ParseFrame p data =
    (if length data < 1 then Val (Inl ErrFrameTooShort)
     else
       go_bind (index_at data 0) (\<lambda>magic.
       if magic = MagicV2 then parseV2Frame p data
       else if magic = MagicV1 then Val (Inl ErrUnsupportedVersion)
       else Val (Inl ErrInvalidMagic)))"

section \<open>Decoding payloads\<close>

text \<open>A decoder returns \<open>None\<close>, a nil pointer, on a payload that is too short.\<close>

definition decodeHeartbeat :: "byte list \<Rightarrow> Heartbeat option go" where
  "decodeHeartbeat payload =
    (if length payload < 9 then Val None
     else
       go_bind (index_at payload 4) (\<lambda>p4.
       go_bind (index_at payload 5) (\<lambda>p5.
       go_bind (index_at payload 6) (\<lambda>p6.
       go_bind (go_bind (slice_of payload 0 4) le_uint32) (\<lambda>customMode.
       go_bind (index_at payload 7) (\<lambda>p7.
       go_bind (index_at payload 8) (\<lambda>p8.
       Val (Some \<lparr>hb_Type = p4, hb_Autopilot = p5, hb_BaseMode = p6, hb_CustomMode = customMode,
         hb_SystemStatus = p7, hb_MavlinkVersion = p8, hb_Armed = (p6 AND 0x80 \<noteq> 0)\<rparr>))))))))"

text \<open>\<^verbatim>\<open>float64(int32(x)) / 1e7\<close> and the like: a signed or unsigned integer over a constant.\<close>

definition scaled_s32 :: "uint32 \<Rightarrow> rat \<Rightarrow> f64" where
  "scaled_s32 w d = f64_div (f64_of_int (sint w)) (f64_lit d)"

definition scaled_u16 :: "uint16 \<Rightarrow> rat \<Rightarrow> f64" where
  "scaled_u16 w d = f64_div (f64_of_int (uint w)) (f64_lit d)"

definition scaled_s16 :: "uint16 \<Rightarrow> rat \<Rightarrow> f64" where
  "scaled_s16 w d = f64_div (f64_of_int (sint w)) (f64_lit d)"

definition decodeGlobalPosition :: "byte list \<Rightarrow> GPSPosition option go" where
  "decodeGlobalPosition payload =
    (if length payload < 28 then Val None
     else
       go_bind (go_bind (slice_of payload 4 8) le_uint32) (\<lambda>lat.
       go_bind (go_bind (slice_of payload 8 12) le_uint32) (\<lambda>lon.
       go_bind (go_bind (slice_of payload 12 16) le_uint32) (\<lambda>alt.
       go_bind (go_bind (slice_of payload 16 20) le_uint32) (\<lambda>relAlt.
       go_bind (go_bind (slice_of payload 20 22) le_uint16) (\<lambda>vx.
       go_bind (go_bind (slice_of payload 22 24) le_uint16) (\<lambda>vy.
       go_bind (go_bind (slice_of payload 26 28) le_uint16) (\<lambda>hdg.
       let fvx = f64_of_int (sint vx); fvy = f64_of_int (sint vy);
           groundSpeed = f64_div (f64_add (f64_mul fvx fvx) (f64_mul fvy fvy)) (f64_lit 10000)
       in Val (Some \<lparr>gps_FixType = 0, gps_Latitude = scaled_s32 lat 10000000,
            gps_Longitude = scaled_s32 lon 10000000, gps_Altitude = scaled_s32 alt 1000,
            gps_RelAltitude = scaled_s32 relAlt 1000, gps_GroundSpeed = groundSpeed,
            gps_Heading = scaled_u16 hdg 100, gps_SatelliteCount = 0,
            gps_HDOP = Fin 0, gps_VDOP = Fin 0\<rparr>)))))))))"

definition decodeGPSRaw :: "byte list \<Rightarrow> GPSPosition option go" where
  "decodeGPSRaw payload =
    (if length payload < 30 then Val None
     else
       go_bind (go_bind (slice_of payload 8 12) le_uint32) (\<lambda>lat.
       go_bind (go_bind (slice_of payload 12 16) le_uint32) (\<lambda>lon.
       go_bind (go_bind (slice_of payload 16 20) le_uint32) (\<lambda>alt.
       go_bind (go_bind (slice_of payload 20 22) le_uint16) (\<lambda>eph.
       go_bind (go_bind (slice_of payload 22 24) le_uint16) (\<lambda>epv.
       go_bind (go_bind (slice_of payload 24 26) le_uint16) (\<lambda>vel.
       go_bind (go_bind (slice_of payload 26 28) le_uint16) (\<lambda>cog.
       go_bind (index_at payload 7) (\<lambda>p7.
       go_bind (index_at payload 29) (\<lambda>p29.
       Val (Some \<lparr>gps_FixType = p7, gps_Latitude = scaled_s32 lat 10000000,
         gps_Longitude = scaled_s32 lon 10000000, gps_Altitude = scaled_s32 alt 1000,
         gps_RelAltitude = Fin 0, gps_GroundSpeed = scaled_u16 vel 100,
         gps_Heading = scaled_u16 cog 100, gps_SatelliteCount = p29,
         gps_HDOP = scaled_u16 eph 100, gps_VDOP = scaled_u16 epv 100\<rparr>)))))))))))"

text \<open>
  The cell loop of \<^verbatim>\<open>decodeBatteryStatus\<close>: cells \<open>i\<close> to 9, with the early break and the skipped
  invalid and absent cells.
\<close>

function cellLoop :: "byte list \<Rightarrow> nat \<Rightarrow> f64 \<Rightarrow> f64 go" where
  "cellLoop payload i totalV =
    (if i < 10 then
       (let offset = 10 + i * 2 in
        if length payload < offset + 2 then Val totalV
        else
          go_bind (go_bind (slice_of payload offset (offset + 2)) le_uint16) (\<lambda>cellVoltage.
          cellLoop payload (i + 1)
            (if cellVoltage \<noteq> 0xFFFF \<and> cellVoltage \<noteq> 0
             then f64_add totalV (scaled_u16 cellVoltage 1000) else totalV)))
     else Val totalV)"
  by pat_completeness auto
termination
  by (relation "measure (\<lambda>(payload, i, totalV). 10 - i)") auto

declare cellLoop.simps [simp del]

definition decodeBatteryStatus :: "byte list \<Rightarrow> BatteryStatus option go" where
  "decodeBatteryStatus payload =
    (if length payload < 36 then Val None
     else
       go_bind (cellLoop payload 0 (Fin 0)) (\<lambda>totalVoltage.
       go_bind (go_bind (slice_of payload 30 32) le_uint16) (\<lambda>current.
       go_bind (index_at payload 35) (\<lambda>remaining.
       Val (Some \<lparr>bat_VoltageTotal = totalVoltage, bat_CurrentBattery = scaled_s16 current 100,
         bat_Remaining = remaining, bat_TimeRemaining = - 1\<rparr>)))))"

definition readFloat32LE :: "byte list \<Rightarrow> f64 go" where
  "readFloat32LE b = go_bind (le_uint32 b) (\<lambda>bits. Val (f64_of_f32_bits bits))"

definition decodeAttitude :: "byte list \<Rightarrow> Attitude option go" where
  "decodeAttitude payload =
    (if length payload < 28 then Val None
     else
       go_bind (go_bind (slice_of payload 4 8) readFloat32LE) (\<lambda>roll.
       go_bind (go_bind (slice_of payload 8 12) readFloat32LE) (\<lambda>pitch.
       go_bind (go_bind (slice_of payload 12 16) readFloat32LE) (\<lambda>yaw.
       go_bind (go_bind (slice_of payload 16 20) readFloat32LE) (\<lambda>rollSpeed.
       go_bind (go_bind (slice_of payload 20 24) readFloat32LE) (\<lambda>pitchSpeed.
       go_bind (go_bind (slice_of payload 24 28) readFloat32LE) (\<lambda>yawSpeed.
       Val (Some \<lparr>att_Roll = roll, att_Pitch = pitch, att_Yaw = yaw, att_RollSpeed = rollSpeed,
         att_PitchSpeed = pitchSpeed, att_YawSpeed = yawSpeed\<rparr>))))))))"

definition decodePayload :: "Frame \<Rightarrow> Payload go" where
  "decodePayload frame =
    (if fr_MessageID frame = MsgIDHeartbeat then
       go_bind (decodeHeartbeat (fr_Payload frame)) (\<lambda>r. Val (PHeartbeat r))
     else if fr_MessageID frame = MsgIDGlobalPositionInt then
       go_bind (decodeGlobalPosition (fr_Payload frame)) (\<lambda>r. Val (PGPS r))
     else if fr_MessageID frame = MsgIDGPSRawInt then
       go_bind (decodeGPSRaw (fr_Payload frame)) (\<lambda>r. Val (PGPS r))
     else if fr_MessageID frame = MsgIDBatteryStatus then
       go_bind (decodeBatteryStatus (fr_Payload frame)) (\<lambda>r. Val (PBattery r))
     else if fr_MessageID frame = MsgIDAttitude then
       go_bind (decodeAttitude (fr_Payload frame)) (\<lambda>r. Val (PAttitude r))
     else Val (PRaw (fr_Payload frame)))"

section \<open>Validation\<close>

text \<open>
  The two clamping loops of \<^verbatim>\<open>ValidateGPS\<close>.  They need not return: adding 360 to a large float64
  may not change it.
\<close>

partial_function (option) headingUp :: "f64 \<Rightarrow> f64 option" where
  "headingUp h = (if f64_lt h (f64_lit 0) then headingUp (f64_add h (f64_lit 360)) else Some h)"

partial_function (option) headingDown :: "f64 \<Rightarrow> f64 option" where
  "headingDown h =
     (if f64_le (f64_lit 360) h then headingDown (f64_sub h (f64_lit 360)) else Some h)"

text \<open>The pointer argument is updated in place: the result carries the position after the call.\<close>

definition ValidateGPS :: "GPSPosition option \<Rightarrow> (bool \<times> GPSPosition option) go" where
  "ValidateGPS gps =
    (case gps of
       None \<Rightarrow> Val (False, None)
     | Some g \<Rightarrow>
         if f64_lt (gps_Latitude g) (f64_lit (- 90)) \<or> f64_lt (f64_lit 90) (gps_Latitude g)
         then Val (False, gps)
         else if f64_lt (gps_Longitude g) (f64_lit (- 180)) \<or> f64_lt (f64_lit 180) (gps_Longitude g)
         then Val (False, gps)
         else if f64_lt (f64_lit 100000) (gps_Altitude g) then Val (False, gps)
         else if f64_lt (gps_Heading g) (f64_lit 0) \<or> f64_le (f64_lit 360) (gps_Heading g)
         then
           go_bind (of_option (headingUp (gps_Heading g))) (\<lambda>h.
           go_bind (of_option (headingDown h)) (\<lambda>h.
           Val (True, Some (g\<lparr>gps_Heading := h\<rparr>))))
         else Val (True, gps))"

definition ValidateBattery :: "BatteryStatus option \<Rightarrow> bool" where
  "ValidateBattery bat =
    (case bat of None \<Rightarrow> False | Some b \<Rightarrow> \<not> 100 < sint (bat_Remaining b))"

definition ValidateSystemID :: "uint8 \<Rightarrow> bool" where
  "ValidateSystemID sysid \<longleftrightarrow> 1 \<le> sysid \<and> sysid \<le> 250"

section \<open>Decoding a packet\<close>

record Decoder =
  dec_parser :: Parser

definition NewDecoder :: Decoder where
  "NewDecoder = \<lparr>dec_parser = NewParser\<rparr>"

definition NewDecoderWithCRC :: "bool \<Rightarrow> Decoder" where
  "NewDecoderWithCRC validateCRC = \<lparr>dec_parser = NewParser\<lparr>ValidateCRC := validateCRC\<rparr>\<rparr>"

text \<open>The validation switch: the checked payload, or rejection.\<close>

definition validatePayload :: "Payload \<Rightarrow> (ParserError + Payload) go" where
  "validatePayload payload =
    (case payload of
       PGPS p \<Rightarrow>
         (if p \<noteq> None then
            go_bind (ValidateGPS p) (\<lambda>(ok, p').
              if \<not> ok then Val (Inl ErrInvalidTelemetry) else Val (Inr (PGPS p')))
          else Val (Inr payload))
     | PBattery p \<Rightarrow>
         (if p \<noteq> None \<and> \<not> ValidateBattery p then Val (Inl ErrInvalidTelemetry)
          else Val (Inr payload))
     | _ \<Rightarrow> Val (Inr payload))"

definition DecodePacket ::
    "Decoder \<Rightarrow> instant \<Rightarrow> byte list \<Rightarrow> string \<Rightarrow> (ParserError + TelemetryEvent) go" where
  "DecodePacket d now data sourceAddr =
    go_bind (ParseFrame (dec_parser d) data) (\<lambda>r.
    case r of
      Inl err \<Rightarrow> Val (Inl err)
    | Inr (frame, _) \<Rightarrow>
        if \<not> ValidateSystemID (fr_SystemID frame) then Val (Inl ErrInvalidSystemID)
        else
          go_bind (decodePayload frame) (\<lambda>payload.
          go_bind (validatePayload payload) (\<lambda>checked.
          case checked of
            Inl err \<Rightarrow> Val (Inl err)
          | Inr payload' \<Rightarrow>
              Val (Inr \<lparr>ev_DroneID = \<lparr>SystemID = fr_SystemID frame, ComponentID = fr_ComponentID frame\<rparr>,
                ev_MessageID = fr_MessageID frame, ev_Timestamp = now, ev_SourceAddr = sourceAddr,
                ev_Payload = payload'\<rparr>))))"

end
