(* ===== verification/Mavlink_Correct.thy ===== *)
theory Mavlink_Correct
  imports Mavlink
begin

text \<open>
  Correctness of the parser and the decoders: each checked, monadic definition is shown equal to a
  plain description of what it returns, from which follow totality (no panic, termination of the
  validation loops), the ranges of accepted telemetry and the rejection of corrupted frames.
\<close>

section \<open>The frame parser described without checks\<close>

text \<open>The size the header announces, and the fields as they lie in the buffer.\<close>

definition frame_size :: "byte list \<Rightarrow> nat" where
  "frame_size data = 12 + unat (data ! 1) + (if data ! 2 AND 1 \<noteq> 0 then 13 else 0)"

definition frame_at :: "byte list \<Rightarrow> Frame" where
  "frame_at data =
    (let n = unat (data ! 1) in
     \<lparr>fr_PayloadLength = data ! 1, fr_IncompatFlags = data ! 2, fr_CompatFlags = data ! 3,
      fr_Sequence = data ! 4, fr_SystemID = data ! 5, fr_ComponentID = data ! 6,
      fr_MessageID = msg_id_of (data ! 7) (data ! 8) (data ! 9),
      fr_Payload = take n (drop 10 data),
      fr_Checksum = u16_of (data ! (10 + n)) (data ! (11 + n))\<rparr>)"

text \<open>The checksum covers everything between the start byte and the checksum.\<close>

definition crc_ok :: "byte list \<Rightarrow> bool" where
  "crc_ok data \<longleftrightarrow>
    (case crcSeed (fr_MessageID (frame_at data)) of
       None \<Rightarrow> True
     | Some seed \<Rightarrow>
         crcCalculate (take (9 + unat (data ! 1)) (drop 1 data)) seed = fr_Checksum (frame_at data))"

lemma unat_byte_le: "unat (b :: byte) \<le> 255"
  using unsigned_less [of b, where ?'a = nat] by simp

lemma parseV2Frame_eq:
  "parseV2Frame p data =
    Val (if length data < 12 \<or> length data < frame_size data then Inl ErrFrameTooShort
         else if ValidateCRC p \<and> \<not> crc_ok data then Inl ErrChecksumMismatch
         else Inr (frame_at data, frame_size data))"
proof (cases "length data < 12 \<or> length data < frame_size data")
  case True
  then show ?thesis
    using unat_byte_le [of "data ! 1"]
    by (auto simp: parseV2Frame_def go_simps MaxPayloadSize_def frame_size_def Let_def)
next
  case False
  let ?n = "unat (data ! 1)"
  from False have len: "12 \<le> length data" "12 + ?n \<le> length data" "frame_size data \<le> length data"
    by (auto simp: frame_size_def)
  have le: "le_uint16 (take 2 (drop (10 + ?n) data)) = Val (u16_of (data ! (10 + ?n)) (data ! (11 + ?n)))"
    using len by (subst le_uint16_take_drop) (auto simp: add.commute)
  show ?thesis
    using False len unat_byte_le [of "data ! 1"] le
    by (simp add: parseV2Frame_def go_simps MaxPayloadSize_def Let_def frame_size_def crc_ok_def
        frame_at_def split: option.splits if_splits)
qed

lemma ParseFrame_eq:
  "ParseFrame p data =
    (case data of
       [] \<Rightarrow> Val (Inl ErrFrameTooShort)
     | b # _ \<Rightarrow>
         if b = MagicV2 then parseV2Frame p data
         else if b = MagicV1 then Val (Inl ErrUnsupportedVersion)
         else Val (Inl ErrInvalidMagic))"
  by (auto simp: ParseFrame_def go_simps split: list.splits)

lemma ParseFrame_Inr_iff:
  "ParseFrame p data = Val (Inr r) \<longleftrightarrow>
     12 \<le> length data \<and> data ! 0 = MagicV2 \<and> frame_size data \<le> length data \<and>
     (ValidateCRC p \<longrightarrow> crc_ok data) \<and> r = (frame_at data, frame_size data)"
  by (cases data) (auto simp: ParseFrame_eq parseV2Frame_eq not_less)

lemma ParseFrame_total: "\<exists>r. ParseFrame p data = Val r"
  by (cases data) (auto simp: ParseFrame_eq parseV2Frame_eq)

section \<open>Decoded measurements\<close>

lemma sint32_bound: "\<bar>sint (w :: 32 word)\<bar> < 2 ^ 53"
  using sint_range_size [of w] by (auto simp: word_size)

lemma scaled_s32_eq:
  "1 \<le> d \<Longrightarrow> d < 2 ^ 53 \<Longrightarrow> scaled_s32 w (of_int d) = Fin (fround (of_int (sint w) / of_int d))"
  unfolding scaled_s32_def by (rule f64_scaled) (rule sint32_bound)

lemma scaled_u16_eq:
  "1 \<le> d \<Longrightarrow> d < 2 ^ 53 \<Longrightarrow> scaled_u16 w (of_int d) = Fin (fround (of_int (uint w) / of_int d))"
  unfolding scaled_u16_def by (rule f64_scaled) (use uint_lt2p [of w] in \<open>auto simp: abs_less_iff\<close>)

lemma scaled_s16_eq:
  "1 \<le> d \<Longrightarrow> d < 2 ^ 53 \<Longrightarrow> scaled_s16 w (of_int d) = Fin (fround (of_int (sint w) / of_int d))"
  unfolding scaled_s16_def by (rule f64_scaled) (use sint_range_size [of w] in \<open>auto simp: word_size\<close>)

lemmas scaled_eqs =
  scaled_s32_eq [of 10000000, simplified] scaled_s32_eq [of 1000, simplified]
  scaled_u16_eq [of 100, simplified] scaled_u16_eq [of 1000, simplified]
  scaled_s16_eq [of 100, simplified]

text \<open>
  The comparison of a decoded angle with an integral bound is the comparison of the raw integer:
  rounding moves no value across the bound.
\<close>

lemma fround_gt_iff:
  assumes "0 < d" "\<bar>b\<bar> < 2 ^ 53" "of_int b < fround (of_int (b * d + 1) / of_int d)"
  shows "of_int b < fround (of_int n / of_int d) \<longleftrightarrow> b * d < n"
proof
  assume "b * d < n"
  then have "b * d + 1 \<le> n" by simp
  then have "(of_int (b * d + 1) :: rat) / of_int d \<le> of_int n / of_int d"
    using assms(1) by (intro divide_right_mono) (simp_all only: of_int_le_iff of_int_0_le_iff less_imp_le)
  then show "of_int b < fround (of_int n / of_int d)"
    using assms(3) fround_mono less_le_trans by blast
next
  assume lt: "of_int b < fround (of_int n / of_int d)"
  show "b * d < n"
  proof (rule ccontr)
    assume "\<not> b * d < n"
    then have "n \<le> b * d" by simp
    then have "(of_int n :: rat) \<le> of_int (b * d)" by (simp only: of_int_le_iff)
    then have "(of_int n :: rat) / of_int d \<le> of_int b"
      using assms(1) by (simp add: divide_le_eq)
    then have "fround (of_int n / of_int d) \<le> fround (of_int b)" by (rule fround_mono)
    with lt assms(2) show False by (simp add: fround_int)
  qed
qed

lemma fround_lt_iff:
  assumes "0 < d" "\<bar>b\<bar> < 2 ^ 53" "of_int (- b) < fround (of_int (- b * d + 1) / of_int d)"
  shows "fround (of_int n / of_int d) < of_int b \<longleftrightarrow> n < b * d"
  using fround_gt_iff [of d "- b" "- n"] assms fround_minus [of "of_int n / of_int d"]
  by auto

lemma lat_bounds:
  "90 < fround (of_int n / 10000000) \<longleftrightarrow> 900000000 < n"
  "fround (of_int n / 10000000) < - 90 \<longleftrightarrow> n < - 900000000"
  using fround_gt_iff [of 10000000 90 n] fround_lt_iff [of 10000000 "- 90" n]
  by (simp_all add: f64_eval)

lemma lon_bounds:
  "180 < fround (of_int n / 10000000) \<longleftrightarrow> 1800000000 < n"
  "fround (of_int n / 10000000) < - 180 \<longleftrightarrow> n < - 1800000000"
  using fround_gt_iff [of 10000000 180 n] fround_lt_iff [of 10000000 "- 180" n]
  by (simp_all add: f64_eval)

lemma alt_bound: "100000 < fround (of_int n / 1000) \<longleftrightarrow> 100000000 < n"
  using fround_gt_iff [of 1000 100000 n] by (simp add: f64_eval)

lemma u16_heading_bounds:
  "0 \<le> fround (of_int (uint (w :: 16 word)) / 100)"
  "fround (of_int (uint (w :: 16 word)) / 100) \<le> 656"
proof -
  have "(0::rat) \<le> of_int (uint w)" by (simp only: of_int_0_le_iff unsigned_greater_eq)
  then show "0 \<le> fround (of_int (uint w) / 100)" by (intro fround_nonneg divide_nonneg_nonneg) simp_all
  have "(of_int (uint w) :: rat) \<le> of_int 65535"
    using uint_lt2p [of w] by (simp only: of_int_le_iff) simp
  then have "(of_int (uint w) :: rat) / 100 \<le> of_int 656" by simp
  then have "fround (of_int (uint w) / 100) \<le> fround (of_int 656)" by (rule fround_mono)
  then show "fround (of_int (uint w) / 100) \<le> 656" using fround_int [of 656] by simp
qed

section \<open>The payload decoders described without checks\<close>

definition le32_at :: "byte list \<Rightarrow> nat \<Rightarrow> uint32" where
  "le32_at s i = u32_of (s ! i) (s ! (i + 1)) (s ! (i + 2)) (s ! (i + 3))"

definition le16_at :: "byte list \<Rightarrow> nat \<Rightarrow> uint16" where
  "le16_at s i = u16_of (s ! i) (s ! (i + 1))"

lemma le_uint32_slice: "i + 4 \<le> length s \<Longrightarrow> le_uint32 (take 4 (drop i s)) = Val (le32_at s i)"
  by (simp add: le_uint32_take_drop le32_at_def)

lemma le_uint16_slice: "i + 2 \<le> length s \<Longrightarrow> le_uint16 (take 2 (drop i s)) = Val (le16_at s i)"
  by (simp add: le_uint16_take_drop le16_at_def)

lemma le_uint32_prefix: "4 \<le> length s \<Longrightarrow> le_uint32 (take 4 s) = Val (le32_at s 0)"
  using le_uint32_slice [of 0 s] by simp

lemmas slice_simps = index_at_Val slice_of_Val le_uint32_slice le_uint16_slice

lemma decodeHeartbeat_eq:
  "decodeHeartbeat payload =
    Val (if length payload < 9 then None
         else Some \<lparr>hb_Type = payload ! 4, hb_Autopilot = payload ! 5, hb_BaseMode = payload ! 6,
           hb_CustomMode = le32_at payload 0, hb_SystemStatus = payload ! 7,
           hb_MavlinkVersion = payload ! 8, hb_Armed = (payload ! 6 AND 0x80 \<noteq> 0)\<rparr>)"
  by (simp add: decodeHeartbeat_def slice_simps le_uint32_prefix)

definition gp_position :: "byte list \<Rightarrow> GPSPosition" where
  "gp_position p =
    \<lparr>gps_FixType = 0,
     gps_Latitude = Fin (fround (of_int (sint (le32_at p 4)) / 10000000)),
     gps_Longitude = Fin (fround (of_int (sint (le32_at p 8)) / 10000000)),
     gps_Altitude = Fin (fround (of_int (sint (le32_at p 12)) / 1000)),
     gps_RelAltitude = Fin (fround (of_int (sint (le32_at p 16)) / 1000)),
     gps_GroundSpeed =
       Fin (fround (of_int ((sint (le16_at p 20))\<^sup>2 + (sint (le16_at p 22))\<^sup>2) / 10000)),
     gps_Heading = Fin (fround (of_int (uint (le16_at p 26)) / 100)),
     gps_SatelliteCount = 0, gps_HDOP = Fin 0, gps_VDOP = Fin 0\<rparr>"

definition raw_position :: "byte list \<Rightarrow> GPSPosition" where
  "raw_position p =
    \<lparr>gps_FixType = p ! 7,
     gps_Latitude = Fin (fround (of_int (sint (le32_at p 8)) / 10000000)),
     gps_Longitude = Fin (fround (of_int (sint (le32_at p 12)) / 10000000)),
     gps_Altitude = Fin (fround (of_int (sint (le32_at p 16)) / 1000)),
     gps_RelAltitude = Fin 0,
     gps_GroundSpeed = Fin (fround (of_int (uint (le16_at p 24)) / 100)),
     gps_Heading = Fin (fround (of_int (uint (le16_at p 26)) / 100)),
     gps_SatelliteCount = p ! 29,
     gps_HDOP = Fin (fround (of_int (uint (le16_at p 20)) / 100)),
     gps_VDOP = Fin (fround (of_int (uint (le16_at p 22)) / 100))\<rparr>"

text \<open>The squares of two 16-bit velocities and their sum are exact in a float64.\<close>

lemma sint16_bound: "\<bar>sint (w :: 16 word)\<bar> \<le> 32768"
  using sint_range_size [of w] by (auto simp: word_size)

lemma sint16_square: "(sint (w :: 16 word))\<^sup>2 \<le> 1073741824"
  using power_mono [OF sint16_bound [of w], of 2] by simp

lemma ground_speed_exact:
  "f64_div (f64_add (f64_mul (f64_of_int (sint (v :: 16 word))) (f64_of_int (sint v)))
                    (f64_mul (f64_of_int (sint (w :: 16 word))) (f64_of_int (sint w)))) (f64_lit 10000)
     = Fin (fround (of_int ((sint v)\<^sup>2 + (sint w)\<^sup>2) / 10000))"
proof -
  have sq: "f64_mul (f64_of_int (sint u)) (f64_of_int (sint u)) = f64_of_int ((sint u)\<^sup>2)" for u :: "16 word"
    using sint16_bound [of u] f64_mul_of_int [of "sint u" "sint u"] by (simp add: power2_eq_square)
  have "f64_add (f64_of_int ((sint v)\<^sup>2)) (f64_of_int ((sint w)\<^sup>2)) = f64_of_int ((sint v)\<^sup>2 + (sint w)\<^sup>2)"
    using sint16_square [of v] sint16_square [of w] by (intro f64_add_of_int) auto
  moreover have "f64_div (f64_of_int ((sint v)\<^sup>2 + (sint w)\<^sup>2)) (f64_lit (of_int 10000))
      = Fin (fround (of_int ((sint v)\<^sup>2 + (sint w)\<^sup>2) / of_int 10000))"
    using sint16_square [of v] sint16_square [of w] by (intro f64_scaled) auto
  ultimately show ?thesis by (simp add: sq)
qed

lemma decodeGlobalPosition_eq:
  "decodeGlobalPosition payload =
    Val (if length payload < 28 then None else Some (gp_position payload))"
  by (simp add: decodeGlobalPosition_def slice_simps scaled_eqs gp_position_def Let_def
      ground_speed_exact)

lemma decodeGPSRaw_eq:
  "decodeGPSRaw payload =
    Val (if length payload < 30 then None else Some (raw_position payload))"
  by (simp add: decodeGPSRaw_def slice_simps scaled_eqs raw_position_def)

subsection \<open>The battery cells\<close>

definition valid_cell :: "uint16 \<Rightarrow> bool" where
  "valid_cell c \<longleftrightarrow> c \<noteq> 0xFFFF \<and> c \<noteq> 0"

definition cells_from :: "byte list \<Rightarrow> nat \<Rightarrow> uint16 list" where
  "cells_from payload i = filter valid_cell (map (\<lambda>k. le16_at payload (10 + 2 * k)) [i..<10])"

definition volts :: "uint16 \<Rightarrow> f64" where
  "volts c = scaled_u16 c 1000"

lemma cells_from_step:
  "i < 10 \<Longrightarrow> cells_from payload i =
     (if valid_cell (le16_at payload (10 + 2 * i)) then [le16_at payload (10 + 2 * i)] else [])
       @ cells_from payload (Suc i)"
  by (simp add: cells_from_def upt_conv_Cons)

lemma cellLoop_eq:
  assumes "30 \<le> length payload"
  shows "cellLoop payload i t = Val (foldl f64_add t (map volts (cells_from payload i)))"
proof (induction "10 - i" arbitrary: i t)
  case 0
  then show ?case by (subst cellLoop.simps) (simp add: cells_from_def)
next
  case (Suc k)
  then have i: "i < 10" by simp
  have "le_uint16 (take 2 (drop (10 + 2 * i) payload)) = Val (le16_at payload (10 + 2 * i))"
    using i assms by (intro le_uint16_slice) simp
  then show ?case
    using i assms Suc.hyps(1) [of "i + 1"] Suc.hyps(2)
    by (subst cellLoop.simps)
      (simp add: Let_def slice_of_Val cells_from_step valid_cell_def volts_def mult.commute)
qed

lemma volts_bounds: "\<exists>q. volts c = Fin q \<and> 0 \<le> q \<and> q \<le> 66"
proof -
  let ?q = "fround (of_int (uint c) / 1000)"
  have c: "volts c = Fin ?q" using scaled_u16_eq [of 1000 c] by (simp add: volts_def)
  have "(0::rat) \<le> of_int (uint c)" by (simp only: of_int_0_le_iff unsigned_greater_eq)
  then have "0 \<le> ?q" by (intro fround_nonneg divide_nonneg_nonneg) simp_all
  moreover have "(of_int (uint c) :: rat) \<le> of_int 65535"
    using uint_lt2p [of c] by (simp only: of_int_le_iff) simp
  then have "(of_int (uint c) :: rat) / 1000 \<le> of_int 66" by simp
  then have "?q \<le> 66" using fround_mono fround_int [of 66] by fastforce
  ultimately show ?thesis using c by blast
qed

lemma f64_add_bounds:
  assumes "0 \<le> p" "p \<le> of_int m" "0 \<le> q" "q \<le> of_int n" "m + n < 2 ^ 53"
  shows "\<exists>r. f64_add (Fin p) (Fin q) = Fin r \<and> 0 \<le> r \<and> r \<le> of_int (m + n)"
proof -
  have "\<bar>p + q\<bar> \<le> of_int (m + n)" using assms by simp
  then have "f64_add (Fin p) (Fin q) = Fin (fround (p + q))" "fround (p + q) \<le> of_int (m + n)"
    using assms pack_bounded [of "p + q" "m + n" False] fround_abs_le [of "p + q" "m + n"]
    by (simp_all add: f64_add_def)
  then show ?thesis using assms by (auto intro: fround_nonneg)
qed

lemma foldl_volts_bounds:
  assumes "0 \<le> p" "p \<le> of_int m" "0 \<le> m" "m + 66 * int (length cs) < 2 ^ 53"
  shows "\<exists>r. foldl f64_add (Fin p) (map volts cs) = Fin r \<and> 0 \<le> r \<and> r \<le> of_int (m + 66 * int (length cs))"
  using assms
proof (induction cs arbitrary: p m)
  case (Cons c cs)
  obtain q where q: "volts c = Fin q" "0 \<le> q" "q \<le> 66" using volts_bounds by blast
  obtain r where r: "f64_add (Fin p) (Fin q) = Fin r" "0 \<le> r" "r \<le> of_int (m + 66)"
    using f64_add_bounds [of p m q 66] Cons.prems q by auto
  show ?case using Cons.IH [of r "m + 66"] Cons.prems q r by (simp add: add.assoc)
qed auto

definition battery_at :: "byte list \<Rightarrow> BatteryStatus" where
  "battery_at p =
    \<lparr>bat_VoltageTotal = foldl f64_add (Fin 0) (map volts (cells_from p 0)),
     bat_CurrentBattery = Fin (fround (of_int (sint (le16_at p 30)) / 100)),
     bat_Remaining = p ! 35, bat_TimeRemaining = - 1\<rparr>"

lemma decodeBatteryStatus_eq:
  "decodeBatteryStatus payload =
    Val (if length payload < 36 then None else Some (battery_at payload))"
  by (simp add: decodeBatteryStatus_def cellLoop_eq slice_simps scaled_eqs battery_at_def)

lemma battery_voltage_bounds:
  "\<exists>r. bat_VoltageTotal (battery_at p) = Fin r \<and> 0 \<le> r \<and> r \<le> 660"
proof -
  have len: "length (cells_from p 0) \<le> 10"
    using length_filter_le [of valid_cell "map (\<lambda>k. le16_at p (10 + 2 * k)) [0..<10]"]
    by (simp add: cells_from_def)
  obtain r where "bat_VoltageTotal (battery_at p) = Fin r" "0 \<le> r"
    "r \<le> of_int (66 * int (length (cells_from p 0)))"
    using foldl_volts_bounds [of 0 0 "cells_from p 0"] len by (auto simp: battery_at_def)
  moreover have "(of_int (66 * int (length (cells_from p 0))) :: rat) \<le> of_int 660"
    using len by (simp only: of_int_le_iff)
  ultimately show ?thesis by (intro exI [of _ r]) simp
qed

subsection \<open>Attitude\<close>

definition attitude_at :: "byte list \<Rightarrow> Attitude" where
  "attitude_at p =
    \<lparr>att_Roll = f64_of_f32_bits (le32_at p 4), att_Pitch = f64_of_f32_bits (le32_at p 8),
     att_Yaw = f64_of_f32_bits (le32_at p 12), att_RollSpeed = f64_of_f32_bits (le32_at p 16),
     att_PitchSpeed = f64_of_f32_bits (le32_at p 20), att_YawSpeed = f64_of_f32_bits (le32_at p 24)\<rparr>"

lemma decodeAttitude_eq:
  "decodeAttitude payload =
    Val (if length payload < 28 then None else Some (attitude_at payload))"
  by (simp add: decodeAttitude_def slice_simps readFloat32LE_def attitude_at_def)

section \<open>Validation of decoded positions\<close>

text \<open>What the two loops leave of a decoded heading: one subtraction at most.\<close>

definition wrap_heading :: "rat \<Rightarrow> rat" where
  "wrap_heading x = (if 360 \<le> x then fround (x - 360) else x)"

lemma f64_lits: "f64_lit 360 = Fin 360" "f64_lit 90 = Fin 90" "f64_lit (- 90) = Fin (- 90)"
  "f64_lit 180 = Fin 180" "f64_lit (- 180) = Fin (- 180)" "f64_lit 100000 = Fin 100000"
  using f64_lit_int [of 360] f64_lit_int [of 90] f64_lit_int [of "- 90"] f64_lit_int [of 180]
    f64_lit_int [of "- 180"] f64_lit_int [of 100000] by simp_all

lemma sub_360:
  assumes "360 \<le> x" "x \<le> 656"
  shows "f64_sub (Fin x) (Fin 360) = Fin (fround (x - 360))"
    and "0 \<le> fround (x - 360)" and "fround (x - 360) < 360"
proof -
  have "\<bar>x - 360\<bar> \<le> of_int 296" using assms by simp
  then have p: "pack False (x - 360) = Fin (fround (x - 360))" "\<bar>fround (x - 360)\<bar> \<le> of_int 296"
    using pack_bounded [of "x - 360" 296 False] fround_abs_le [of "x - 360" 296] by simp_all
  then show "f64_sub (Fin x) (Fin 360) = Fin (fround (x - 360))"
    by (simp add: f64_sub_def f64_add_def)
  show "0 \<le> fround (x - 360)" using assms by (intro fround_nonneg) simp
  show "fround (x - 360) < 360" using p(2) by simp
qed

lemma headingUp_nonneg: "0 \<le> x \<Longrightarrow> headingUp (Fin x) = Some (Fin x)"
  by (subst headingUp.simps) simp

lemma headingDown_wrap:
  assumes "x \<le> 656"
  shows "headingDown (Fin x) = Some (Fin (wrap_heading x))"
proof (cases "360 \<le> x")
  case True
  have "headingDown (Fin (fround (x - 360))) = Some (Fin (fround (x - 360)))"
    using sub_360 [OF True assms] by (subst headingDown.simps) (simp add: f64_lits)
  then show ?thesis
    using True sub_360(1) [OF True assms]
    by (subst headingDown.simps) (simp add: f64_lits wrap_heading_def)
next
  case False
  then show ?thesis by (subst headingDown.simps) (simp add: f64_lits wrap_heading_def)
qed

lemma wrap_heading_bounds: "0 \<le> x \<Longrightarrow> x \<le> 656 \<Longrightarrow> 0 \<le> wrap_heading x \<and> wrap_heading x < 360"
  using sub_360 [of x] by (auto simp: wrap_heading_def)

text \<open>The raw readings that pass: the bounds of the code on the integers of the wire.\<close>

definition raw_in_range :: "int \<Rightarrow> int \<Rightarrow> int \<Rightarrow> bool" where
  "raw_in_range la lo al \<longleftrightarrow>
     - 900000000 \<le> la \<and> la \<le> 900000000 \<and> - 1800000000 \<le> lo \<and> lo \<le> 1800000000 \<and> al \<le> 100000000"

lemma ValidateGPS_decoded:
  assumes "gps_Latitude g = Fin (fround (of_int la / 10000000))"
    and "gps_Longitude g = Fin (fround (of_int lo / 10000000))"
    and "gps_Altitude g = Fin (fround (of_int al / 1000))"
    and "gps_Heading g = Fin h" and "0 \<le> h" and "h \<le> 656"
  shows "ValidateGPS (Some g) =
    Val (if raw_in_range la lo al then (True, Some (g\<lparr>gps_Heading := Fin (wrap_heading h)\<rparr>))
         else (False, Some g))"
proof (cases "raw_in_range la lo al")
  case True
  show ?thesis
  proof (cases "360 \<le> h")
    case wrap: True
    then show ?thesis
      using True assms
      by (simp add: ValidateGPS_def f64_lits lat_bounds lon_bounds alt_bound raw_in_range_def
          headingUp_nonneg headingDown_wrap)
  next
    case False
    moreover from False assms(4) have "g\<lparr>gps_Heading := Fin (wrap_heading h)\<rparr> = g"
      by (simp add: wrap_heading_def)
    ultimately show ?thesis
      using True assms
      by (simp add: ValidateGPS_def f64_lits lat_bounds lon_bounds alt_bound raw_in_range_def)
  qed
next
  case False
  then show ?thesis
    using assms
    by (auto simp: ValidateGPS_def f64_lits lat_bounds lon_bounds alt_bound raw_in_range_def)
qed

section \<open>The whole decoder\<close>

text \<open>The payload a frame decodes to, before validation.\<close>

definition payload_of :: "Frame \<Rightarrow> Payload" where
  "payload_of f =
    (let p = fr_Payload f in
     if fr_MessageID f = MsgIDHeartbeat then
       PHeartbeat (if length p < 9 then None
         else Some \<lparr>hb_Type = p ! 4, hb_Autopilot = p ! 5, hb_BaseMode = p ! 6,
           hb_CustomMode = le32_at p 0, hb_SystemStatus = p ! 7,
           hb_MavlinkVersion = p ! 8, hb_Armed = (p ! 6 AND 0x80 \<noteq> 0)\<rparr>)
     else if fr_MessageID f = MsgIDGlobalPositionInt then
       PGPS (if length p < 28 then None else Some (gp_position p))
     else if fr_MessageID f = MsgIDGPSRawInt then
       PGPS (if length p < 30 then None else Some (raw_position p))
     else if fr_MessageID f = MsgIDBatteryStatus then
       PBattery (if length p < 36 then None else Some (battery_at p))
     else if fr_MessageID f = MsgIDAttitude then
       PAttitude (if length p < 28 then None else Some (attitude_at p))
     else PRaw p)"

lemma decodePayload_eq: "decodePayload f = Val (payload_of f)"
  by (simp add: decodePayload_def payload_of_def Let_def decodeHeartbeat_eq decodeGlobalPosition_eq
      decodeGPSRaw_eq decodeBatteryStatus_eq decodeAttitude_eq)

text \<open>The raw latitude, longitude and altitude of a position, by the message that carries it.\<close>

definition raw_lla :: "Frame \<Rightarrow> int \<times> int \<times> int" where
  "raw_lla f =
    (let p = fr_Payload f; o4 = (if fr_MessageID f = MsgIDGlobalPositionInt then 4 else 8)
     in (sint (le32_at p o4), sint (le32_at p (o4 + 4)), sint (le32_at p (o4 + 8))))"

definition raw_ok :: "Frame \<Rightarrow> bool" where
  "raw_ok f = (case raw_lla f of (la, lo, al) \<Rightarrow> raw_in_range la lo al)"

definition wrapped :: "GPSPosition \<Rightarrow> GPSPosition" where
  "wrapped g = g\<lparr>gps_Heading := Fin (wrap_heading (fval (gps_Heading g)))\<rparr>"

lemma validate_position:
  assumes "payload_of f = PGPS (Some g)"
  shows "ValidateGPS (Some g) = Val (if raw_ok f then (True, Some (wrapped g)) else (False, Some g))"
proof -
  let ?p = "fr_Payload f"
  from assms consider (gp) "fr_MessageID f = MsgIDGlobalPositionInt" "g = gp_position ?p"
    | (raw) "fr_MessageID f = MsgIDGPSRawInt" "g = raw_position ?p"
    by (auto simp: payload_of_def Let_def protocol_consts split: if_splits)
  then show ?thesis
  proof cases
    case gp
    have "gps_Heading g = Fin (fround (of_int (uint (le16_at ?p 26)) / 100))"
      by (simp add: gp(2) gp_position_def)
    then show ?thesis
      using u16_heading_bounds [of "le16_at ?p 26"]
      by (subst ValidateGPS_decoded [where la = "fst (raw_lla f)" and lo = "fst (snd (raw_lla f))"
            and al = "snd (snd (raw_lla f))" and h = "fround (of_int (uint (le16_at ?p 26)) / 100)"])
        (simp_all add: gp gp_position_def raw_lla_def raw_ok_def wrapped_def Let_def)
  next
    case raw
    have "gps_Heading g = Fin (fround (of_int (uint (le16_at ?p 26)) / 100))"
      by (simp add: raw(2) raw_position_def)
    then show ?thesis
      using u16_heading_bounds [of "le16_at ?p 26"]
      by (subst ValidateGPS_decoded [where la = "fst (raw_lla f)" and lo = "fst (snd (raw_lla f))"
            and al = "snd (snd (raw_lla f))" and h = "fround (of_int (uint (le16_at ?p 26)) / 100)"])
        (simp_all add: raw raw_position_def raw_lla_def raw_ok_def wrapped_def Let_def protocol_consts)
  qed
qed

text \<open>The payload after validation, or rejection.\<close>

definition checked_payload :: "Frame \<Rightarrow> Payload option" where
  "checked_payload f =
    (case payload_of f of
       PGPS (Some g) \<Rightarrow> if raw_ok f then Some (PGPS (Some (wrapped g))) else None
     | PBattery (Some b) \<Rightarrow> if 100 < sint (bat_Remaining b) then None else Some (PBattery (Some b))
     | p \<Rightarrow> Some p)"

lemma validatePayload_eq:
  "validatePayload (payload_of f) =
    Val (case checked_payload f of None \<Rightarrow> Inl ErrInvalidTelemetry | Some p \<Rightarrow> Inr p)"
  using validate_position [of f]
  by (auto simp: validatePayload_def checked_payload_def ValidateBattery_def
      split: Payload.splits option.splits)

lemma DecodePacket_eq:
  "DecodePacket d now data addr =
    (case ParseFrame (dec_parser d) data of
       Val (Inl e) \<Rightarrow> Val (Inl e)
     | Val (Inr (f, _)) \<Rightarrow>
         Val (if \<not> ValidateSystemID (fr_SystemID f) then Inl ErrInvalidSystemID
              else case checked_payload f of
                None \<Rightarrow> Inl ErrInvalidTelemetry
              | Some p \<Rightarrow> Inr \<lparr>ev_DroneID = \<lparr>SystemID = fr_SystemID f, ComponentID = fr_ComponentID f\<rparr>,
                  ev_MessageID = fr_MessageID f, ev_Timestamp = now, ev_SourceAddr = addr,
                  ev_Payload = p\<rparr>)
     | Panic r \<Rightarrow> Panic r
     | Diverge \<Rightarrow> Diverge)"
  using ParseFrame_total [of "dec_parser d" data]
  by (auto simp: DecodePacket_def decodePayload_eq validatePayload_eq split: sum.splits option.splits)

lemma DecodePacket_total: "\<exists>r. DecodePacket d now data addr = Val r"
  using ParseFrame_total [of "dec_parser d" data]
  by (auto simp: DecodePacket_eq split: sum.splits)

end
