(* ===== verification/Netmask.thy ===== *)
theory Netmask
  imports Prelude
begin

text \<open>
  What the packet filter uses of Go's \<^verbatim>\<open>net\<close> package: parsing a network in CIDR notation and testing
  whether an address lies in it.  IPv4 text is parsed here; the text of an IPv6 address goes to a
  function given as an argument, which returns its sixteen bytes.
\<close>

section \<open>Addresses\<close>

type_synonym IP = "byte list"

record IPNet =
  net_IP :: IP
  net_Mask :: "byte list"

definition v4_prefix :: "byte list" where
  "v4_prefix = replicate 10 0 @ [0xFF, 0xFF]"

definition To4 :: "IP \<Rightarrow> IP option" where
  "To4 ip =
    (if length ip = 4 then Some ip
     else if length ip = 16 \<and> take 12 ip = v4_prefix then Some (drop 12 ip)
     else None)"

text \<open>\<^verbatim>\<open>CIDRMask(ones, 8 * len)\<close>\<close>

fun cidr_mask :: "nat \<Rightarrow> nat \<Rightarrow> byte list" where
  "cidr_mask ones 0 = []"
| "cidr_mask ones (Suc len) =
    (if 8 \<le> ones then 0xFF # cidr_mask (ones - 8) len else NOT (drop_bit ones 0xFF) # cidr_mask 0 len)"

definition mask_ip :: "IP \<Rightarrow> byte list \<Rightarrow> IP" where
  "mask_ip ip m = map2 (AND) (if length m = 4 \<and> length ip = 16 \<and> take 12 ip = v4_prefix then drop 12 ip else ip) m"

section \<open>Parsing\<close>

definition digit :: "char \<Rightarrow> nat option" where
  "digit c = (let n = of_char c in if 48 \<le> n \<and> n \<le> (57 :: nat) then Some (n - 48) else None)"

text \<open>\<^verbatim>\<open>dtoi\<close>: all characters are digits, there is one, and the value stays below \<open>0xFFFFFF\<close>.\<close>

fun dtoi_from :: "nat \<Rightarrow> string \<Rightarrow> nat option" where
  "dtoi_from n [] = Some n"
| "dtoi_from n (c # cs) =
    (case digit c of
       None \<Rightarrow> None
     | Some d \<Rightarrow> if 0xFFFFFF \<le> 10 * n + d then None else dtoi_from (10 * n + d) cs)"

definition dtoi :: "string \<Rightarrow> nat option" where
  "dtoi s = (if s = [] then None else dtoi_from 0 s)"

fun split_at :: "char \<Rightarrow> string \<Rightarrow> string list" where
  "split_at sep [] = [[]]"
| "split_at sep (c # cs) =
    (case split_at sep cs of
       f # fs \<Rightarrow> if c = sep then [] # f # fs else (c # f) # fs
     | [] \<Rightarrow> [])"

text \<open>One decimal field: no leading zero, at most 255.\<close>

definition octet :: "string \<Rightarrow> byte option" where
  "octet s =
    (if s = [] \<or> (1 < length s \<and> hd s = CHR ''0'') then None
     else
       (case dtoi s of
          None \<Rightarrow> None
        | Some n \<Rightarrow> if 255 < n then None else Some (of_nat n)))"

definition parse_v4 :: "string \<Rightarrow> IP option" where
  "parse_v4 s =
    (case map octet (split_at (CHR ''.'') s) of
       [Some a, Some b, Some c, Some d] \<Rightarrow> Some [a, b, c, d]
     | _ \<Rightarrow> None)"

text \<open>\<^verbatim>\<open>netip.ParseAddr\<close> decides by the first dot, colon or percent sign.\<close>

definition parse_addr :: "(string \<Rightarrow> IP option) \<Rightarrow> string \<Rightarrow> IP option" where
  "parse_addr parse_v6 s =
    (case find (\<lambda>c. c \<in> set ''.:%'') s of
       None \<Rightarrow> None
     | Some c \<Rightarrow> if c = CHR ''.'' then parse_v4 s else if c = CHR '':'' then parse_v6 s else None)"

definition ParseCIDR :: "(string \<Rightarrow> IP option) \<Rightarrow> string \<Rightarrow> IPNet option" where
  "ParseCIDR parse_v6 s =
    (if CHR ''/'' \<notin> set s then None
     else
       (let addr = takeWhile (\<lambda>c. c \<noteq> CHR ''/'') s;
            mask = tl (dropWhile (\<lambda>c. c \<noteq> CHR ''/'') s)
        in case parse_addr parse_v6 addr of
             None \<Rightarrow> None
           | Some ip \<Rightarrow>
               (case dtoi mask of
                  None \<Rightarrow> None
                | Some n \<Rightarrow>
                    if 8 * length ip < n then None
                    else
                      (let m = cidr_mask n (length ip);
                           ip16 = (if length ip = 4 then v4_prefix @ ip else ip)
                       in Some \<lparr>net_IP = mask_ip ip16 m, net_Mask = m\<rparr>))))"

section \<open>Containment\<close>

definition number_and_mask :: "IPNet \<Rightarrow> (IP \<times> byte list) option" where
  "number_and_mask n =
    (let ip = (case To4 (net_IP n) of Some ip \<Rightarrow> ip | None \<Rightarrow> net_IP n); m = net_Mask n in
     if To4 (net_IP n) = None \<and> length ip \<noteq> 16 then None
     else if length m = 4 then (if length ip \<noteq> 4 then None else Some (ip, m))
     else if length m = 16 then Some (ip, if length ip = 4 then drop 12 m else m)
     else None)"

definition net_contains :: "IPNet \<Rightarrow> IP \<Rightarrow> bool" where
  "net_contains n ip =
    (let ip = (case To4 ip of Some x \<Rightarrow> x | None \<Rightarrow> ip) in
     case number_and_mask n of
       None \<Rightarrow> ip = []
     | Some (nn, m) \<Rightarrow>
         length ip = length nn \<and> list_all2 (=) (map2 (AND) nn m) (map2 (AND) ip m))"

section \<open>A prefix of bits\<close>

text \<open>The bits of an address, most significant first.\<close>

definition byte_bits :: "byte \<Rightarrow> bool list" where
  "byte_bits b = map (bit b) (rev [0..<8])"

definition ip_bits :: "IP \<Rightarrow> bool list" where
  "ip_bits ip = concat (map byte_bits ip)"

lemma length_byte_bits [simp]: "length (byte_bits b) = 8"
  by (simp add: byte_bits_def)

lemma length_ip_bits [simp]: "length (ip_bits ip) = 8 * length ip"
  by (induction ip) (simp_all add: ip_bits_def)

lemma ip_bits_simps [simp]: "ip_bits [] = []" "ip_bits (b # bs) = byte_bits b @ ip_bits bs"
  by (simp_all add: ip_bits_def)

lemma byte_eqI:
  assumes "\<And>n. n < 8 \<Longrightarrow> bit (x :: byte) n = bit y n"
  shows "x = y"
proof (rule bit_eqI)
  fix n
  show "bit x n = bit y n" using assms by (cases "n < 8") (auto dest: bit_imp_le_length)
qed

lemma take_byte_bits:
  "take k (byte_bits x) = take k (byte_bits y) \<longleftrightarrow> (\<forall>n < 8. 8 \<le> n + k \<longrightarrow> bit x n = bit y n)"
  unfolding byte_bits_def take_map take_rev
  by (auto simp del: upt_Suc)

lemma bit_byte_0xFF: "bit (0xFF :: byte) n \<longleftrightarrow> n < 8"
  using bit_mask_iff [of 8 n, where 'a = byte] by (simp add: mask_eq_exp_minus_1)

lemma bit_partial_mask: "n < 8 \<Longrightarrow> bit (NOT (drop_bit k 0xFF) :: byte) n \<longleftrightarrow> 8 \<le> n + k"
proof -
  assume "n < 8"
  then have "bit (NOT (drop_bit k 0xFF) :: byte) n \<longleftrightarrow> \<not> bit (drop_bit k (0xFF :: byte)) n"
    by (simp add: bit_not_iff)
  then show ?thesis by (simp only: bit_drop_bit_eq comp_def bit_byte_0xFF add.commute not_less)
qed

lemma masked_byte_eq:
  "x AND NOT (drop_bit k 0xFF) = y AND NOT (drop_bit k (0xFF :: byte)) \<longleftrightarrow>
    take k (byte_bits x) = take k (byte_bits y)"
  unfolding take_byte_bits
proof
  assume e: "x AND NOT (drop_bit k 0xFF) = y AND NOT (drop_bit k (0xFF :: byte))"
  have "bit x n = bit y n" if "n < 8" "8 \<le> n + k" for n
  proof -
    have "bit (x AND NOT (drop_bit k 0xFF)) n = bit (y AND NOT (drop_bit k (0xFF :: byte))) n" by (simp only: e)
    then show ?thesis using bit_partial_mask [OF that(1), of k] that(2) by (simp only: bit_and_iff) simp
  qed
  then show "\<forall>n < 8. 8 \<le> n + k \<longrightarrow> bit x n = bit y n" by simp
next
  assume "\<forall>n < 8. 8 \<le> n + k \<longrightarrow> bit x n = bit y n"
  then show "x AND NOT (drop_bit k 0xFF) = y AND NOT (drop_bit k (0xFF :: byte))"
    by (intro byte_eqI) (auto simp only: bit_and_iff bit_partial_mask)
qed

lemma byte_and_0xFF [simp]: "x AND 0xFF = (x :: byte)"
  by (intro byte_eqI) (simp only: bit_and_iff bit_byte_0xFF simp_thms)

lemma byte_bits_inj: "byte_bits x = byte_bits y \<longleftrightarrow> x = y"
  using take_byte_bits [of 8 x y] by (auto intro: byte_eqI)

lemma masked_eq:
  "length x = len \<Longrightarrow> length y = len \<Longrightarrow> n \<le> 8 * len \<Longrightarrow>
    map2 (AND) x (cidr_mask n len) = map2 (AND) y (cidr_mask n len) \<longleftrightarrow>
    take n (ip_bits x) = take n (ip_bits y)"
proof (induction n len arbitrary: x y rule: cidr_mask.induct)
  case (2 ones len)
  obtain a xs b ys where xy: "x = a # xs" "y = b # ys" "length xs = len" "length ys = len"
    using "2.prems" by (auto simp: length_Suc_conv)
  show ?case
  proof (cases "8 \<le> ones")
    case True
    then show ?thesis
      using "2.IH"(1) [OF True xy(3,4)] "2.prems" xy by (simp add: byte_bits_inj)
  next
    case False
    then show ?thesis
      using "2.IH"(2) [OF False xy(3,4)] xy False masked_byte_eq [of a ones b] by simp
  qed
qed simp

end
