(* ===== verification/Ingest.thy ===== *)
theory Ingest
  imports Mavlink_Correct Channel Config Goroutine Netmask
begin

text \<open>
  \<^verbatim>\<open>internal/ingest/packet.go\<close> and \<^verbatim>\<open>udp.go\<close>: the packet pool, the receive loop with its source
  filter, the workers, and the token bucket of every vehicle.  Packets live on a heap and are passed
  by address through the pool and the queue, because a buffer that went back to the pool is written
  again.  The socket, the clock and the pool's choices are arguments of the steps.
\<close>

section \<open>Packets and their pool\<close>

record Packet =
  pk_Data :: "byte list"
  pk_Length :: int
  pk_SourceAddr :: string

definition Packet_Reset :: "Packet \<Rightarrow> Packet" where
  "Packet_Reset p = p\<lparr>pk_Length := 0, pk_SourceAddr := []\<rparr>"

definition Packet_Bytes :: "Packet \<Rightarrow> byte list go" where
  "Packet_Bytes p = (if pk_Length p < 0 then Panic IndexOutOfRange else slice_of (pk_Data p) 0 (nat (pk_Length p)))"

record PacketPool =
  pp_heap :: "Packet list"
  pp_free :: "nat list"
  pp_bufferSize :: int

definition NewPacketPool :: "int \<Rightarrow> PacketPool" where
  "NewPacketPool bufferSize = \<lparr>pp_heap = [], pp_free = [], pp_bufferSize = bufferSize\<rparr>"

text \<open>
  \<^verbatim>\<open>sync.Pool.Get\<close> hands out any free packet, or makes one: the choice is an argument, and a choice
  that is not free counts as making one.
\<close>

definition Pool_Get :: "nat option \<Rightarrow> PacketPool \<Rightarrow> (nat \<times> PacketPool) go" where
  "Pool_Get choice pp =
    (case choice of
       Some a \<Rightarrow>
         if a \<in> set (pp_free pp)
         then Val (a, pp\<lparr>pp_free := remove1 a (pp_free pp),
                pp_heap := (pp_heap pp)[a := Packet_Reset (pp_heap pp ! a)]\<rparr>)
         else Panic NilDereference
     | None \<Rightarrow>
         if pp_bufferSize pp < 0 then Panic MakesliceLenOutOfRange
         else
           (let pkt = \<lparr>pk_Data = replicate (nat (pp_bufferSize pp)) 0, pk_Length = 0, pk_SourceAddr = []\<rparr>
            in Val (length (pp_heap pp), pp\<lparr>pp_heap := pp_heap pp @ [Packet_Reset pkt]\<rparr>)))"

text \<open>A nil packet is ignored, and so is a buffer of another size.\<close>

definition Pool_Put :: "nat option \<Rightarrow> PacketPool \<Rightarrow> PacketPool" where
  "Pool_Put pkt pp =
    (case pkt of
       None \<Rightarrow> pp
     | Some a \<Rightarrow>
         if int (length (pk_Data (pp_heap pp ! a))) = pp_bufferSize pp
         then pp\<lparr>pp_free := a # pp_free pp\<rparr> else pp)"

section \<open>Token buckets\<close>

text \<open>\<^verbatim>\<open>int64\<close> arithmetic on the nanosecond clock.\<close>

definition wrap64 :: "int \<Rightarrow> int" where
  "wrap64 n = sint (word_of_int n :: 64 word)"

record tokenBucket =
  tb_tokens :: f64
  tb_max :: f64
  tb_rate :: f64
  tb_lastTime :: int
  tb_drops :: uint64
  tb_windowStart :: int
  tb_windowPackets :: uint64
  tb_lastRate :: f64
  tb_noisyCount :: uint64

definition newTokenBucket :: "int \<Rightarrow> int \<Rightarrow> int \<Rightarrow> tokenBucket" where
  "newTokenBucket now perSecond burst =
    (let mx = f64_of_int (perSecond + burst) in
     \<lparr>tb_tokens = mx, tb_max = mx, tb_rate = f64_div (f64_of_int perSecond) (f64_lit 1000000000),
      tb_lastTime = now, tb_drops = 0, tb_windowStart = now, tb_windowPackets = 0, tb_lastRate = Fin 0,
      tb_noisyCount = 0\<rparr>)"

text \<open>The packet-rate window: closed after a second, with the detection of noisy drones.\<close>

definition trackRate :: "int \<Rightarrow> int \<Rightarrow> tokenBucket \<Rightarrow> tokenBucket" where
  "trackRate rateLimit now b =
    (let b = b\<lparr>tb_windowPackets := tb_windowPackets b + 1\<rparr>;
         windowElapsed = wrap64 (now - tb_windowStart b)
     in if 1000000000 \<le> windowElapsed then
          (let b = b\<lparr>tb_lastRate := f64_div (f64_mul (f64_of_int (uint (tb_windowPackets b))) (f64_lit 1000000000))
                 (f64_of_int windowElapsed),
                 tb_windowPackets := 0, tb_windowStart := now\<rparr>
           in if f64_lt (f64_mul (f64_of_int rateLimit) (f64_lit 5)) (tb_lastRate b)
              then b\<lparr>tb_noisyCount := tb_noisyCount b + 1\<rparr> else b)
        else b)"

definition refill :: "int \<Rightarrow> tokenBucket \<Rightarrow> tokenBucket" where
  "refill elapsed b =
    (let b = b\<lparr>tb_tokens := f64_add (tb_tokens b) (f64_mul (f64_of_int elapsed) (tb_rate b))\<rparr>
     in if f64_lt (tb_max b) (tb_tokens b) then b\<lparr>tb_tokens := tb_max b\<rparr> else b)"

text \<open>The critical section of \<^verbatim>\<open>checkRateLimit\<close>: whether the message passes.\<close>

definition takeToken :: "int \<Rightarrow> int \<Rightarrow> tokenBucket \<Rightarrow> bool \<times> tokenBucket" where
  "takeToken rateLimit now b =
    (let elapsed = wrap64 (now - tb_lastTime b);
         b = b\<lparr>tb_lastTime := now\<rparr>;
         b = trackRate rateLimit now b;
         b = refill elapsed b
     in if f64_lt (tb_tokens b) (f64_lit 1) then (False, b\<lparr>tb_drops := tb_drops b + 1\<rparr>)
        else (True, b\<lparr>tb_tokens := f64_sub (tb_tokens b) (f64_lit 1)\<rparr>))"

section \<open>The listener and its workers\<close>

record WorkerPool =
  wp_numWorkers :: int
  wp_decoder :: Decoder
  wp_rateLimit :: int
  wp_rateBurst :: int
  wp_rateLimiters :: "uint8 \<Rightarrow> tokenBucket option"
  wp_processed :: uint64
  wp_errors :: uint64
  wp_outputDrops :: uint64

definition NewWorkerPool :: "int \<Rightarrow> int \<Rightarrow> int \<Rightarrow> WorkerPool" where
  "NewWorkerPool numWorkers rateLimit rateBurst =
    \<lparr>wp_numWorkers = numWorkers, wp_decoder = NewDecoder, wp_rateLimit = rateLimit, wp_rateBurst = rateBurst,
     wp_rateLimiters = Map.empty, wp_processed = 0, wp_errors = 0, wp_outputDrops = 0\<rparr>"

record UDPListener =
  ul_cfg :: UDPConfig
  ul_workerCfg :: WorkerConfig
  ul_droneCfg :: DroneConfig
  ul_pool :: PacketPool
  ul_queue :: "nat chan"
  ul_output :: "TelemetryEvent chan"
  ul_allowedNets :: "IPNet list"
  ul_packetsReceived :: uint64
  ul_packetsDropped :: uint64
  ul_parseErrors :: uint64
  ul_workers :: WorkerPool

text \<open>The whitelist: networks that do not parse are skipped.\<close>

fun parseCIDRs :: "(string \<Rightarrow> IP option) \<Rightarrow> string list \<Rightarrow> IPNet list" where
  "parseCIDRs parse_v6 [] = []"
| "parseCIDRs parse_v6 (cidr # cidrs) =
    (case ParseCIDR parse_v6 cidr of
       None \<Rightarrow> parseCIDRs parse_v6 cidrs
     | Some ipNet \<Rightarrow> ipNet # parseCIDRs parse_v6 cidrs)"

text \<open>
  The packet queue and the worker pool do not exist before \<^verbatim>\<open>Start\<close>; nothing reads them until then.
\<close>

definition NewUDPListener ::
    "(string \<Rightarrow> IP option) \<Rightarrow> UDPConfig \<Rightarrow> WorkerConfig \<Rightarrow> DroneConfig \<Rightarrow> TelemetryEvent chan \<Rightarrow> UDPListener" where
  "NewUDPListener parse_v6 cfg workerCfg droneCfg output =
    \<lparr>ul_cfg = cfg, ul_workerCfg = workerCfg, ul_droneCfg = droneCfg,
     ul_pool = NewPacketPool (udp_ReadBufferSize cfg), ul_queue = \<lparr>ch_buf = [], ch_cap = 0, ch_closed = False\<rparr>,
     ul_output = output, ul_allowedNets = parseCIDRs parse_v6 (udp_AllowedCIDRs cfg),
     ul_packetsReceived = 0, ul_packetsDropped = 0, ul_parseErrors = 0, ul_workers = NewWorkerPool 0 0 0\<rparr>"

text \<open>\<^verbatim>\<open>Start\<close> once the socket is open, up to the start of the goroutines.\<close>

definition Listener_Start :: "UDPListener \<Rightarrow> UDPListener go" where
  "Listener_Start l =
    go_bind (make_chan (udp_PacketQueueSize (ul_cfg l))) (\<lambda>packetChan.
    Val (l\<lparr>ul_queue := packetChan,
      ul_workers := NewWorkerPool (wk_PoolSize (ul_workerCfg l)) (dc_MaxMessagesPerSecond (ul_droneCfg l))
        (dc_RateLimitBurst (ul_droneCfg l))\<rparr>))"

fun isAllowed :: "IPNet list \<Rightarrow> IP \<Rightarrow> bool" where
  "isAllowed [] ip = False"
| "isAllowed (n # ns) ip = (if net_contains n ip then True else isAllowed ns ip)"

subsection \<open>Receiving\<close>

text \<open>What one read of the socket gives: a datagram with its sender, a time-out, or an error.\<close>

datatype read_result =
    ReadOK "byte list" IP string
  | ReadTimeout
  | ReadError

text \<open>One turn of \<^verbatim>\<open>receiveLoop\<close>: the two looks at the context, the pool's choice and the read.\<close>

record receive_input =
  ri_done :: bool
  ri_choice :: "nat option"
  ri_read :: read_result
  ri_done_later :: bool

definition with_pool :: "(PacketPool \<Rightarrow> PacketPool) \<Rightarrow> (UDPListener, unit) act" where
  "with_pool f = act_modify (\<lambda>l. l\<lparr>ul_pool := f (ul_pool l)\<rparr>)"

text \<open>A datagram longer than the buffer is cut off; the rest of a longer buffer keeps its bytes.\<close>

definition fill_packet :: "byte list \<Rightarrow> string \<Rightarrow> Packet \<Rightarrow> Packet" where
  "fill_packet data addr p =
    (let n = min (length data) (length (pk_Data p)) in
     p\<lparr>pk_Data := take n data @ drop n (pk_Data p), pk_Length := int n, pk_SourceAddr := addr\<rparr>)"

definition enqueuePacket :: "nat \<Rightarrow> (UDPListener, unit) act" where
  "enqueuePacket a l =
    (case try_send a (ul_queue l) of
       Val (c, sent) \<Rightarrow>
         if sent then (Val (), l\<lparr>ul_queue := c\<rparr>)
         else with_pool (Pool_Put (Some a)) (l\<lparr>ul_packetsDropped := ul_packetsDropped l + 1\<rparr>)
     | Panic p \<Rightarrow> (Panic p, l)
     | Diverge \<Rightarrow> (Diverge, l))"

text \<open>A turn up to its send to the queue: the loop ends, goes on, or has a packet to hand over.\<close>

datatype received = LoopEnds | NextTurn | HandOver nat

definition receiveRead :: "receive_input \<Rightarrow> (UDPListener, received) act" where
  "receiveRead i l =
    (if ri_done i then (Val LoopEnds, l)
     else
       act_bind (act_go (Pool_Get (ri_choice i) (ul_pool l))) (\<lambda>(a, pool).
       act_then (act_modify (\<lambda>l. l\<lparr>ul_pool := pool\<rparr>)) (
       case ri_read i of
         ReadTimeout \<Rightarrow> act_then (with_pool (Pool_Put (Some a))) (act_return NextTurn)
       | ReadError \<Rightarrow>
           if ri_done_later i then act_then (with_pool (Pool_Put (Some a))) (act_return LoopEnds)
           else act_then (with_pool (Pool_Put (Some a))) (act_return NextTurn)
       | ReadOK data ip addr \<Rightarrow>
           act_then (with_pool (\<lambda>pp. pp\<lparr>pp_heap := (pp_heap pp)[a := fill_packet data addr (pp_heap pp ! a)]\<rparr>)) (
           act_then (act_modify (\<lambda>l. l\<lparr>ul_packetsReceived := ul_packetsReceived l + 1\<rparr>)) (
           \<lambda>l. if ul_allowedNets l \<noteq> [] \<and> \<not> isAllowed (ul_allowedNets l) ip
             then act_then (act_modify (\<lambda>l. l\<lparr>ul_packetsDropped := ul_packetsDropped l + 1\<rparr>)) (
                  act_then (with_pool (Pool_Put (Some a))) (act_return NextTurn)) l
             else act_return (HandOver a) l)))) l)"

text \<open>The whole turn; the result says whether the loop goes on.\<close>

definition receiveOne :: "receive_input \<Rightarrow> (UDPListener, bool) act" where
  "receiveOne i =
    act_bind (receiveRead i) (\<lambda>r.
    case r of
      LoopEnds \<Rightarrow> act_return False
    | NextTurn \<Rightarrow> act_return True
    | HandOver a \<Rightarrow> act_then (enqueuePacket a) (act_return True))"

fun receiveLoop :: "receive_input list \<Rightarrow> (UDPListener, unit) act" where
  "receiveLoop [] l = (Val (), l)"
| "receiveLoop (i # is) l =
    act_bind (receiveOne i) (\<lambda>continue. if continue then receiveLoop is else act_return ()) l"

text \<open>The shutdown of \<^verbatim>\<open>Start\<close> closes the packet queue, without waiting for the receive loop.\<close>

definition stopListener :: "(UDPListener, unit) act" where
  "stopListener l =
    act_bind (act_go (close_chan (ul_queue l))) (\<lambda>c. act_modify (\<lambda>l. l\<lparr>ul_queue := c\<rparr>)) l"

subsection \<open>Processing\<close>

text \<open>The clock readings of one packet: in the decoder, in the eager new bucket, in the check.\<close>

record clock =
  ck_decode :: instant
  ck_bucket :: int
  ck_check :: int

definition checkRateLimit :: "clock \<Rightarrow> uint8 \<Rightarrow> WorkerPool \<Rightarrow> bool \<times> WorkerPool" where
  "checkRateLimit ck systemID wp =
    (let bucket = (case wp_rateLimiters wp systemID of
           Some b \<Rightarrow> b
         | None \<Rightarrow> newTokenBucket (ck_bucket ck) (wp_rateLimit wp) (wp_rateBurst wp));
         (ok, bucket) = takeToken (wp_rateLimit wp) (ck_check ck) bucket
     in (ok, wp\<lparr>wp_rateLimiters := (wp_rateLimiters wp)(systemID \<mapsto> bucket)\<rparr>))"

definition with_workers :: "(WorkerPool \<Rightarrow> WorkerPool) \<Rightarrow> (UDPListener, unit) act" where
  "with_workers f = act_modify (\<lambda>l. l\<lparr>ul_workers := f (ul_workers l)\<rparr>)"

definition sendEvent :: "TelemetryEvent \<Rightarrow> (UDPListener, unit) act" where
  "sendEvent event l =
    (case try_send event (ul_output l) of
       Val (c, sent) \<Rightarrow>
         if sent then (Val (), l\<lparr>ul_output := c\<rparr>)
         else with_workers (\<lambda>wp. wp\<lparr>wp_outputDrops := wp_outputDrops wp + 1\<rparr>) l
     | Panic p \<Rightarrow> (Panic p, l)
     | Diverge \<Rightarrow> (Diverge, l))"

definition handlePacket :: "clock \<Rightarrow> nat \<Rightarrow> (UDPListener, unit) act" where
  "handlePacket ck a l =
    (let pkt = pp_heap (ul_pool l) ! a in
     act_bind (act_go (go_bind (Packet_Bytes pkt) (\<lambda>bytes.
       DecodePacket (wp_decoder (ul_workers l)) (ck_decode ck) bytes (pk_SourceAddr pkt)))) (\<lambda>r.
     case r of
       Inl err \<Rightarrow> with_workers (\<lambda>wp. wp\<lparr>wp_errors := wp_errors wp + 1\<rparr>)
     | Inr event \<Rightarrow>
         (\<lambda>l. let (ok, wp) = checkRateLimit ck (SystemID (ev_DroneID event)) (ul_workers l) in
           act_then (with_workers (\<lambda>_. wp)) (
           if \<not> ok then act_return ()
           else
             act_then (with_workers (\<lambda>wp. wp\<lparr>wp_processed := wp_processed wp + 1\<rparr>)) (
             sendEvent event)) l)) l)"

text \<open>The deferred \<^verbatim>\<open>Put\<close> runs on every way out, a panic included.\<close>

definition processPacket :: "clock \<Rightarrow> nat \<Rightarrow> (UDPListener, unit) act" where
  "processPacket ck a l =
    (case handlePacket ck a l of (r, l') \<Rightarrow> (r, l'\<lparr>ul_pool := Pool_Put (Some a) (ul_pool l')\<rparr>))"

text \<open>A worker: it receives an address from the queue in its select, and processes the packet.\<close>

definition worker :: "(clock \<times> nat) selected list \<Rightarrow> UDPListener \<Rightarrow> UDPListener" where
  "worker = supervised (\<lambda>(ck, a). processPacket ck a)"

subsection \<open>Statistics\<close>

record ListenerStats =
  ls_PacketsReceived :: uint64
  ls_PacketsDropped :: uint64
  ls_ParseErrors :: uint64

definition UDPListener_Stats :: "UDPListener \<Rightarrow> ListenerStats" where
  "UDPListener_Stats l = \<lparr>ls_PacketsReceived = ul_packetsReceived l, ls_PacketsDropped = ul_packetsDropped l,
     ls_ParseErrors = ul_parseErrors l\<rparr>"

record WorkerStats =
  ws_Processed :: uint64
  ws_Errors :: uint64

definition WorkerPool_Stats :: "WorkerPool \<Rightarrow> WorkerStats" where
  "WorkerPool_Stats wp = \<lparr>ws_Processed = wp_processed wp, ws_Errors = wp_errors wp\<rparr>"

end
