(* ===== verification/Ingest_Correct.thy ===== *)
theory Ingest_Correct
  imports Ingest Transition "HOL-Library.Multiset"
begin

text \<open>
  Correctness of the ingest pipeline: what a turn of the receive loop and the processing of a packet
  do, the ownership discipline of the packet buffers over arbitrary interleavings of the receiver and
  the workers, and the accounting of packets.
\<close>

section \<open>The pipeline as a system\<close>

text \<open>
  The addresses in flight are those a worker took from the queue and has not put back yet.
\<close>

record pipeline =
  pl_listener :: UDPListener
  pl_flight :: "nat list"

datatype ingest_op =
    IReceive receive_input
  | IDequeue
  | IProcess clock nat
  | IConsume

inductive ingest_step :: "pipeline \<Rightarrow> ingest_op \<Rightarrow> pipeline \<Rightarrow> bool" where
  step_receive: "(case ri_choice i of None \<Rightarrow> True | Some a \<Rightarrow> a \<in> set (pp_free (ul_pool (pl_listener s)))) \<Longrightarrow>
    ingest_step s (IReceive i) (s\<lparr>pl_listener := snd (receiveOne i (pl_listener s))\<rparr>)"
| step_dequeue: "recv (ul_queue (pl_listener s)) = Some (Some a, c) \<Longrightarrow>
    ingest_step s IDequeue (s\<lparr>pl_listener := (pl_listener s)\<lparr>ul_queue := c\<rparr>, pl_flight := a # pl_flight s\<rparr>)"
| step_process: "a \<in> set (pl_flight s) \<Longrightarrow>
    ingest_step s (IProcess ck a) (s\<lparr>pl_listener := snd (recovered (processPacket ck a) (pl_listener s)),
      pl_flight := remove1 a (pl_flight s)\<rparr>)"
| step_consume: "recv (ul_output (pl_listener s)) = Some (Some ev, c) \<Longrightarrow>
    ingest_step s IConsume (s\<lparr>pl_listener := (pl_listener s)\<lparr>ul_output := c\<rparr>\<rparr>)"

inductive_cases ingest_step_receiveE: "ingest_step s (IReceive i) s'"
inductive_cases ingest_step_dequeueE: "ingest_step s IDequeue s'"
inductive_cases ingest_step_processE: "ingest_step s (IProcess ck a) s'"
inductive_cases ingest_step_consumeE: "ingest_step s IConsume s'"

abbreviation ingest_run :: "pipeline \<Rightarrow> ingest_op list \<Rightarrow> pipeline \<Rightarrow> bool" where
  "ingest_run \<equiv> run_of ingest_step"

lemmas ingest_snoc = run_snoc [where step = ingest_step]

section \<open>Who holds a buffer\<close>

text \<open>The addresses that are free, queued or in flight.\<close>

definition holders :: "pipeline \<Rightarrow> nat list" where
  "holders s = pp_free (ul_pool (pl_listener s)) @ ch_buf (ul_queue (pl_listener s)) @ pl_flight s"

definition buffers_ok :: "PacketPool \<Rightarrow> bool" where
  "buffers_ok pp \<longleftrightarrow> 0 \<le> pp_bufferSize pp \<and>
     (\<forall>p\<in>set (pp_heap pp). int (length (pk_Data p)) = pp_bufferSize pp \<and>
        0 \<le> pk_Length p \<and> pk_Length p \<le> pp_bufferSize pp)"

text \<open>What reading and processing rely on, and what also handing over does.\<close>

definition core_ok :: "UDPListener \<Rightarrow> bool" where
  "core_ok l \<longleftrightarrow> buffers_ok (ul_pool l) \<and> open_chan (ul_output l)"

definition listener_ok :: "UDPListener \<Rightarrow> bool" where
  "listener_ok l \<longleftrightarrow> buffers_ok (ul_pool l) \<and> open_chan (ul_queue l) \<and> open_chan (ul_output l)"

lemma listener_core: "listener_ok l \<Longrightarrow> core_ok l"
  by (simp add: listener_ok_def core_ok_def)

definition pipeline_ok :: "pipeline \<Rightarrow> bool" where
  "pipeline_ok s \<longleftrightarrow> listener_ok (pl_listener s) \<and>
     mset (holders s) = mset [0..<length (pp_heap (ul_pool (pl_listener s)))]"

lemma holders_set:
  assumes "pipeline_ok s"
  shows "distinct (holders s)" "set (holders s) = {..<length (pp_heap (ul_pool (pl_listener s)))}"
proof -
  have m: "mset (holders s) = mset [0..<length (pp_heap (ul_pool (pl_listener s)))]"
    using assms by (simp add: pipeline_ok_def)
  then show "distinct (holders s)" using mset_eq_imp_distinct_iff [OF m] by (simp only: distinct_upt)
  from m have "set (holders s) = set [0..<length (pp_heap (ul_pool (pl_listener s)))]" by (rule mset_eq_setD)
  then show "set (holders s) = {..<length (pp_heap (ul_pool (pl_listener s)))}" by (simp only: atLeast_upt)
qed

lemma buffers_ok_update:
  "buffers_ok pp \<Longrightarrow> int (length (pk_Data p)) = pp_bufferSize pp \<Longrightarrow> 0 \<le> pk_Length p \<Longrightarrow>
     pk_Length p \<le> pp_bufferSize pp \<Longrightarrow> buffers_ok (pp\<lparr>pp_heap := (pp_heap pp)[a := p]\<rparr>)"
  by (auto simp: buffers_ok_def dest: set_update_subset_insert [THEN subsetD])

lemma Pool_Put_ok:
  "buffers_ok pp \<Longrightarrow> a < length (pp_heap pp) \<Longrightarrow> Pool_Put (Some a) pp = pp\<lparr>pp_free := a # pp_free pp\<rparr>"
  by (simp add: Pool_Put_def buffers_ok_def)

lemma buffers_ok_free [simp]: "buffers_ok (pp\<lparr>pp_free := f\<rparr>) = buffers_ok pp"
  by (simp add: buffers_ok_def)

lemma fill_packet_ok:
  "int (length (pk_Data p)) = n \<Longrightarrow> int (length (pk_Data (fill_packet data addr p))) = n \<and>
     0 \<le> pk_Length (fill_packet data addr p) \<and> pk_Length (fill_packet data addr p) \<le> n"
  by (auto simp: fill_packet_def Let_def)

section \<open>Taking a buffer\<close>

text \<open>A buffer taken from the pool belongs to nobody else.\<close>

definition can_get :: "nat option \<Rightarrow> PacketPool \<Rightarrow> bool" where
  "can_get choice pp \<longleftrightarrow> (case choice of None \<Rightarrow> True | Some a \<Rightarrow> a \<in> set (pp_free pp))"

definition got_addr :: "nat option \<Rightarrow> PacketPool \<Rightarrow> nat" where
  "got_addr choice pp = (case choice of Some a \<Rightarrow> a | None \<Rightarrow> length (pp_heap pp))"

definition got_pool :: "nat option \<Rightarrow> PacketPool \<Rightarrow> PacketPool" where
  "got_pool choice pp =
    (case choice of
       Some a \<Rightarrow> pp\<lparr>pp_free := remove1 a (pp_free pp), pp_heap := (pp_heap pp)[a := Packet_Reset (pp_heap pp ! a)]\<rparr>
     | None \<Rightarrow> pp\<lparr>pp_heap := pp_heap pp @ [\<lparr>pk_Data = replicate (nat (pp_bufferSize pp)) 0, pk_Length = 0,
         pk_SourceAddr = []\<rparr>]\<rparr>)"

lemma Pool_Get_eq:
  "buffers_ok pp \<Longrightarrow> can_get choice pp \<Longrightarrow> Pool_Get choice pp = Val (got_addr choice pp, got_pool choice pp)"
  by (auto simp: Pool_Get_def can_get_def got_addr_def got_pool_def buffers_ok_def Packet_Reset_def
      split: option.splits)

lemma got_pool_ok:
  assumes "buffers_ok pp" "can_get choice pp" "set (pp_free pp) \<subseteq> {..<length (pp_heap pp)}"
  shows "buffers_ok (got_pool choice pp)" "got_addr choice pp < length (pp_heap (got_pool choice pp))"
    "pp_bufferSize (got_pool choice pp) = pp_bufferSize pp"
    "int (length (pk_Data (pp_heap (got_pool choice pp) ! got_addr choice pp))) = pp_bufferSize pp"
proof -
  have old: "int (length (pk_Data (pp_heap pp ! a))) = pp_bufferSize pp" if "a < length (pp_heap pp)" for a
    using assms(1) that by (auto simp: buffers_ok_def)
  show "buffers_ok (got_pool choice pp)"
  proof (cases choice)
    case (Some a)
    then have a: "a < length (pp_heap pp)" using assms(2,3) by (auto simp: can_get_def)
    have "buffers_ok (pp\<lparr>pp_heap := (pp_heap pp)[a := Packet_Reset (pp_heap pp ! a)]\<rparr>)"
      using assms(1) old [OF a] by (intro buffers_ok_update) (simp_all add: Packet_Reset_def buffers_ok_def)
    then show ?thesis by (simp add: Some got_pool_def buffers_ok_def)
  next
    case None
    then show ?thesis using assms(1) by (auto simp: got_pool_def buffers_ok_def)
  qed
  show "got_addr choice pp < length (pp_heap (got_pool choice pp))"
    using assms(2,3) by (auto simp: got_addr_def got_pool_def can_get_def split: option.splits)
  show "pp_bufferSize (got_pool choice pp) = pp_bufferSize pp"
    by (simp add: got_pool_def split: option.split)
  show "int (length (pk_Data (pp_heap (got_pool choice pp) ! got_addr choice pp))) = pp_bufferSize pp"
    using assms old by (auto simp: got_addr_def got_pool_def can_get_def Packet_Reset_def buffers_ok_def
        split: option.splits)
qed

lemma mset_got_pool:
  "can_get choice pp \<Longrightarrow>
     mset (got_addr choice pp # pp_free (got_pool choice pp)) + mset [0..<length (pp_heap pp)] =
     mset (pp_free pp) + mset [0..<length (pp_heap (got_pool choice pp))]"
  by (auto simp: can_get_def got_addr_def got_pool_def atLeastLessThanSuc split: option.splits)

section \<open>A turn of the receive loop\<close>

text \<open>The buffer a turn took, filled when a datagram came, and where it went.\<close>

definition arrived :: "receive_input \<Rightarrow> UDPListener \<Rightarrow> UDPListener" where
  "arrived i l =
    (let a = got_addr (ri_choice i) (ul_pool l); pp = got_pool (ri_choice i) (ul_pool l) in
     case ri_read i of
       ReadOK data ip addr \<Rightarrow>
         l\<lparr>ul_pool := pp\<lparr>pp_heap := (pp_heap pp)[a := fill_packet data addr (pp_heap pp ! a)]\<rparr>,
           ul_packetsReceived := ul_packetsReceived l + 1\<rparr>
     | _ \<Rightarrow> l\<lparr>ul_pool := pp\<rparr>)"

definition accepts :: "receive_input \<Rightarrow> UDPListener \<Rightarrow> bool" where
  "accepts i l \<longleftrightarrow>
    (case ri_read i of
       ReadOK data ip addr \<Rightarrow>
         (ul_allowedNets l = [] \<or> isAllowed (ul_allowedNets l) ip) \<and>
         length (ch_buf (ul_queue l)) < ch_cap (ul_queue l)
     | _ \<Rightarrow> False)"

definition is_datagram :: "read_result \<Rightarrow> bool" where
  "is_datagram r \<longleftrightarrow> (case r of ReadOK data ip addr \<Rightarrow> True | _ \<Rightarrow> False)"

definition after_receive :: "receive_input \<Rightarrow> UDPListener \<Rightarrow> UDPListener" where
  "after_receive i l =
    (let a = got_addr (ri_choice i) (ul_pool l); l1 = arrived i l in
     if ri_done i then l
     else if accepts i l then l1\<lparr>ul_queue := (ul_queue l)\<lparr>ch_buf := ch_buf (ul_queue l) @ [a]\<rparr>\<rparr>
     else
       l1\<lparr>ul_pool := (ul_pool l1)\<lparr>pp_free := a # pp_free (ul_pool l1)\<rparr>,
          ul_packetsDropped := ul_packetsDropped l + (if is_datagram (ri_read i) then 1 else 0)\<rparr>)"

lemma arrived_ok:
  assumes "core_ok l" "can_get (ri_choice i) (ul_pool l)"
    "set (pp_free (ul_pool l)) \<subseteq> {..<length (pp_heap (ul_pool l))}"
  shows "buffers_ok (ul_pool (arrived i l))"
    "got_addr (ri_choice i) (ul_pool l) < length (pp_heap (ul_pool (arrived i l)))"
    "Pool_Put (Some (got_addr (ri_choice i) (ul_pool l))) (ul_pool (arrived i l)) =
      (ul_pool (arrived i l))\<lparr>pp_free := got_addr (ri_choice i) (ul_pool l) # pp_free (ul_pool (arrived i l))\<rparr>"
proof -
  let ?a = "got_addr (ri_choice i) (ul_pool l)" and ?pp = "got_pool (ri_choice i) (ul_pool l)"
  have g: "buffers_ok ?pp" "?a < length (pp_heap ?pp)" "pp_bufferSize ?pp = pp_bufferSize (ul_pool l)"
    "int (length (pk_Data (pp_heap ?pp ! ?a))) = pp_bufferSize (ul_pool l)"
    using assms got_pool_ok [of "ul_pool l" "ri_choice i"] by (simp_all add: core_ok_def)
  show ok: "buffers_ok (ul_pool (arrived i l))"
  proof (cases "ri_read i")
    case (ReadOK data ip addr)
    have "buffers_ok (?pp\<lparr>pp_heap := (pp_heap ?pp)[?a := fill_packet data addr (pp_heap ?pp ! ?a)]\<rparr>)"
      using g fill_packet_ok [OF g(4), of data addr] by (intro buffers_ok_update) simp_all
    then show ?thesis by (simp add: arrived_def ReadOK Let_def)
  qed (use g in \<open>simp_all add: arrived_def Let_def\<close>)
  show a: "?a < length (pp_heap (ul_pool (arrived i l)))"
    using g by (simp add: arrived_def Let_def split: read_result.split)
  show "Pool_Put (Some ?a) (ul_pool (arrived i l)) =
      (ul_pool (arrived i l))\<lparr>pp_free := ?a # pp_free (ul_pool (arrived i l))\<rparr>"
    by (rule Pool_Put_ok [OF ok a])
qed

definition passes :: "read_result \<Rightarrow> UDPListener \<Rightarrow> bool" where
  "passes r l \<longleftrightarrow>
    (case r of ReadOK data ip addr \<Rightarrow> ul_allowedNets l = [] \<or> isAllowed (ul_allowedNets l) ip | _ \<Rightarrow> False)"

definition read_outcome :: "receive_input \<Rightarrow> UDPListener \<Rightarrow> received" where
  "read_outcome i l =
    (if ri_done i then LoopEnds
     else if passes (ri_read i) l then HandOver (got_addr (ri_choice i) (ul_pool l))
     else if ri_read i = ReadError \<and> ri_done_later i then LoopEnds else NextTurn)"

definition after_read :: "receive_input \<Rightarrow> UDPListener \<Rightarrow> UDPListener" where
  "after_read i l =
    (let a = got_addr (ri_choice i) (ul_pool l); l1 = arrived i l in
     if ri_done i then l
     else if passes (ri_read i) l then l1
     else
       l1\<lparr>ul_pool := (ul_pool l1)\<lparr>pp_free := a # pp_free (ul_pool l1)\<rparr>,
          ul_packetsDropped := ul_packetsDropped l + (if is_datagram (ri_read i) then 1 else 0)\<rparr>)"

lemma receiveRead_eq:
  assumes "core_ok l" "can_get (ri_choice i) (ul_pool l)"
    "set (pp_free (ul_pool l)) \<subseteq> {..<length (pp_heap (ul_pool l))}"
  shows "receiveRead i l = (Val (read_outcome i l), after_read i l)"
proof (cases "ri_done i")
  case False
  have g: "Pool_Get (ri_choice i) (ul_pool l) =
      Val (got_addr (ri_choice i) (ul_pool l), got_pool (ri_choice i) (ul_pool l))"
    using assms by (intro Pool_Get_eq) (simp_all add: core_ok_def)
  note put = arrived_ok(3) [OF assms]
  note defs = receiveRead_def read_outcome_def after_read_def arrived_def passes_def is_datagram_def Let_def act_simps
    with_pool_def
  show ?thesis
    using False g put by (cases "ri_read i") (simp_all add: defs)
qed (simp add: receiveRead_def read_outcome_def after_read_def Let_def)

lemma enqueuePacket_arrived:
  assumes "listener_ok l" "can_get (ri_choice i) (ul_pool l)"
    "set (pp_free (ul_pool l)) \<subseteq> {..<length (pp_heap (ul_pool l))}"
    and "\<not> ri_done i" "passes (ri_read i) l"
  shows "enqueuePacket (got_addr (ri_choice i) (ul_pool l)) (arrived i l) = (Val (), after_receive i l)"
proof -
  have "accepts i l \<longleftrightarrow> length (ch_buf (ul_queue l)) < ch_cap (ul_queue l)" "is_datagram (ri_read i)"
    using assms(5) by (auto simp: accepts_def passes_def is_datagram_def split: read_result.splits)
  moreover have "ul_queue (arrived i l) = ul_queue l" "ul_packetsDropped (arrived i l) = ul_packetsDropped l"
    by (simp_all add: arrived_def Let_def split: read_result.split)
  moreover have "\<not> ch_closed (ul_queue l)" using assms(1) by (simp add: listener_ok_def open_chan_def)
  ultimately show ?thesis
    using assms(4) arrived_ok(3) [OF listener_core [OF assms(1)] assms(2,3)]
    by (auto simp: enqueuePacket_def try_send_def after_receive_def Let_def with_pool_def act_simps)
qed

lemma receiveOne_eq:
  assumes "listener_ok l" "can_get (ri_choice i) (ul_pool l)"
    "set (pp_free (ul_pool l)) \<subseteq> {..<length (pp_heap (ul_pool l))}"
  shows "receiveOne i l =
    (Val (\<not> ri_done i \<and> \<not> (ri_read i = ReadError \<and> ri_done_later i)), after_receive i l)"
proof (cases "\<not> ri_done i \<and> passes (ri_read i) l")
  case True
  then have "after_read i l = arrived i l" "ri_read i \<noteq> ReadError"
    by (auto simp: after_read_def passes_def Let_def)
  then show ?thesis
    using True enqueuePacket_arrived [OF assms] receiveRead_eq [OF listener_core [OF assms(1)] assms(2,3)]
    by (simp add: receiveOne_def act_bind_def read_outcome_def act_then_def act_return_def)
next
  case False
  then have "after_read i l = after_receive i l"
    by (cases "ri_read i") (auto simp: after_read_def after_receive_def passes_def accepts_def Let_def)
  then show ?thesis
    using False receiveRead_eq [OF listener_core [OF assms(1)] assms(2,3)] by (auto simp: receiveOne_def act_bind_def read_outcome_def act_return_def)
qed

section \<open>Processing a packet\<close>

text \<open>The event a packet decodes to under the pool's decoder, or its error.\<close>

definition decoded :: "clock \<Rightarrow> Packet \<Rightarrow> WorkerPool \<Rightarrow> ParserError + TelemetryEvent" where
  "decoded ck p wp =
    (case DecodePacket (wp_decoder wp) (ck_decode ck) (take (nat (pk_Length p)) (pk_Data p)) (pk_SourceAddr p) of
       Val r \<Rightarrow> r | _ \<Rightarrow> Inl ErrInvalidTelemetry)"

definition counted :: "clock \<Rightarrow> Packet \<Rightarrow> UDPListener \<Rightarrow> UDPListener" where
  "counted ck p l =
    (let wp = ul_workers l in
     case decoded ck p wp of
       Inl err \<Rightarrow> l\<lparr>ul_workers := wp\<lparr>wp_errors := wp_errors wp + 1\<rparr>\<rparr>
     | Inr ev \<Rightarrow>
         (let (ok, wp) = checkRateLimit ck (SystemID (ev_DroneID ev)) wp in
          if \<not> ok then l\<lparr>ul_workers := wp\<rparr>
          else if length (ch_buf (ul_output l)) < ch_cap (ul_output l)
          then l\<lparr>ul_workers := wp\<lparr>wp_processed := wp_processed wp + 1\<rparr>,
                 ul_output := (ul_output l)\<lparr>ch_buf := ch_buf (ul_output l) @ [ev]\<rparr>\<rparr>
          else l\<lparr>ul_workers := wp\<lparr>wp_processed := wp_processed wp + 1, wp_outputDrops := wp_outputDrops wp + 1\<rparr>\<rparr>))"

lemma checkRateLimit_counters:
  "checkRateLimit ck sys wp = (ok, wp') \<Longrightarrow>
     wp_processed wp' = wp_processed wp \<and> wp_outputDrops wp' = wp_outputDrops wp \<and>
     wp_errors wp' = wp_errors wp \<and> wp_decoder wp' = wp_decoder wp \<and>
     wp_rateLimit wp' = wp_rateLimit wp \<and> wp_rateBurst wp' = wp_rateBurst wp"
  by (auto simp: checkRateLimit_def Let_def split: prod.splits)

lemma handlePacket_eq:
  assumes "core_ok l" "a < length (pp_heap (ul_pool l))"
  shows "handlePacket ck a l = (Val (), counted ck (pp_heap (ul_pool l) ! a) l)"
proof -
  let ?p = "pp_heap (ul_pool l) ! a" and ?wp = "ul_workers l"
  have p: "int (length (pk_Data ?p)) = pp_bufferSize (ul_pool l)" "0 \<le> pk_Length ?p"
    "pk_Length ?p \<le> pp_bufferSize (ul_pool l)"
    using assms by (auto simp: core_ok_def buffers_ok_def)
  then have bytes: "Packet_Bytes ?p = Val (take (nat (pk_Length ?p)) (pk_Data ?p))"
    by (simp add: Packet_Bytes_def slice_of_def)
  obtain r where r: "DecodePacket (wp_decoder ?wp) (ck_decode ck) (take (nat (pk_Length ?p)) (pk_Data ?p))
      (pk_SourceAddr ?p) = Val r"
    using DecodePacket_total by blast
  have out: "\<not> ch_closed (ul_output l)" using assms(1) by (simp add: core_ok_def open_chan_def)
  show ?thesis
  proof (cases r)
    case (Inl err)
    then show ?thesis
      using bytes r by (simp add: handlePacket_def Let_def act_simps with_workers_def counted_def decoded_def)
  next
    case (Inr ev)
    obtain ok wp where rl: "checkRateLimit ck (SystemID (ev_DroneID ev)) ?wp = (ok, wp)" by fastforce
    show ?thesis
      using bytes r Inr out rl
      by (simp add: handlePacket_def Let_def act_simps with_workers_def counted_def decoded_def sendEvent_def
          try_send_def)
  qed
qed

lemma counted_pool [simp]: "ul_pool (counted ck p l) = ul_pool l" "ul_queue (counted ck p l) = ul_queue l"
  "ul_packetsReceived (counted ck p l) = ul_packetsReceived l" "ul_packetsDropped (counted ck p l) = ul_packetsDropped l"
  "ul_allowedNets (counted ck p l) = ul_allowedNets l"
  by (simp_all add: counted_def Let_def split: sum.split prod.split)

lemma counted_ok: "listener_ok l \<Longrightarrow> listener_ok (counted ck p l)"
  by (auto simp: counted_def Let_def listener_ok_def open_chan_def chan_ok_def split: sum.splits prod.splits)

definition after_process :: "clock \<Rightarrow> nat \<Rightarrow> UDPListener \<Rightarrow> UDPListener" where
  "after_process ck a l =
    (counted ck (pp_heap (ul_pool l) ! a) l)\<lparr>ul_pool := (ul_pool l)\<lparr>pp_free := a # pp_free (ul_pool l)\<rparr>\<rparr>"

lemma processPacket_eq:
  assumes "core_ok l" "a < length (pp_heap (ul_pool l))"
  shows "processPacket ck a l = (Val (), after_process ck a l)"
  using assms by (simp add: processPacket_def handlePacket_eq Pool_Put_ok core_ok_def after_process_def)

section \<open>The invariant over runs\<close>

lemma after_receive_ok:
  assumes "pipeline_ok s" "can_get (ri_choice i) (ul_pool (pl_listener s))"
  shows "pipeline_ok (s\<lparr>pl_listener := after_receive i (pl_listener s)\<rparr>)"
proof -
  let ?l = "pl_listener s" and ?a = "got_addr (ri_choice i) (ul_pool (pl_listener s))"
  let ?pp = "got_pool (ri_choice i) (ul_pool ?l)"
  have l: "listener_ok ?l" using assms(1) by (simp add: pipeline_ok_def)
  have free: "set (pp_free (ul_pool ?l)) \<subseteq> {..<length (pp_heap (ul_pool ?l))}"
    using holders_set(2) [OF assms(1)] by (auto simp: holders_def)
  note arr = arrived_ok [OF listener_core [OF l] assms(2) free]
  have pool: "pp_free (ul_pool (arrived i ?l)) = pp_free ?pp"
    "length (pp_heap (ul_pool (arrived i ?l))) = length (pp_heap ?pp)"
    "ul_queue (arrived i ?l) = ul_queue ?l" "ul_output (arrived i ?l) = ul_output ?l"
    by (simp_all add: arrived_def Let_def split: read_result.split)
  have m: "mset (holders s) = mset [0..<length (pp_heap (ul_pool ?l))]" using assms(1) by (simp add: pipeline_ok_def)
  have g: "mset (?a # pp_free ?pp) + mset [0..<length (pp_heap (ul_pool ?l))] =
      mset (pp_free (ul_pool ?l)) + mset [0..<length (pp_heap ?pp)]"
    by (rule mset_got_pool [OF assms(2)])
  have all: "mset (?a # pp_free ?pp) + mset (ch_buf (ul_queue ?l)) + mset (pl_flight s) = mset [0..<length (pp_heap ?pp)]"
  proof -
    have "mset (?a # pp_free ?pp) + mset (holders s) = mset (pp_free (ul_pool ?l)) + mset [0..<length (pp_heap ?pp)]"
      using g by (simp only: m)
    then show ?thesis unfolding holders_def by (simp add: union_assoc union_lcomm)
  qed
  show ?thesis
  proof (cases "ri_done i")
    case True
    then show ?thesis using assms(1) by (simp add: after_receive_def Let_def)
  next
    case False
    show ?thesis
    proof (cases "accepts i ?l")
      case True
      then have "length (ch_buf (ul_queue ?l)) < ch_cap (ul_queue ?l)"
        by (simp add: accepts_def split: read_result.splits)
      then show ?thesis
        using False True l arr(1) pool all
        by (simp add: pipeline_ok_def holders_def after_receive_def Let_def listener_ok_def open_chan_def chan_ok_def
            ac_simps)
    next
      case False': False
      show ?thesis
        using False False' l arr(1) pool all
        by (simp add: pipeline_ok_def holders_def after_receive_def Let_def listener_ok_def ac_simps)
    qed
  qed
qed

lemma ingest_step_ok:
  assumes "ingest_step s op s'" "pipeline_ok s"
  shows "pipeline_ok s'"
  using assms
proof (induction rule: ingest_step.induct)
  case (step_receive i s)
  then have "can_get (ri_choice i) (ul_pool (pl_listener s))" by (simp add: can_get_def)
  moreover from this have "receiveOne i (pl_listener s) =
      (Val (\<not> ri_done i \<and> \<not> (ri_read i = ReadError \<and> ri_done_later i)), after_receive i (pl_listener s))"
    using step_receive holders_set(2) [OF step_receive(2)]
    by (intro receiveOne_eq) (auto simp: pipeline_ok_def holders_def)
  ultimately show ?case using after_receive_ok [OF step_receive(2)] by simp
next
  case (step_dequeue s a c)
  then have "ch_buf (ul_queue (pl_listener s)) = a # ch_buf c" "ch_cap c = ch_cap (ul_queue (pl_listener s))"
    "ch_closed c = ch_closed (ul_queue (pl_listener s))"
    by (auto simp: recv_def split: list.splits if_splits)
  then show ?case
    using step_dequeue(2) by (auto simp: pipeline_ok_def holders_def listener_ok_def open_chan_def chan_ok_def)
next
  case (step_process a s ck)
  have "a \<in> set (holders s)" using step_process(1) by (simp add: holders_def)
  then have a: "a < length (pp_heap (ul_pool (pl_listener s)))" using holders_set(2) [OF step_process(2)] by simp
  have l: "listener_ok (pl_listener s)" using step_process(2) by (simp add: pipeline_ok_def)
  have "snd (recovered (processPacket ck a) (pl_listener s)) = after_process ck a (pl_listener s)"
    using processPacket_eq [OF listener_core [OF l] a] by (simp add: recovered_def)
  moreover have "listener_ok (after_process ck a (pl_listener s))"
    using counted_ok [OF l] by (simp add: after_process_def listener_ok_def)
  moreover obtain F where "mset (pl_flight s) = add_mset a F"
    using step_process(1) by (metis in_multiset_in_set mset_add)
  ultimately show ?case
    using step_process(2) by (simp add: pipeline_ok_def holders_def after_process_def)
next
  case (step_consume s ev c)
  then have "open_chan c"
    by (auto simp: pipeline_ok_def listener_ok_def recv_def open_chan_def chan_ok_def split: list.splits if_splits)
  then show ?case using step_consume(2) by (simp add: pipeline_ok_def holders_def listener_ok_def)
qed

interpretation ingest: invariant ingest_step pipeline_ok
  by unfold_locales (rule ingest_step_ok)

lemmas ingest_run_ok = ingest.tinv_run

definition start :: "UDPListener \<Rightarrow> pipeline" where
  "start l = \<lparr>pl_listener = l, pl_flight = []\<rparr>"

lemma Listener_Start_ok:
  assumes "Listener_Start (NewUDPListener parse_v6 cfg workerCfg droneCfg output) = Val l" "0 \<le> udp_ReadBufferSize cfg"
    "open_chan output"
  shows "pipeline_ok (start l)" "ul_packetsReceived l = 0" "ul_packetsDropped l = 0" "ch_buf (ul_queue l) = []"
    "ul_output l = output"
proof -
  obtain c where c: "make_chan (udp_PacketQueueSize cfg) = Val c" and l: "l =
      \<lparr>ul_cfg = cfg, ul_workerCfg = workerCfg, ul_droneCfg = droneCfg, ul_pool = NewPacketPool (udp_ReadBufferSize cfg), ul_queue = c,
      ul_output = output, ul_allowedNets = parseCIDRs parse_v6 (udp_AllowedCIDRs cfg),
      ul_packetsReceived = 0, ul_packetsDropped = 0, ul_parseErrors = 0,
      ul_workers = NewWorkerPool (wk_PoolSize workerCfg) (dc_MaxMessagesPerSecond droneCfg)
        (dc_RateLimitBurst droneCfg)\<rparr>"
    using assms(1) by (auto simp: NewUDPListener_def Listener_Start_def go_bind_Val_iff)
  have q: "open_chan c" "ch_buf c = []" using make_chan_ok [OF c] by simp_all
  show "pipeline_ok (start l)"
    using assms(2,3) q
    by (simp add: pipeline_ok_def holders_def start_def l listener_ok_def NewPacketPool_def buffers_ok_def)
qed (use assms(1) in \<open>auto simp: NewUDPListener_def Listener_Start_def go_bind_Val_iff dest: make_chan_ok\<close>)

section \<open>Counters over runs\<close>

fun dequeues :: "ingest_op list \<Rightarrow> nat" where
  "dequeues [] = 0"
| "dequeues (IDequeue # ops) = Suc (dequeues ops)"
| "dequeues (_ # ops) = dequeues ops"

lemma dequeues_append: "dequeues (ops @ ops') = dequeues ops + dequeues ops'"
  by (induction ops rule: dequeues.induct) simp_all

definition balance :: "UDPListener \<Rightarrow> uint64" where
  "balance l = ul_packetsReceived l - ul_packetsDropped l - of_nat (length (ch_buf (ul_queue l)))"

lemma balance_receive: "balance (after_receive i l) = balance l"
  by (cases "ri_read i")
    (auto simp: balance_def after_receive_def arrived_def accepts_def is_datagram_def Let_def)

lemma balance_step:
  assumes "ingest_step s op s'" "pipeline_ok s"
  shows "balance (pl_listener s') = balance (pl_listener s) + of_nat (dequeues [op])"
  using assms
proof (induction rule: ingest_step.induct)
  case (step_receive i s)
  then have "receiveOne i (pl_listener s) =
      (Val (\<not> ri_done i \<and> \<not> (ri_read i = ReadError \<and> ri_done_later i)), after_receive i (pl_listener s))"
    using holders_set(2) [OF step_receive(2)]
    by (intro receiveOne_eq) (auto simp: pipeline_ok_def holders_def can_get_def)
  then show ?case by (simp add: balance_receive)
next
  case (step_dequeue s a c)
  then show ?case by (auto simp: balance_def recv_def split: list.splits if_splits)
next
  case (step_process a s ck)
  have "a \<in> set (holders s)" using step_process(1) by (simp add: holders_def)
  then have "a < length (pp_heap (ul_pool (pl_listener s)))" using holders_set(2) [OF step_process(2)] by simp
  then show ?case
    using step_process(2) by (simp add: recovered_def processPacket_eq listener_core pipeline_ok_def balance_def after_process_def)
next
  case (step_consume s ev c)
  then show ?case by (simp add: balance_def)
qed

interpretation queue_accounts: accounting ingest_step pipeline_ok "\<lambda>s. balance (pl_listener s)"
    "\<lambda>ops. of_nat (dequeues ops)" "\<lambda>ops. 0"
  by unfold_locales (simp_all add: dequeues_append balance_step del: dequeues.simps(2-))

lemma balance_run:
  "ingest_run s ops s' \<Longrightarrow> pipeline_ok s \<Longrightarrow>
     balance (pl_listener s') = balance (pl_listener s) + of_nat (dequeues ops)"
  using queue_accounts.stock_run [of s ops s'] by simp

end
