(* ===== verification/Rate_Limit.thy ===== *)
theory Rate_Limit
  imports Ingest
begin

text \<open>
  The token bucket of \<^verbatim>\<open>checkRateLimit\<close>.  The tokens are a float64, so the bound on what a vehicle
  gets through is proved with the rounding of every refill in it: the number admitted plus the tokens
  left is a potential that no step raises by more than the refill and a rounding error.  A vehicle's
  bucket is its own: the requests of other vehicles do not move it.
\<close>

section \<open>Rounding a small non-negative value\<close>

lemma tiny_le: "(2::rat) powi (- 1075) \<le> 1 / 2 ^ 53"
proof -
  have "(2::rat) powi (- 1075) \<le> 2 powi (- 53)" by (intro power_int_increasing) simp_all
  then show ?thesis by (simp add: power_int_minus inverse_eq_divide)
qed

lemma fround_up_error: "0 \<le> q \<Longrightarrow> fround q \<le> q + (q + 1) / 2 ^ 53"
  using fround_rel_error [of q] tiny_le by (simp add: abs_le_iff add_divide_distrib)

lemma fround_le_int: "q \<le> of_int n \<Longrightarrow> \<bar>n\<bar> < 2 ^ 53 \<Longrightarrow> fround q \<le> of_int n"
  using fround_mono [of q "of_int n"] by (simp add: fround_int)

lemma fround_ge_int: "of_int n \<le> q \<Longrightarrow> \<bar>n\<bar> < 2 ^ 53 \<Longrightarrow> of_int n \<le> fround q"
  using fround_mono [of "of_int n" q] by (simp add: fround_int)

lemma pack_Fin: "0 \<le> q \<Longrightarrow> q \<le> of_int n \<Longrightarrow> n < 2 ^ 53 \<Longrightarrow> pack False q = Fin (fround q)"
  using pack_bounded [of q n False] by simp

section \<open>One request\<close>

text \<open>The tokens after a refill, as rationals.\<close>

definition refilled :: "rat \<Rightarrow> rat \<Rightarrow> rat \<Rightarrow> rat" where
  "refilled mx x t = (let s = fround (t + fround x) in if mx < s then mx else s)"

lemma refilled_bounds:
  assumes "0 \<le> t" "t \<le> of_int m" "0 \<le> m" "m < 2 ^ 52" "0 \<le> x"
  shows "0 \<le> refilled (of_int m) x t" "refilled (of_int m) x t \<le> of_int m"
    "refilled (of_int m) x t \<le> t + x + (of_int m + 2) / 2 ^ 51"
proof -
  let ?M = "of_int m :: rat" and ?p = "fround x"
  have p: "0 \<le> ?p" using assms(5) by (rule fround_nonneg)
  have M: "0 \<le> ?M" using assms(3) by simp
  have s: "0 \<le> fround (t + ?p)" using assms(1) p by (intro fround_nonneg) simp
  show "0 \<le> refilled ?M x t" "refilled ?M x t \<le> ?M"
    using s M by (auto simp: refilled_def Let_def)
  have up: "?p \<le> x + (x + 1) / 2 ^ 53" by (rule fround_up_error [OF assms(5)])
  show "refilled ?M x t \<le> t + x + (?M + 2) / 2 ^ 51"
  proof (cases "?M \<le> x")
    case True
    have "refilled ?M x t \<le> ?M" using s by (auto simp: refilled_def Let_def)
    moreover have "0 \<le> (?M + 2) / 2 ^ 51" using M by simp
    ultimately show ?thesis using True assms(1) by linarith
  next
    case x: False
    have "(x + 1) / 2 ^ 53 \<le> (?M + 1) / 2 ^ 53" using x by (intro divide_right_mono) simp_all
    then have px: "?p \<le> x + (?M + 1) / 2 ^ 53" using up by linarith
    have M1: "(?M + 1) / 2 ^ 53 \<le> 1"
    proof -
      have "?M < of_int (2 ^ 52)" using assms(4) by (simp only: of_int_less_iff)
      then show ?thesis by simp
    qed
    have err: "(?M + 1) / 2 ^ 53 + (2 * ?M + 2) / 2 ^ 53 \<le> (?M + 2) / 2 ^ 51"
      using M by (simp add: field_simps)
    show ?thesis
    proof (cases "?M < fround (t + ?p)")
      case True
      then have "?M \<le> t + ?p"
        using fround_le_int [of "t + ?p" m] assms(3,4) by (cases "t + ?p \<le> ?M") auto
      moreover have "(?M + 1) / 2 ^ 53 \<le> (?M + 2) / 2 ^ 51" using M by (simp add: field_simps)
      moreover have "refilled ?M x t = ?M" using True by (simp add: refilled_def Let_def)
      ultimately show ?thesis using px by linarith
    next
      case False
      have "t + ?p \<le> 2 * ?M + 1" using px x assms(2) M1 by linarith
      then have "(t + ?p + 1) / 2 ^ 53 \<le> (2 * ?M + 2) / 2 ^ 53" by (intro divide_right_mono) simp_all
      then have "fround (t + ?p) \<le> t + ?p + (2 * ?M + 2) / 2 ^ 53"
        using fround_up_error [of "t + ?p"] assms(1) p by linarith
      moreover have "refilled ?M x t = fround (t + ?p)" using False by (simp add: refilled_def Let_def)
      ultimately show ?thesis using px err by linarith
    qed
  qed
qed

text \<open>A bucket of a given rate and burst: the parameters it was made with and tokens in range.\<close>

definition bucket_ok :: "int \<Rightarrow> int \<Rightarrow> tokenBucket \<Rightarrow> bool" where
  "bucket_ok perSecond burst b \<longleftrightarrow>
     tb_max b = Fin (of_int (perSecond + burst)) \<and>
     tb_rate b = Fin (fround (of_int perSecond / 1000000000)) \<and>
     (\<exists>t. tb_tokens b = Fin t \<and> 0 \<le> t \<and> t \<le> of_int (perSecond + burst))"

definition small_limits :: "int \<Rightarrow> int \<Rightarrow> bool" where
  "small_limits perSecond burst \<longleftrightarrow> 0 \<le> perSecond \<and> 0 \<le> burst \<and> perSecond \<le> 1000000000 \<and> perSecond + burst < 2 ^ 51"

lemma newTokenBucket_ok:
  assumes "small_limits perSecond burst"
  shows "bucket_ok perSecond burst (newTokenBucket now perSecond burst)"
    "tb_tokens (newTokenBucket now perSecond burst) = Fin (of_int (perSecond + burst))"
    "tb_lastTime (newTokenBucket now perSecond burst) = now"
  using assms f64_scaled [of perSecond 1000000000]
  by (simp_all add: newTokenBucket_def Let_def bucket_ok_def small_limits_def f64_of_int_small)

lemma trackRate_kept [simp]:
  "tb_tokens (trackRate cap now b) = tb_tokens b" "tb_max (trackRate cap now b) = tb_max b"
  "tb_rate (trackRate cap now b) = tb_rate b" "tb_lastTime (trackRate cap now b) = tb_lastTime b"
  by (simp_all add: trackRate_def Let_def)

lemma wrap64_id: "- (2 ^ 63) \<le> n \<Longrightarrow> n < 2 ^ 63 \<Longrightarrow> wrap64 n = n"
  by (simp add: wrap64_def sint_sbintrunc' signed_take_bit_int_eq_self_iff)

text \<open>The per-step rounding error of the potential.\<close>

definition slack :: "int \<Rightarrow> int \<Rightarrow> rat" where
  "slack perSecond burst = (of_int (perSecond + burst) + 2) / 2 ^ 50"

definition rate_of :: "int \<Rightarrow> rat" where
  "rate_of perSecond = fround (of_int perSecond / 1000000000)"

lemma rate_of_bounds:
  assumes "0 \<le> perSecond" "perSecond \<le> 1000000000"
  shows "0 \<le> rate_of perSecond" "rate_of perSecond \<le> 1"
    "rate_of perSecond \<le> of_int perSecond / 1000000000 + 1 / 2 ^ 52"
proof -
  let ?q = "of_int perSecond / 1000000000 :: rat"
  have q: "0 \<le> ?q" "?q \<le> 1" using assms by simp_all
  show "0 \<le> rate_of perSecond" using q unfolding rate_of_def by (intro fround_nonneg)
  show "rate_of perSecond \<le> 1" using fround_le_int [of ?q 1] q by (simp add: rate_of_def)
  have "(?q + 1) / 2 ^ 53 \<le> 2 / 2 ^ 53" using q by (intro divide_right_mono) simp_all
  moreover have "rate_of perSecond \<le> ?q + (?q + 1) / 2 ^ 53"
    unfolding rate_of_def by (rule fround_up_error [OF q(1)])
  moreover have "(2::rat) / 2 ^ 53 = 1 / 2 ^ 52" by simp
  ultimately show "rate_of perSecond \<le> ?q + 1 / 2 ^ 52" by linarith
qed

lemma takeToken_step:
  assumes "bucket_ok perSecond burst b" "small_limits perSecond burst" "tb_tokens b = Fin t"
    "tb_lastTime b \<le> now" "now - tb_lastTime b < 2 ^ 52" "takeToken cap now b = (ok, b')"
  defines "x \<equiv> of_int (now - tb_lastTime b) * rate_of perSecond"
    and "r \<equiv> refilled (of_int (perSecond + burst)) (of_int (now - tb_lastTime b) * rate_of perSecond) t"
  shows "bucket_ok perSecond burst b'" "tb_lastTime b' = now" "ok \<longleftrightarrow> 1 \<le> r"
    "tb_tokens b' = Fin (if 1 \<le> r then fround (r - 1) else r)"
    "(if ok then 1 else 0) + fval (tb_tokens b') \<le> t + x + slack perSecond burst"
proof -
  let ?e = "now - tb_lastTime b" and ?M = "perSecond + burst"
  let ?c = "refill (wrap64 ?e) (trackRate cap now (b\<lparr>tb_lastTime := now\<rparr>))"
  have lim: "0 \<le> ?M" "?M < 2 ^ 51" "0 \<le> perSecond" "perSecond \<le> 1000000000"
    using assms(2) by (auto simp: small_limits_def)
  have bt: "0 \<le> t" "t \<le> of_int ?M" "tb_max b = Fin (of_int ?M)" "tb_rate b = Fin (rate_of perSecond)"
    using assms(1,3) by (auto simp: bucket_ok_def rate_of_def)
  have e: "0 \<le> (of_int ?e :: rat)" "0 \<le> ?e" using assms(4) by simp_all
  have x: "0 \<le> x" "x \<le> of_int ?e"
    unfolding x_def using e rate_of_bounds [OF lim(3,4)] by (simp_all add: mult_left_le)
  have px: "0 \<le> fround x" "fround x \<le> of_int ?e"
    using fround_nonneg [OF x(1)] fround_le_int [OF x(2)] assms(5) e by simp_all
  have wrap: "wrap64 ?e = ?e" using e assms(5) by (intro wrap64_id) auto
  have mul: "f64_mul (f64_of_int ?e) (tb_rate b) = Fin (fround x)"
  proof -
    have "f64_of_int ?e = Fin (of_int ?e)" using e assms(5) by (intro f64_of_int_small) simp
    moreover have "f64_mul (Fin (of_int ?e)) (Fin (rate_of perSecond)) = pack False x"
      using e rate_of_bounds(1) [OF lim(3,4)] by (simp add: f64_mul_def x_def not_less)
    moreover have "pack False x = Fin (fround x)" using x assms(5) by (intro pack_Fin [of _ ?e]) auto
    ultimately show ?thesis by (simp add: bt(4))
  qed
  have add: "f64_add (tb_tokens b) (Fin (fround x)) = Fin (fround (t + fround x))"
  proof -
    have "t + fround x \<le> of_int (?M + ?e)" using bt(2) px(2) by simp
    then show ?thesis
      using assms(3,5) lim bt px by (simp add: f64_add_def pack_Fin [of _ "?M + ?e"])
  qed
  have R: "0 \<le> r" "r \<le> of_int ?M" "r \<le> t + x + (of_int ?M + 2) / 2 ^ 51"
    using refilled_bounds [OF bt(1,2) lim(1) _ x(1)] lim(2) by (simp_all add: r_def x_def)
  have rx: "r = (if of_int ?M < fround (t + fround x) then of_int ?M else fround (t + fround x))"
    by (simp only: r_def x_def refilled_def Let_def)
  have rf: "tb_tokens ?c = Fin r"
    by (simp add: refill_def Let_def wrap mul add bt(3) rx)
  have kept: "tb_max (refill n b) = tb_max b" "tb_rate (refill n b) = tb_rate b" "tb_lastTime (refill n b) = tb_lastTime b"
    for n b by (simp_all add: refill_def Let_def)
  have one: "f64_lit 1 = Fin 1" using f64_lit_int [of 1] by simp
  have sub: "f64_sub (Fin r) (Fin 1) = Fin (fround (r - 1))" if "1 \<le> r"
    using that R(2) lim(2) by (simp add: f64_sub_def f64_add_def pack_Fin [of _ ?M])
  have tk: "(ok, b') = (if r < 1 then (False, ?c\<lparr>tb_drops := tb_drops ?c + 1\<rparr>)
      else (True, ?c\<lparr>tb_tokens := f64_sub (Fin r) (Fin 1)\<rparr>))"
    using assms(6) rf by (auto simp: takeToken_def Let_def one split: if_splits)
  show ok: "ok \<longleftrightarrow> 1 \<le> r" using tk by (auto split: if_splits)
  show tok: "tb_tokens b' = Fin (if 1 \<le> r then fround (r - 1) else r)"
    using tk sub rf by (auto split: if_splits)
  show "tb_lastTime b' = now" using tk kept(3) by (auto split: if_splits)
  have f1: "0 \<le> fround (r - 1)" "fround (r - 1) \<le> of_int ?M" if "1 \<le> r"
    using that R(2) lim fround_nonneg [of "r - 1"] fround_le_int [of "r - 1" ?M] by simp_all
  have "tb_max b' = tb_max b" "tb_rate b' = tb_rate b" using tk kept by (auto split: if_splits)
  then show "bucket_ok perSecond burst b'"
    using bt R f1 tok by (auto simp: bucket_ok_def rate_of_def)
  define S :: rat where "S = (of_int ?M + 2) / 2 ^ 51"
  have S: "0 \<le> S" "slack perSecond burst = S + S"
    using lim by (simp_all add: S_def slack_def field_simps)
  have "r / 2 ^ 53 \<le> S" unfolding S_def using R lim by (intro frac_le) simp_all
  then have "fround (r - 1) \<le> r - 1 + S" if "1 \<le> r" using fround_up_error [of "r - 1"] that by simp
  then show "(if ok then 1 else 0) + fval (tb_tokens b') \<le> t + x + slack perSecond burst"
    using ok tok R(3) S unfolding S_def [symmetric] by auto
qed

section \<open>A sequence of requests\<close>

fun bucket_run :: "int \<Rightarrow> int list \<Rightarrow> tokenBucket \<Rightarrow> bool list \<times> tokenBucket" where
  "bucket_run cap [] b = ([], b)"
| "bucket_run cap (now # ts) b =
    (let (ok, b) = takeToken cap now b; (oks, b) = bucket_run cap ts b in (ok # oks, b))"

definition passed :: "bool list \<Rightarrow> nat" where
  "passed oks = length (filter (\<lambda>ok. ok) oks)"

lemma passed_simps [simp]: "passed [] = 0" "passed (ok # oks) = (if ok then 1 else 0) + passed oks"
  by (simp_all add: passed_def)

lemma length_bucket_run [simp]: "length (fst (bucket_run cap ts b)) = length ts"
  by (induction ts arbitrary: b) (simp_all add: split_beta Let_def)

definition last_time :: "int \<Rightarrow> int list \<Rightarrow> int" where
  "last_time t0 ts = (if ts = [] then t0 else last ts)"

lemma last_time_simps [simp]: "last_time t0 [] = t0" "last_time t0 (t # ts) = last_time t ts"
  by (simp_all add: last_time_def)

lemma last_time_ge: "sorted (t0 # ts) \<Longrightarrow> t0 \<le> last_time t0 ts"
  by (auto simp: last_time_def)

text \<open>The potential: what passed plus the tokens left grows by the refill, up to rounding.\<close>

lemma bucket_run_potential:
  assumes "bucket_ok perSecond burst b" "small_limits perSecond burst"
    "sorted (tb_lastTime b # ts)" "last_time (tb_lastTime b) ts - tb_lastTime b < 2 ^ 52"
    "bucket_run cap ts b = (oks, b')"
  shows "of_nat (passed oks) + fval (tb_tokens b') \<le>
      fval (tb_tokens b) + of_int (last_time (tb_lastTime b) ts - tb_lastTime b) * rate_of perSecond +
      of_nat (length ts) * slack perSecond burst \<and> bucket_ok perSecond burst b'"
  using assms
proof (induction ts arbitrary: b oks)
  case (Cons now ts)
  obtain ok b1 where t: "takeToken cap now b = (ok, b1)" by fastforce
  obtain oks1 where r: "bucket_run cap ts b1 = (oks1, b')" "oks = ok # oks1"
    using Cons.prems(5) t by (auto simp: split_beta Let_def prod_eq_iff)
  obtain tk where tk: "tb_tokens b = Fin tk" using Cons.prems(1) by (auto simp: bucket_ok_def)
  have now: "tb_lastTime b \<le> now" "now \<le> last_time now ts" "sorted (now # ts)"
    using Cons.prems(3) last_time_ge [of now ts] by auto
  have d: "now - tb_lastTime b < 2 ^ 52" "last_time now ts - now < 2 ^ 52" using now Cons.prems(4) by auto
  note step = takeToken_step [OF Cons.prems(1,2) tk now(1) d(1) t]
  have "of_nat (passed oks1) + fval (tb_tokens b') \<le>
      fval (tb_tokens b1) + of_int (last_time now ts - now) * rate_of perSecond +
      of_nat (length ts) * slack perSecond burst" and ok': "bucket_ok perSecond burst b'"
    using Cons.IH [OF step(1) Cons.prems(2) _ _ r(1)] step(2) now(3) d(2) by auto
  moreover have "of_int (now - tb_lastTime b) * rate_of perSecond + of_int (last_time now ts - now) * rate_of perSecond =
      of_int (last_time now ts - tb_lastTime b) * rate_of perSecond"
    by (simp add: algebra_simps)
  ultimately show ?case
    using step(5) ok' tk r(2) by (simp add: algebra_simps split: if_splits)
qed simp

text \<open>A bucket with \<open>n\<close> whole tokens passes the next \<open>n\<close> requests, whenever they come.\<close>

lemma bucket_run_burst:
  assumes "bucket_ok perSecond burst b" "small_limits perSecond burst"
    "sorted (tb_lastTime b # ts)" "last_time (tb_lastTime b) ts - tb_lastTime b < 2 ^ 52"
    "of_nat (length ts) \<le> fval (tb_tokens b)"
  shows "fst (bucket_run cap ts b) = replicate (length ts) True"
  using assms
proof (induction ts arbitrary: b)
  case (Cons now ts)
  obtain ok b1 where t: "takeToken cap now b = (ok, b1)" by fastforce
  obtain tk where tk: "tb_tokens b = Fin tk" "0 \<le> tk" "tk \<le> of_int (perSecond + burst)"
    using Cons.prems(1) by (auto simp: bucket_ok_def)
  have now: "tb_lastTime b \<le> now" "now \<le> last_time now ts" "sorted (now # ts)"
    using Cons.prems(3) last_time_ge [of now ts] by auto
  have d: "now - tb_lastTime b < 2 ^ 52" "last_time now ts - now < 2 ^ 52" using now Cons.prems(4) by auto
  note step = takeToken_step [OF Cons.prems(1,2) tk(1) now(1) d(1) t]
  define n where "n = int (length ts)"
  define r where "r = refilled (of_int (perSecond + burst)) (of_int (now - tb_lastTime b) * rate_of perSecond) tk"
  have n: "of_int (n + 1) \<le> tk" using Cons.prems(5) tk(1) by (simp add: n_def)
  have M: "n + 1 \<le> perSecond + burst" using order_trans [OF n tk(3)] by (simp only: of_int_le_iff)
  have small: "\<bar>n + 1\<bar> < 2 ^ 53" "\<bar>n\<bar> < 2 ^ 53" using M Cons.prems(2) by (auto simp: small_limits_def n_def)
  have "0 \<le> fround (of_int (now - tb_lastTime b) * rate_of perSecond)"
    using now(1) Cons.prems(2) rate_of_bounds(1) by (intro fround_nonneg) (simp add: small_limits_def)
  then have "of_int (n + 1) \<le> fround (tk + fround (of_int (now - tb_lastTime b) * rate_of perSecond))"
    using n by (intro fround_ge_int small(1)) simp
  then have r: "of_int (n + 1) \<le> r" using M by (simp add: r_def refilled_def Let_def flip: of_int_add)
  have "1 \<le> r" using r by (simp add: n_def)
  then have ok: ok and tok: "tb_tokens b1 = Fin (fround (r - 1))"
    using step(3,4) by (simp_all add: r_def)
  have "of_int n \<le> fround (r - 1)" using r by (intro fround_ge_int small(2)) simp
  then have "fst (bucket_run cap ts b1) = replicate (length ts) True"
    using Cons.IH [OF step(1) Cons.prems(2)] step(2) now(3) d(2) tok by (simp add: n_def)
  then show ?case using t ok by (simp add: split_beta Let_def)
qed simp

section \<open>Many vehicles\<close>

text \<open>The rate checks of a run, each with its clock readings and the vehicle it is for.\<close>

fun check_run :: "(clock \<times> uint8) list \<Rightarrow> WorkerPool \<Rightarrow> (uint8 \<times> bool) list \<times> WorkerPool" where
  "check_run [] wp = ([], wp)"
| "check_run ((ck, sysid) # cs) wp =
    (let (ok, wp) = checkRateLimit ck sysid wp; (rs, wp) = check_run cs wp in ((sysid, ok) # rs, wp))"

definition answers :: "uint8 \<Rightarrow> (uint8 \<times> bool) list \<Rightarrow> bool list" where
  "answers i rs = map snd (filter (\<lambda>r. fst r = i) rs)"

definition clocks_of :: "uint8 \<Rightarrow> (clock \<times> uint8) list \<Rightarrow> clock list" where
  "clocks_of i cs = map fst (filter (\<lambda>c. snd c = i) cs)"

lemma answers_simps [simp]:
  "answers i [] = []" "answers i ((j, ok) # rs) = (if j = i then ok # answers i rs else answers i rs)"
  by (simp_all add: answers_def)

lemma clocks_of_simps [simp]:
  "clocks_of i [] = []" "clocks_of i ((ck, j) # cs) = (if j = i then ck # clocks_of i cs else clocks_of i cs)"
  by (simp_all add: clocks_of_def)

lemma checkRateLimit_limiters:
  "checkRateLimit ck j wp = (ok, wp') \<Longrightarrow>
     wp_rateLimit wp' = wp_rateLimit wp \<and> wp_rateBurst wp' = wp_rateBurst wp \<and>
     (\<forall>i. i \<noteq> j \<longrightarrow> wp_rateLimiters wp' i = wp_rateLimiters wp i)"
  by (auto simp: checkRateLimit_def Let_def split: prod.splits)

text \<open>The bucket of a vehicle sees exactly that vehicle's requests.\<close>

lemma answers_bucket:
  "wp_rateLimiters wp i = Some b \<Longrightarrow>
     answers i (fst (check_run cs wp)) = fst (bucket_run (wp_rateLimit wp) (map ck_check (clocks_of i cs)) b)"
proof (induction cs arbitrary: wp b)
  case (Cons c cs)
  obtain ck j where c: "c = (ck, j)" by (cases c)
  obtain ok wp1 where r: "checkRateLimit ck j wp = (ok, wp1)" by fastforce
  note kept = checkRateLimit_limiters [OF r]
  show ?case
  proof (cases "j = i")
    case True
    obtain b1 where b1: "takeToken (wp_rateLimit wp) (ck_check ck) b = (ok, b1)" "wp_rateLimiters wp1 i = Some b1"
      using r Cons.prems True by (auto simp: checkRateLimit_def Let_def split: prod.splits)
    show ?thesis
      using Cons.IH [OF b1(2)] r b1(1) kept True by (simp add: c split_beta Let_def)
  next
    case False
    then show ?thesis using Cons.IH [of wp1 b] Cons.prems r kept by (simp add: c split_beta Let_def)
  qed
qed simp

lemma answers_first:
  "wp_rateLimiters wp i = None \<Longrightarrow> clocks_of i cs = ck # cks \<Longrightarrow>
     answers i (fst (check_run cs wp)) =
       fst (bucket_run (wp_rateLimit wp) (map ck_check (ck # cks))
         (newTokenBucket (ck_bucket ck) (wp_rateLimit wp) (wp_rateBurst wp)))"
proof (induction cs arbitrary: wp)
  case (Cons c cs)
  obtain ck' j where c: "c = (ck', j)" by (cases c)
  obtain ok wp1 where r: "checkRateLimit ck' j wp = (ok, wp1)" by fastforce
  note kept = checkRateLimit_limiters [OF r]
  show ?case
  proof (cases "j = i")
    case True
    then have eq: "ck' = ck" "clocks_of i cs = cks" using Cons.prems(2) by (simp_all add: c)
    obtain b1 where b1: "takeToken (wp_rateLimit wp) (ck_check ck)
        (newTokenBucket (ck_bucket ck) (wp_rateLimit wp) (wp_rateBurst wp)) = (ok, b1)" "wp_rateLimiters wp1 i = Some b1"
      using r Cons.prems(1) True eq by (auto simp: checkRateLimit_def Let_def split: prod.splits)
    show ?thesis
      using answers_bucket [OF b1(2), of cs] r b1(1) kept True eq by (simp add: c split_beta Let_def)
  next
    case False
    then show ?thesis using Cons.IH [of wp1] Cons.prems r kept by (simp add: c split_beta Let_def)
  qed
qed simp

text \<open>The requests of a vehicle come in the order of their clock readings, over at most 52 days.\<close>

definition in_order :: "clock list \<Rightarrow> bool" where
  "in_order cks \<longleftrightarrow> (case cks of [] \<Rightarrow> True
     | ck # _ \<Rightarrow> sorted (ck_bucket ck # map ck_check cks) \<and> ck_check (last cks) - ck_bucket ck < 2 ^ 52)"

lemma in_order_bucket:
  assumes "in_order (ck # cks)" "small_limits perSecond burst"
  shows "sorted (tb_lastTime (newTokenBucket (ck_bucket ck) perSecond burst) # map ck_check (ck # cks))"
    "last_time (tb_lastTime (newTokenBucket (ck_bucket ck) perSecond burst)) (map ck_check (ck # cks)) = ck_check (last (ck # cks))"
  using assms by (auto simp: in_order_def newTokenBucket_ok(3) last_time_def last_map)

end
