(* ===== verification/Ingest_Theorems.thy ===== *)
theory Ingest_Theorems
  imports Ingest_Correct Rate_Limit
begin

text \<open>
  The properties of the ingest component: the source filter, the rate limit, what becomes of a
  packet, who owns a buffer, the conservation of packets over every interleaving of the receiver, the
  workers and the consumer, and the supervision of the workers.
\<close>

section \<open>The source filter\<close>

text \<open>The network a line of the whitelist without a colon names, read as an IPv4 prefix.\<close>

definition v4_network :: "string \<Rightarrow> (IP \<times> nat) option" where
  "v4_network s =
    (if CHR ''/'' \<notin> set s then None
     else
       (case (if find (\<lambda>c. c \<in> set ''.%'') (takeWhile (\<lambda>c. c \<noteq> CHR ''/'') s) = Some (CHR ''.'')
              then parse_v4 (takeWhile (\<lambda>c. c \<noteq> CHR ''/'') s) else None,
              dtoi (tl (dropWhile (\<lambda>c. c \<noteq> CHR ''/'') s))) of
          (Some ip, Some n) \<Rightarrow> if n \<le> 32 then Some (ip, n) else None
        | _ \<Rightarrow> None))"

lemma length_parse_v4: "parse_v4 s = Some ip \<Longrightarrow> length ip = 4"
  by (auto simp: parse_v4_def split: list.splits option.splits)

lemma length_cidr_mask [simp]: "length (cidr_mask n len) = len"
  by (induction n len rule: cidr_mask.induct) auto

lemma find_in_no_colon:
  "CHR '':'' \<notin> set s \<Longrightarrow> find (\<lambda>c. c \<in> set ''.:%'') s = find (\<lambda>c. c \<in> set ''.%'') s"
  by (induction s) auto

lemma parse_addr_v4:
  assumes "CHR '':'' \<notin> set s"
  shows "parse_addr parse_v6 s =
    (if find (\<lambda>c. c \<in> set ''.%'') s = Some (CHR ''.'') then parse_v4 s else None)"
proof (cases "find (\<lambda>c. c \<in> set ''.%'') s")
  case None
  then show ?thesis using find_in_no_colon [OF assms] by (simp add: parse_addr_def)
next
  case (Some c)
  then have "c = CHR ''.'' \<or> c = CHR ''%''" by (auto simp: find_Some_iff)
  then show ?thesis using Some find_in_no_colon [OF assms] by (auto simp: parse_addr_def)
qed

lemma ParseCIDR_v4:
  assumes "CHR '':'' \<notin> set s"
  shows "ParseCIDR parse_v6 s =
    map_option (\<lambda>(ip, n). \<lparr>net_IP = map2 (AND) ip (cidr_mask n 4), net_Mask = cidr_mask n 4\<rparr>) (v4_network s)"
proof -
  have colon: "CHR '':'' \<notin> set (takeWhile (\<lambda>c. c \<noteq> CHR ''/'') s)" using assms by (auto dest: set_takeWhileD)
  show ?thesis
    by (auto simp: ParseCIDR_def v4_network_def Let_def parse_addr_v4 [OF colon] mask_ip_def v4_prefix_def
        dest!: length_parse_v4 split: option.splits)
qed

lemma map2_and_idem: "map2 (AND) (map2 (AND) x m) m = map2 (AND) x (m :: byte list)"
  by (induction x m rule: list_induct2') (auto simp: and.assoc)

lemma list_all2_eq_iff: "list_all2 (=) xs ys \<longleftrightarrow> xs = ys"
  by (simp add: list.rel_eq)

lemma net_contains_v4:
  assumes "length ip = 4" "n \<le> 32"
  shows "net_contains \<lparr>net_IP = map2 (AND) ip (cidr_mask n 4), net_Mask = cidr_mask n 4\<rparr> x \<longleftrightarrow>
    (\<exists>y. To4 x = Some y \<and> take n (ip_bits ip) = take n (ip_bits y))"
proof -
  let ?n = "\<lparr>net_IP = map2 (AND) ip (cidr_mask n 4), net_Mask = cidr_mask n 4\<rparr>"
  have nm: "number_and_mask ?n = Some (map2 (AND) ip (cidr_mask n 4), cidr_mask n 4)"
    using assms(1) by (simp add: number_and_mask_def To4_def Let_def)
  show ?thesis
  proof (cases "To4 x")
    case None
    then have "length x \<noteq> 4" by (auto simp: To4_def split: if_splits)
    then show ?thesis using assms(1) None by (simp add: net_contains_def nm)
  next
    case (Some y)
    then have y: "length y = 4" by (auto simp: To4_def split: if_splits)
    have "map2 (AND) ip (cidr_mask n 4) = map2 (AND) y (cidr_mask n 4) \<longleftrightarrow>
        take n (ip_bits ip) = take n (ip_bits y)"
      using assms y by (intro masked_eq) simp_all
    then show ?thesis
      using assms(1) y Some by (simp add: net_contains_def nm list_all2_eq_iff map2_and_idem)
  qed
qed

lemma isAllowed_iff: "isAllowed ns ip \<longleftrightarrow> (\<exists>n\<in>set ns. net_contains n ip)"
  by (induction ns) auto

lemma set_parseCIDRs: "set (parseCIDRs parse_v6 cs) = {n. \<exists>s\<in>set cs. ParseCIDR parse_v6 s = Some n}"
  by (induction cs) (auto split: option.split)

lemma v4_network_ok: "v4_network s = Some (ip, n) \<Longrightarrow> length ip = 4 \<and> n \<le> 32"
  by (auto simp: v4_network_def dest: length_parse_v4 split: option.splits if_splits)



section \<open>The rate limit\<close>


definition check_at :: "int \<Rightarrow> clock" where
  "check_at t = \<lparr>ck_decode = t, ck_bucket = t, ck_check = t\<rparr>"


text \<open>
  A vehicle within its allowance is never limited: as many requests as the rate and the burst
  together all pass, however close they come, whatever the other vehicles send.
\<close>

theorem allowance_passes:
  assumes "wp_rateLimiters wp i = None" "clocks_of i cs = ck # cks" "in_order (ck # cks)"
    "small_limits (wp_rateLimit wp) (wp_rateBurst wp)"
    "int (length (ck # cks)) \<le> wp_rateLimit wp + wp_rateBurst wp"
  shows "answers i (fst (check_run cs wp)) = replicate (length (ck # cks)) True"
proof -
  let ?b = "newTokenBucket (ck_bucket ck) (wp_rateLimit wp) (wp_rateBurst wp)"
  have "(of_int (int (length (ck # cks))) :: rat) \<le> of_int (wp_rateLimit wp + wp_rateBurst wp)"
    using assms(5) by (simp only: of_int_le_iff)
  moreover have "ck_check (last (ck # cks)) - ck_bucket ck < 2 ^ 52" using assms(3) by (simp add: in_order_def)
  ultimately have "fst (bucket_run (wp_rateLimit wp) (map ck_check (ck # cks)) ?b) = replicate (length (ck # cks)) True"
    using bucket_run_burst [OF newTokenBucket_ok(1) [OF assms(4)] assms(4) in_order_bucket(1) [OF assms(3,4)],
        of "wp_rateLimit wp"] in_order_bucket(2) [OF assms(3,4)] newTokenBucket_ok(2,3) [OF assms(4)]
    by simp
  then show ?thesis using answers_first [OF assms(1,2)] by simp
qed

theorem allowance_passes_witness:
  "answers 7 (fst (check_run [(check_at 0, 7), (check_at 0, 9), (check_at 0, 7)] (NewWorkerPool 8 1 1))) = [True, True]"
  using allowance_passes [of "NewWorkerPool 8 1 1" 7 "[(check_at 0, 7), (check_at 0, 9), (check_at 0, 7)]"
      "check_at 0" "[check_at 0]"]
  by (simp add: NewWorkerPool_def small_limits_def in_order_def check_at_def)

section \<open>What becomes of a packet\<close>

lemma ingest_start_ok:
  assumes "Listener_Start (NewUDPListener parse_v6 ucfg wcfg dcfg out) = Val l0" "0 \<le> udp_ReadBufferSize ucfg" "open_chan out"
    "ingest_run (start l0) ops s"
  shows "pipeline_ok s"
  using ingest_run_ok [OF assms(4) Listener_Start_ok(1) [OF assms(1-3)]] .

lemma flight_addr:
  assumes "pipeline_ok s" "a \<in> set (pl_flight s)"
  shows "a < length (pp_heap (ul_pool (pl_listener s)))" "listener_ok (pl_listener s)"
proof -
  have "a \<in> set (holders s)" using assms(2) by (simp add: holders_def)
  then show "a < length (pp_heap (ul_pool (pl_listener s)))" using holders_set(2) [OF assms(1)] by simp
qed (use assms(1) in \<open>simp add: pipeline_ok_def\<close>)

text \<open>
  C24: in every state the pipeline reaches, a worker that processes the packet it holds returns,
  gives the buffer back, and does exactly one of: count a decoding error; drop the event at the rate
  limit; send the event on; or, with the output full, count it as processed and dropped.
\<close>

theorem packet_outcome:
  assumes "Listener_Start (NewUDPListener parse_v6 ucfg wcfg dcfg out) = Val l0" "0 \<le> udp_ReadBufferSize ucfg" "open_chan out"
    "ingest_run (start l0) ops s" "a \<in> set (pl_flight s)"
  defines "l \<equiv> pl_listener s" and "p \<equiv> pp_heap (ul_pool (pl_listener s)) ! a"
    and "wp \<equiv> ul_workers (pl_listener s)"
  shows "\<exists>r l'. DecodePacket (wp_decoder wp) (ck_decode ck) (take (nat (pk_Length p)) (pk_Data p)) (pk_SourceAddr p) = Val r \<and>
    processPacket ck a l = (Val (), l') \<and> ul_pool l' = (ul_pool l)\<lparr>pp_free := a # pp_free (ul_pool l)\<rparr> \<and>
    (case r of
       Inl err \<Rightarrow> ul_workers l' = wp\<lparr>wp_errors := wp_errors wp + 1\<rparr> \<and> ul_output l' = ul_output l
     | Inr ev \<Rightarrow>
         (case checkRateLimit ck (SystemID (ev_DroneID ev)) wp of
            (False, wp') \<Rightarrow> ul_workers l' = wp' \<and> ul_output l' = ul_output l
          | (True, wp') \<Rightarrow>
              if length (ch_buf (ul_output l)) < ch_cap (ul_output l)
              then ul_workers l' = wp'\<lparr>wp_processed := wp_processed wp' + 1\<rparr> \<and>
                ul_output l' = (ul_output l)\<lparr>ch_buf := ch_buf (ul_output l) @ [ev]\<rparr>
              else ul_workers l' = wp'\<lparr>wp_processed := wp_processed wp' + 1,
                  wp_outputDrops := wp_outputDrops wp' + 1\<rparr> \<and> ul_output l' = ul_output l))"
proof -
  have ok: "a < length (pp_heap (ul_pool l))" "listener_ok l"
    using flight_addr [OF ingest_start_ok [OF assms(1-4)] assms(5)] by (simp_all add: l_def)
  obtain r where r: "DecodePacket (wp_decoder wp) (ck_decode ck) (take (nat (pk_Length p)) (pk_Data p)) (pk_SourceAddr p) = Val r"
    using DecodePacket_total by blast
  have "decoded ck p wp = r" by (simp add: decoded_def r)
  then show ?thesis
    using r processPacket_eq [OF listener_core [OF ok(2)] ok(1), of ck]
    by (auto simp: after_process_def counted_def Let_def l_def p_def wp_def split: sum.split prod.split bool.split)
qed

definition sample_ucfg :: UDPConfig where
  "sample_ucfg = (cfg_UDP Default)\<lparr>udp_ReadBufferSize := 4, udp_PacketQueueSize := 2\<rparr>"

definition sample_listener :: UDPListener where
  "sample_listener =
    (case Listener_Start (NewUDPListener (\<lambda>_. None) sample_ucfg (cfg_Workers Default) (cfg_Drone Default)
       \<lparr>ch_buf = [], ch_cap = 1, ch_closed = False\<rparr>) of Val l \<Rightarrow> l | _ \<Rightarrow> undefined)"

definition sample_input :: receive_input where
  "sample_input = \<lparr>ri_done = False, ri_choice = None, ri_read = ReadOK [0xFE, 1] [127, 0, 0, 1] ''127.0.0.1:5'',
     ri_done_later = False\<rparr>"

lemma sample_listener:
  "Listener_Start (NewUDPListener (\<lambda>_. None) sample_ucfg (cfg_Workers Default) (cfg_Drone Default)
     \<lparr>ch_buf = [], ch_cap = 1, ch_closed = False\<rparr>) = Val sample_listener"
  by (simp add: sample_listener_def NewUDPListener_def Listener_Start_def make_chan_def sample_ucfg_def)

definition sample_flight :: pipeline where
  "sample_flight =
    (let s = \<lparr>pl_listener = snd (receiveOne sample_input sample_listener), pl_flight = []\<rparr> in
     s\<lparr>pl_listener := (pl_listener s)\<lparr>ul_queue := (ul_queue (pl_listener s))\<lparr>ch_buf := []\<rparr>\<rparr>, pl_flight := [0]\<rparr>)"

lemma sample_flight_run: "ingest_run (start sample_listener) [IReceive sample_input, IDequeue] sample_flight"
proof -
  let ?l = "snd (receiveOne sample_input sample_listener)"
  have "ingest_run (start sample_listener) [IReceive sample_input] \<lparr>pl_listener = ?l, pl_flight = []\<rparr>"
    using ingest_snoc [OF run_nil [of ingest_step "start sample_listener"] step_receive [where i = sample_input and s = "start sample_listener"]]
    by (simp add: sample_input_def start_def)
  moreover have "recv (ul_queue ?l) = Some (Some 0, (ul_queue ?l)\<lparr>ch_buf := []\<rparr>)"
    by (simp add: sample_input_def sample_listener_def NewUDPListener_def Listener_Start_def make_chan_def sample_ucfg_def receiveOne_def receiveRead_def
        Pool_Get_def NewPacketPool_def act_simps with_pool_def enqueuePacket_def try_send_def Default_def recv_def
        Let_def)
  ultimately show ?thesis
    using ingest_snoc [OF _ step_dequeue, of "start sample_listener" "[IReceive sample_input]"
        "\<lparr>pl_listener = ?l, pl_flight = []\<rparr>" 0 "(ul_queue ?l)\<lparr>ch_buf := []\<rparr>"]
    by (simp add: sample_flight_def)
qed

theorem packet_outcome_witness:
  "fst (processPacket (check_at 0) 0 (pl_listener sample_flight)) = Val ()"
  using packet_outcome [OF sample_listener _ _ sample_flight_run, of 0 "check_at 0"]
  by (auto simp: sample_flight_def sample_ucfg_def open_chan_def chan_ok_def)

text \<open>
  C25: over every interleaving of the receive loop, the workers and the consumer, every packet
  buffer ever made is held exactly once: by the pool, by the queue, or by a worker.  No buffer is
  lost, and none is handed out while somebody still holds it.
\<close>

theorem buffers_owned:
  assumes "Listener_Start (NewUDPListener parse_v6 ucfg wcfg dcfg out) = Val l0" "0 \<le> udp_ReadBufferSize ucfg" "open_chan out"
    "ingest_run (start l0) ops s"
  shows "mset (pp_free (ul_pool (pl_listener s))) + mset (ch_buf (ul_queue (pl_listener s))) + mset (pl_flight s) =
      mset [0..<length (pp_heap (ul_pool (pl_listener s)))] \<and>
    (\<forall>p\<in>set (pp_heap (ul_pool (pl_listener s))). int (length (pk_Data p)) = pp_bufferSize (ul_pool (pl_listener s)))"
  using ingest_start_ok [OF assms]
  by (simp add: pipeline_ok_def holders_def listener_ok_def buffers_ok_def add.assoc)

theorem buffers_owned_witness:
  "mset (pp_free (ul_pool (pl_listener sample_flight))) + mset (ch_buf (ul_queue (pl_listener sample_flight))) + mset (pl_flight sample_flight) =
      mset [0..<length (pp_heap (ul_pool (pl_listener sample_flight)))]"
  using buffers_owned [OF sample_listener _ _ sample_flight_run]
  by (simp add: sample_ucfg_def open_chan_def chan_ok_def Default_def)

section \<open>Conservation of packets\<close>

text \<open>The events the rate limit has dropped, over all vehicles.\<close>

definition bucket_drops :: "tokenBucket option \<Rightarrow> uint64" where
  "bucket_drops b = (case b of None \<Rightarrow> 0 | Some b \<Rightarrow> tb_drops b)"

definition limited :: "WorkerPool \<Rightarrow> uint64" where
  "limited wp = (\<Sum>i\<in>UNIV. bucket_drops (wp_rateLimiters wp i))"

lemma takeToken_drops: "takeToken cap now b = (ok, b') \<Longrightarrow> tb_drops b' = tb_drops b + (if ok then 0 else 1)"
  by (auto simp: takeToken_def Let_def refill_def trackRate_def split: if_splits)

lemma limited_check:
  assumes "checkRateLimit ck i wp = (ok, wp')"
  shows "limited wp' = limited wp + (if ok then 0 else 1)"
proof -
  obtain b b' where b: "takeToken (wp_rateLimit wp) (ck_check ck) b = (ok, b')"
    "tb_drops b = bucket_drops (wp_rateLimiters wp i)" "wp_rateLimiters wp' = (wp_rateLimiters wp)(i \<mapsto> b')"
    using assms
    by (auto simp: checkRateLimit_def Let_def bucket_drops_def newTokenBucket_def split: prod.splits option.splits)
  have "limited wp' = bucket_drops (Some b') + (\<Sum>j\<in>UNIV - {i}. bucket_drops (wp_rateLimiters wp j))"
    unfolding limited_def by (subst sum.remove [of _ i]) (auto simp: b(3) intro!: sum.cong)
  moreover have "limited wp = bucket_drops (wp_rateLimiters wp i) + (\<Sum>j\<in>UNIV - {i}. bucket_drops (wp_rateLimiters wp j))"
    unfolding limited_def by (subst sum.remove [of _ i]) auto
  ultimately show ?thesis using takeToken_drops [OF b(1)] b(2) by (simp add: bucket_drops_def algebra_simps)
qed

text \<open>The packets that left the workers: errors, limited, dropped at the output, waiting there.\<close>

definition settled :: "UDPListener \<Rightarrow> uint64" where
  "settled l = wp_errors (ul_workers l) + limited (ul_workers l) + wp_outputDrops (ul_workers l) +
     of_nat (length (ch_buf (ul_output l)))"

lemma limited_counters [simp]:
  "limited (wp\<lparr>wp_errors := e\<rparr>) = limited wp" "limited (wp\<lparr>wp_processed := e\<rparr>) = limited wp"
  "limited (wp\<lparr>wp_outputDrops := e\<rparr>) = limited wp"
  by (simp_all add: limited_def)

lemma settled_counted: "settled (counted ck p l) = settled l + 1"
proof (cases "decoded ck p (ul_workers l)")
  case (Inr ev)
  obtain ok wp where r: "checkRateLimit ck (SystemID (ev_DroneID ev)) (ul_workers l) = (ok, wp)" by fastforce
  show ?thesis
    using limited_check [OF r] checkRateLimit_counters [OF r]
    by (simp add: counted_def Inr Let_def r settled_def algebra_simps)
qed (simp add: counted_def settled_def Let_def)

definition in_transit :: "pipeline \<Rightarrow> uint64" where
  "in_transit s = balance (pl_listener s) - of_nat (length (pl_flight s)) - settled (pl_listener s)"

fun consumed :: "ingest_op list \<Rightarrow> nat" where
  "consumed [] = 0"
| "consumed (IConsume # ops) = Suc (consumed ops)"
| "consumed (_ # ops) = consumed ops"

lemma consumed_append: "consumed (ops @ ops') = consumed ops + consumed ops'"
  by (induction ops rule: consumed.induct) simp_all

lemma after_receive_output [simp]:
  "ul_output (after_receive i l) = ul_output l" "ul_workers (after_receive i l) = ul_workers l"
  by (simp_all add: after_receive_def arrived_def Let_def split: read_result.split)

lemma in_transit_step:
  assumes "ingest_step s op s'" "pipeline_ok s"
  shows "in_transit s' = in_transit s + of_nat (consumed [op])"
  using balance_step [OF assms] assms
proof (induction rule: ingest_step.induct [OF assms(1)])
  case (1 i s)
  then have "snd (receiveOne i (pl_listener s)) = after_receive i (pl_listener s)"
    using holders_set(2) [OF 1(4)] by (subst receiveOne_eq) (auto simp: pipeline_ok_def holders_def can_get_def)
  then show ?case using 1(2) by (simp add: in_transit_def settled_def)
next
  case (2 s a c)
  then show ?case by (simp add: in_transit_def settled_def)
next
  case (3 a s ck)
  note ok = flight_addr [OF 3(4,1)]
  have l': "snd (recovered (processPacket ck a) (pl_listener s)) = after_process ck a (pl_listener s)"
    by (simp add: recovered_def processPacket_eq [OF listener_core [OF ok(2)] ok(1)])
  have "settled (after_process ck a (pl_listener s)) = settled (pl_listener s) + 1"
    using settled_counted [of ck _ "pl_listener s"] by (simp add: after_process_def settled_def)
  moreover have "length (pl_flight s) = Suc (length (remove1 a (pl_flight s)))"
    using 3(1) length_pos_if_in_set [OF 3(1)] by (simp add: length_remove1)
  ultimately show ?case using 3(2) by (simp add: in_transit_def l' algebra_simps)
next
  case (4 s ev c)
  then have "ch_buf (ul_output (pl_listener s)) = ev # ch_buf c"
    by (auto simp: recv_def split: list.splits if_splits)
  then show ?case using 4(2) by (simp add: in_transit_def settled_def)
qed

interpretation packet_accounts: accounting ingest_step pipeline_ok in_transit "\<lambda>ops. of_nat (consumed ops)" "\<lambda>ops. 0"
  by unfold_locales (simp_all add: consumed_append in_transit_step del: consumed.simps(2-))

lemma in_transit_run:
  "ingest_run s ops s' \<Longrightarrow> pipeline_ok s \<Longrightarrow> in_transit s' = in_transit s + of_nat (consumed ops)"
  using packet_accounts.stock_run [of s ops s'] by simp

text \<open>
  C10: over every interleaving from the start, each datagram received is in exactly one place: dropped
  at the door, waiting in the queue, held by a worker, counted as an error, dropped at the rate
  limit, dropped at the full output, waiting in the output, or consumed.  (The counters are 64-bit.)
\<close>

theorem packets_conserved:
  assumes "Listener_Start (NewUDPListener parse_v6 ucfg wcfg dcfg out) = Val l0" "0 \<le> udp_ReadBufferSize ucfg" "open_chan out"
    "ch_buf out = []" "ingest_run (start l0) ops s"
  defines "l \<equiv> pl_listener s"
  shows "ul_packetsReceived l =
    ul_packetsDropped l + of_nat (length (ch_buf (ul_queue l))) + of_nat (length (pl_flight s)) +
    wp_errors (ul_workers l) + limited (ul_workers l) + wp_outputDrops (ul_workers l) +
    of_nat (length (ch_buf (ul_output l))) + of_nat (consumed ops)"
proof -
  note l0 = Listener_Start_ok [OF assms(1-3)]
  have "ul_workers l0 = NewWorkerPool (wk_PoolSize wcfg) (dc_MaxMessagesPerSecond dcfg) (dc_RateLimitBurst dcfg)"
    using assms(1) by (auto simp: NewUDPListener_def Listener_Start_def go_bind_Val_iff)
  then have "in_transit (start l0) = 0"
    using l0(2-5) assms(4)
    by (simp add: in_transit_def start_def balance_def settled_def NewWorkerPool_def limited_def bucket_drops_def)
  then have "in_transit s = of_nat (consumed ops)" using in_transit_run [OF assms(5) l0(1)] by simp
  then show ?thesis
    unfolding in_transit_def balance_def settled_def l_def by (simp add: algebra_simps)
qed

theorem packets_conserved_witness:
  "ul_packetsReceived (pl_listener sample_flight) = 1 \<and> length (pl_flight sample_flight) = 1 \<and>
   ul_packetsReceived (pl_listener sample_flight) =
    ul_packetsDropped (pl_listener sample_flight) + of_nat (length (ch_buf (ul_queue (pl_listener sample_flight)))) +
    of_nat (length (pl_flight sample_flight)) + wp_errors (ul_workers (pl_listener sample_flight)) +
    limited (ul_workers (pl_listener sample_flight)) + wp_outputDrops (ul_workers (pl_listener sample_flight)) +
    of_nat (length (ch_buf (ul_output (pl_listener sample_flight)))) + of_nat (consumed [IReceive sample_input, IDequeue])"
proof -
  have "ul_packetsReceived (pl_listener sample_flight) = 1" "length (pl_flight sample_flight) = 1"
    by (simp_all add: sample_flight_def sample_input_def sample_listener_def NewUDPListener_def Listener_Start_def make_chan_def
        sample_ucfg_def receiveOne_def receiveRead_def Pool_Get_def NewPacketPool_def act_simps with_pool_def enqueuePacket_def
        try_send_def Default_def Let_def)
  then show ?thesis
    using packets_conserved [OF sample_listener _ _ _ sample_flight_run]
    by (simp add: sample_ucfg_def open_chan_def chan_ok_def Default_def)
qed

section \<open>The workers\<close>

lemma handlePacket_keeps:
  assumes "listener_ok l"
  shows "fst (handlePacket ck a l) \<noteq> Diverge \<and> listener_ok (snd (handlePacket ck a l))"
proof -
  let ?p = "pp_heap (ul_pool l) ! a" and ?wp = "ul_workers l"
  have out: "\<not> ch_closed (ul_output l)" using assms by (simp add: listener_ok_def open_chan_def)
  have keep: "listener_ok (l\<lparr>ul_workers := w\<rparr>)" for w using assms by (simp add: listener_ok_def)
  show ?thesis
  proof (cases "Packet_Bytes ?p")
    case (Val bytes)
    obtain r where r: "DecodePacket (wp_decoder ?wp) (ck_decode ck) bytes (pk_SourceAddr ?p) = Val r"
      using DecodePacket_total by blast
    show ?thesis
    proof (cases r)
      case (Inl err)
      then show ?thesis
        using Val r keep by (simp add: handlePacket_def Let_def act_simps with_workers_def)
    next
      case (Inr ev)
      obtain ok wp where rl: "checkRateLimit ck (SystemID (ev_DroneID ev)) ?wp = (ok, wp)" by fastforce
      show ?thesis
        using Val r Inr rl out keep assms
        by (auto simp: handlePacket_def Let_def act_simps with_workers_def sendEvent_def try_send_def
            listener_ok_def open_chan_def chan_ok_def)
    qed
  next
    case (Panic x)
    then show ?thesis using assms by (simp add: handlePacket_def Let_def act_bind_def act_go_def)
  next
    case Diverge
    then show ?thesis by (auto simp: Packet_Bytes_def slice_of_def split: if_splits)
  qed
qed

interpretation worker_service: service listener_ok "\<lambda>(ck, a). processPacket ck a"
proof unfold_locales
  fix l :: UDPListener and x :: "clock \<times> nat"
  assume "listener_ok l"
  then show "fst ((case x of (ck, a) \<Rightarrow> processPacket ck a) l) \<noteq> Diverge"
    "listener_ok (snd ((case x of (ck, a) \<Rightarrow> processPacket ck a) l))"
    using handlePacket_keeps [of l "fst x" "snd x"]
    by (auto simp: processPacket_def Pool_Put_def listener_ok_def buffers_ok_def split: prod.splits)
qed

text \<open>
  C23: a worker processes every packet it receives before its shutdown, in order: a packet that does
  not decode, or would panic, stops neither the worker nor the packets behind it.
\<close>

theorem worker_processes_all:
  assumes "listener_ok l"
  shows "worker sels l = fold (\<lambda>(ck, a) l. snd (processPacket ck a l)) (items_until sels) l \<and>
    listener_ok (worker sels l)"
  using worker_service.supervised_handles_all [OF assms, of sels] worker_service.supervised_ok [OF assms, of sels]
  by (simp add: worker_def split_beta')

theorem worker_processes_all_witness:
  "worker [Received (check_at 0, 0), Shutdown] (pl_listener sample_flight) =
     snd (processPacket (check_at 0) 0 (pl_listener sample_flight))"
proof -
  have "listener_ok (pl_listener sample_flight)"
    using ingest_start_ok [OF sample_listener _ _ sample_flight_run]
    by (simp add: sample_ucfg_def open_chan_def chan_ok_def Default_def pipeline_ok_def)
  then show ?thesis using worker_processes_all by fastforce
qed

section \<open>Shutdown\<close>

text \<open>
  A receive loop that has read a datagram before the shutdown and hands it over after it panics: the
  queue is closed under it, and nothing recovers in that goroutine.
\<close>

lemma shutdown_race:
  assumes "stopListener l = (Val (), l')"
  shows "enqueuePacket a l' = (Panic SendOnClosedChannel, l')"
  using assms
  by (auto simp: stopListener_def act_simps act_bind_def act_go_def close_chan_def enqueuePacket_def try_send_def
      split: if_splits)

end
