(* ===== verification/Listener_Life.thy ===== *)
theory Listener_Life
  imports Ingest_Theorems
begin

text \<open>
  The life of the UDP listener (\<^verbatim>\<open>UDPListener.Start\<close>, \<^verbatim>\<open>WorkerPool.Start\<close> and \<^verbatim>\<open>Wait\<close> of
  \<^verbatim>\<open>internal/ingest/udp.go\<close>): opening the socket, the goroutines it starts, and its shutdown, with
  the receive loop, every worker and the starting goroutine as threads of one system.
\<close>

section \<open>The threads\<close>

text \<open>Where the receive loop is: before its look at the context, in its read, with a packet to hand over.\<close>

datatype receiver = Polling | Reading | Holding nat | ReceiverDone | ReceiverPanicked

datatype worker_state = Selecting | Processing nat | WorkerDone

datatype start_phase = Running | SocketClosed | QueueClosed | ReceiverJoined | StartReturned

record listener_sys =
  ly_listener :: UDPListener
  ly_cancelled :: bool
  ly_phase :: start_phase
  ly_receiver :: receiver
  ly_workers :: "worker_state list"

definition WorkerPool_Start :: "WorkerPool \<Rightarrow> worker_state list" where
  "WorkerPool_Start wp = replicate (nat (wp_numWorkers wp)) Selecting"

definition WorkerPool_Wait :: "worker_state list \<Rightarrow> bool" where
  "WorkerPool_Wait ws = list_all (\<lambda>w. w = WorkerDone) ws"

datatype StartError = ResolveUDPAddress | ListenUDP

text \<open>
  \<^verbatim>\<open>Start\<close> up to its wait for the shutdown.  Resolving the address and listening on it are arguments; a
  failure to set the size of the socket buffer is only logged.
\<close>

definition UDPListener_Start ::
    "(string \<Rightarrow> 'addr option) \<Rightarrow> ('addr \<Rightarrow> bool) \<Rightarrow> UDPListener \<Rightarrow> (StartError + listener_sys) go" where
  "UDPListener_Start resolve listen l =
    (case resolve (udp_BindAddress (ul_cfg l)) of
       None \<Rightarrow> Val (Inl ResolveUDPAddress)
     | Some addr \<Rightarrow>
         if \<not> listen addr then Val (Inl ListenUDP)
         else
           go_bind (Listener_Start l) (\<lambda>l.
           Val (Inr \<lparr>ly_listener = l, ly_cancelled = False, ly_phase = Running, ly_receiver = Polling,
             ly_workers = WorkerPool_Start (ul_workers l)\<rparr>)))"

section \<open>Their steps\<close>

definition crashed :: "listener_sys \<Rightarrow> bool" where
  "crashed s = (ly_receiver s = ReceiverPanicked)"

text \<open>What the receive loop goes on with after its read: a panic is not recovered and ends the process.\<close>

definition after_received :: "received go \<Rightarrow> receiver" where
  "after_received r =
    (case r of
       Val LoopEnds \<Rightarrow> ReceiverDone
     | Val NextTurn \<Rightarrow> Polling
     | Val (HandOver a) \<Rightarrow> Holding a
     | _ \<Rightarrow> ReceiverPanicked)"

datatype life_op =
    LCancel
  | LCheck
  | LRead receive_input
  | LHandOver
  | LStop nat
  | LTake nat
  | LDrained nat
  | LProcess nat clock
  | LCloseSocket
  | LCloseQueue
  | LJoinReceiver
  | LJoinWorkers
  | LConsume

text \<open>
  A step is what a thread does between two points where another may run.  Once the socket is closed a
  read fails; a read fails without delivering also before, and then the loop looks at the context.
\<close>

inductive life_move :: "listener_sys \<Rightarrow> life_op \<Rightarrow> listener_sys \<Rightarrow> bool" where
  life_cancel: "\<not> ly_cancelled s \<Longrightarrow> life_move s LCancel (s\<lparr>ly_cancelled := True\<rparr>)"
| life_check: "ly_receiver s = Polling \<Longrightarrow>
    life_move s LCheck (s\<lparr>ly_receiver := if ly_cancelled s then ReceiverDone else Reading\<rparr>)"
| life_read: "ly_receiver s = Reading \<Longrightarrow> \<not> ri_done i \<Longrightarrow> ri_done_later i = ly_cancelled s \<Longrightarrow>
    can_get (ri_choice i) (ul_pool (ly_listener s)) \<Longrightarrow>
    ly_phase s = Running \<or> ri_read i = ReadError \<Longrightarrow> receiveRead i (ly_listener s) = (r, l) \<Longrightarrow>
    life_move s (LRead i) (s\<lparr>ly_listener := l, ly_receiver := after_received r\<rparr>)"
| life_hand_over: "ly_receiver s = Holding a \<Longrightarrow> enqueuePacket a (ly_listener s) = (r, l) \<Longrightarrow>
    life_move s LHandOver (s\<lparr>ly_listener := l, ly_receiver := if r = Val () then Polling else ReceiverPanicked\<rparr>)"
| life_stop: "w < length (ly_workers s) \<Longrightarrow> ly_workers s ! w = Selecting \<Longrightarrow> ly_cancelled s \<Longrightarrow>
    life_move s (LStop w) (s\<lparr>ly_workers := (ly_workers s)[w := WorkerDone]\<rparr>)"
| life_take: "w < length (ly_workers s) \<Longrightarrow> ly_workers s ! w = Selecting \<Longrightarrow>
    recv (ul_queue (ly_listener s)) = Some (Some a, c) \<Longrightarrow>
    life_move s (LTake w) (s\<lparr>ly_listener := (ly_listener s)\<lparr>ul_queue := c\<rparr>, ly_workers := (ly_workers s)[w := Processing a]\<rparr>)"
| life_drained: "w < length (ly_workers s) \<Longrightarrow> ly_workers s ! w = Selecting \<Longrightarrow>
    recv (ul_queue (ly_listener s)) = Some (None, c) \<Longrightarrow>
    life_move s (LDrained w) (s\<lparr>ly_workers := (ly_workers s)[w := WorkerDone]\<rparr>)"
| life_process: "w < length (ly_workers s) \<Longrightarrow> ly_workers s ! w = Processing a \<Longrightarrow>
    life_move s (LProcess w ck) (s\<lparr>ly_listener := snd (recovered (processPacket ck a) (ly_listener s)),
      ly_workers := (ly_workers s)[w := Selecting]\<rparr>)"
| life_close_socket: "ly_phase s = Running \<Longrightarrow> ly_cancelled s \<Longrightarrow>
    life_move s LCloseSocket (s\<lparr>ly_phase := SocketClosed\<rparr>)"
| life_close_queue: "ly_phase s = SocketClosed \<Longrightarrow> stopListener (ly_listener s) = (Val (), l) \<Longrightarrow>
    life_move s LCloseQueue (s\<lparr>ly_listener := l, ly_phase := QueueClosed\<rparr>)"
| life_join_receiver: "ly_phase s = QueueClosed \<Longrightarrow> ly_receiver s = ReceiverDone \<Longrightarrow>
    life_move s LJoinReceiver (s\<lparr>ly_phase := ReceiverJoined\<rparr>)"
| life_join_workers: "ly_phase s = ReceiverJoined \<Longrightarrow> WorkerPool_Wait (ly_workers s) \<Longrightarrow>
    life_move s LJoinWorkers (s\<lparr>ly_phase := StartReturned\<rparr>)"
| life_consume: "recv (ul_output (ly_listener s)) = Some (Some ev, c) \<Longrightarrow>
    life_move s LConsume (s\<lparr>ly_listener := (ly_listener s)\<lparr>ul_output := c\<rparr>\<rparr>)"

definition life_step :: "listener_sys \<Rightarrow> life_op \<Rightarrow> listener_sys \<Rightarrow> bool" where
  "life_step s op s' \<longleftrightarrow> \<not> crashed s \<and> life_move s op s'"

abbreviation life_run :: "listener_sys \<Rightarrow> life_op list \<Rightarrow> listener_sys \<Rightarrow> bool" where
  "life_run \<equiv> run_of life_step"

section \<open>The memory of the threads\<close>

text \<open>Every address somebody holds is an allocated packet.\<close>

definition memory_ok :: "UDPListener \<Rightarrow> nat set \<Rightarrow> bool" where
  "memory_ok l held \<longleftrightarrow> core_ok l \<and> chan_ok (ul_queue l) \<and>
     set (pp_free (ul_pool l)) \<union> set (ch_buf (ul_queue l)) \<union> held \<subseteq> {..<length (pp_heap (ul_pool l))}"

lemma memory_ok_less: "memory_ok l held \<Longrightarrow> held' \<subseteq> held \<Longrightarrow> memory_ok l held'"
  by (auto simp: memory_ok_def)

lemma got_pool_grows:
  "length (pp_heap pp) \<le> length (pp_heap (got_pool choice pp))" "set (pp_free (got_pool choice pp)) \<subseteq> set (pp_free pp)"
  by (auto simp: got_pool_def dest: set_remove1_subset [THEN subsetD] split: option.split)

lemma arrived_fields:
  "length (pp_heap (ul_pool (arrived i l))) = length (pp_heap (got_pool (ri_choice i) (ul_pool l)))"
  "pp_free (ul_pool (arrived i l)) = pp_free (got_pool (ri_choice i) (ul_pool l))"
  "ul_queue (arrived i l) = ul_queue l" "ul_output (arrived i l) = ul_output l"
  by (simp_all add: arrived_def Let_def split: read_result.split)

lemma after_read_fields: "ul_queue (after_read i l) = ul_queue l" "ul_output (after_read i l) = ul_output l"
  by (simp_all add: after_read_def Let_def arrived_fields)

definition handed :: "received \<Rightarrow> nat set" where
  "handed r = (case r of HandOver a \<Rightarrow> {a} | _ \<Rightarrow> {})"

lemma memory_read:
  assumes "memory_ok l held" "can_get (ri_choice i) (ul_pool l)"
  shows "receiveRead i l = (Val (read_outcome i l), after_read i l)"
    "memory_ok (after_read i l) (handed (read_outcome i l) \<union> held)"
proof -
  have free: "set (pp_free (ul_pool l)) \<subseteq> {..<length (pp_heap (ul_pool l))}" and core: "core_ok l"
    using assms(1) by (auto simp: memory_ok_def)
  show "receiveRead i l = (Val (read_outcome i l), after_read i l)"
    by (rule receiveRead_eq [OF core assms(2) free])
  note arr = arrived_ok(1,2) [OF core assms(2) free]
  have "buffers_ok (ul_pool (after_read i l))"
    using arr(1) core by (simp add: after_read_def core_ok_def Let_def)
  moreover have "set (pp_free (ul_pool (after_read i l))) \<union> set (ch_buf (ul_queue l)) \<union> (handed (read_outcome i l) \<union> held)
      \<subseteq> {..<length (pp_heap (ul_pool (after_read i l)))}"
  proof -
    have heap: "{..<length (pp_heap (ul_pool l))} \<subseteq> {..<length (pp_heap (ul_pool (arrived i l)))}"
      using got_pool_grows(1) [of "ul_pool l" "ri_choice i"] by (simp add: arrived_fields)
    have "set (ch_buf (ul_queue l)) \<union> held \<subseteq> {..<length (pp_heap (ul_pool l))}"
      using assms(1) by (simp add: memory_ok_def)
    moreover have "set (pp_free (ul_pool (arrived i l))) \<subseteq> {..<length (pp_heap (ul_pool l))}"
      using got_pool_grows(2) [of "ri_choice i" "ul_pool l"] free by (simp add: arrived_fields)
    ultimately show ?thesis
      using arr(2) heap free
      by (auto simp: after_read_def read_outcome_def handed_def Let_def lessThan_subset_iff dest: order.strict_trans2)
  qed
  ultimately show "memory_ok (after_read i l) (handed (read_outcome i l) \<union> held)"
    using assms(1) by (simp add: memory_ok_def core_ok_def after_read_fields)
qed

lemma memory_hand_over:
  assumes "memory_ok l (insert a held)" "enqueuePacket a l = (r, l')"
  shows "memory_ok l' held" "r = Val () \<longleftrightarrow> \<not> ch_closed (ul_queue l)"
    "ch_closed (ul_queue l') = ch_closed (ul_queue l)" "ul_output l' = ul_output l"
    "length (ch_buf (ul_queue l')) \<le> Suc (length (ch_buf (ul_queue l)))"
  using assms
  by (auto simp: enqueuePacket_def try_send_def with_pool_def act_simps memory_ok_def core_ok_def Pool_Put_ok chan_ok_def
      split: if_splits)

lemma memory_process:
  assumes "memory_ok l (insert a held)"
  shows "memory_ok (snd (recovered (processPacket ck a) l)) held"
    "ul_queue (snd (recovered (processPacket ck a) l)) = ul_queue l"
    "length (ch_buf (ul_output (snd (recovered (processPacket ck a) l)))) \<le> Suc (length (ch_buf (ul_output l)))"
proof -
  have a: "core_ok l" "a < length (pp_heap (ul_pool l))" using assms by (auto simp: memory_ok_def)
  have l': "snd (recovered (processPacket ck a) l) = after_process ck a l"
    by (simp add: recovered_def processPacket_eq [OF a])
  have out: "open_chan (ul_output (counted ck p l)) \<and>
      length (ch_buf (ul_output (counted ck p l))) \<le> Suc (length (ch_buf (ul_output l)))" for p
    using a(1) by (auto simp: counted_def Let_def core_ok_def open_chan_def chan_ok_def split: sum.split prod.split)
  show "memory_ok (snd (recovered (processPacket ck a) l)) held"
    using assms out unfolding l' by (auto simp: memory_ok_def after_process_def core_ok_def)
  show "ul_queue (snd (recovered (processPacket ck a) l)) = ul_queue l"
    "length (ch_buf (ul_output (snd (recovered (processPacket ck a) l)))) \<le> Suc (length (ch_buf (ul_output l)))"
    using out unfolding l' by (simp_all add: after_process_def)
qed

lemma memory_take:
  assumes "memory_ok l held" "recv (ul_queue l) = Some (Some a, c)"
  shows "memory_ok (l\<lparr>ul_queue := c\<rparr>) (insert a held)" "length (ch_buf (ul_queue l)) = Suc (length (ch_buf c))"
    "ch_closed c = ch_closed (ul_queue l)"
  using assms by (auto simp: memory_ok_def recv_def core_ok_def chan_ok_def split: list.splits if_splits)

section \<open>The invariant and the rank\<close>

definition in_threads :: "receiver \<Rightarrow> worker_state list \<Rightarrow> nat set" where
  "in_threads r ws = (case r of Holding a \<Rightarrow> {a} | _ \<Rightarrow> {}) \<union> {a. Processing a \<in> set ws}"

definition life_ok :: "listener_sys \<Rightarrow> bool" where
  "life_ok s \<longleftrightarrow> memory_ok (ly_listener s) (in_threads (ly_receiver s) (ly_workers s)) \<and>
     (ch_closed (ul_queue (ly_listener s)) \<longleftrightarrow> ly_phase s \<notin> {Running, SocketClosed}) \<and>
     (ly_phase s \<noteq> Running \<longrightarrow> ly_cancelled s) \<and>
     (crashed s \<longrightarrow> ch_closed (ul_queue (ly_listener s))) \<and>
     (ly_phase s \<in> {ReceiverJoined, StartReturned} \<longrightarrow> ly_receiver s = ReceiverDone) \<and>
     (ly_phase s = StartReturned \<longrightarrow> WorkerPool_Wait (ly_workers s))"

fun phase_rank :: "start_phase \<Rightarrow> nat" where
  "phase_rank Running = 4"
| "phase_rank SocketClosed = 3"
| "phase_rank QueueClosed = 2"
| "phase_rank ReceiverJoined = 1"
| "phase_rank StartReturned = 0"

fun receiver_rank :: "receiver \<Rightarrow> nat" where
  "receiver_rank Reading = 6"
| "receiver_rank (Holding a) = 5"
| "receiver_rank Polling = 1"
| "receiver_rank ReceiverDone = 0"
| "receiver_rank ReceiverPanicked = 0"

fun worker_rank :: "worker_state \<Rightarrow> nat" where
  "worker_rank (Processing a) = 3"
| "worker_rank Selecting = 1"
| "worker_rank WorkerDone = 0"

text \<open>The steps a cancelled listener has left, at most.\<close>

definition life_rank :: "listener_sys \<Rightarrow> nat" where
  "life_rank s = phase_rank (ly_phase s) + receiver_rank (ly_receiver s) + sum_list (map worker_rank (ly_workers s)) +
     3 * length (ch_buf (ul_queue (ly_listener s))) + length (ch_buf (ul_output (ly_listener s)))"

lemma in_threads_update:
  "w < length ws \<Longrightarrow> in_threads r (ws[w := Processing a]) \<subseteq> insert a (in_threads r ws)"
  "in_threads r (ws[w := Selecting]) \<subseteq> in_threads r ws" "in_threads r (ws[w := WorkerDone]) \<subseteq> in_threads r ws"
  by (auto simp: in_threads_def dest!: set_update_subset_insert [THEN subsetD])

lemma rank_update:
  "w < length ws \<Longrightarrow> sum_list (map worker_rank (ws[w := x])) + worker_rank (ws ! w) =
     sum_list (map worker_rank ws) + worker_rank x"
proof (induction ws arbitrary: w)
  case (Cons y ws)
  then show ?case by (cases w) auto
qed simp

lemma life_ok_step:
  assumes "life_step s op s'" "life_ok s"
  shows "life_ok s'"
proof -
  have "life_move s op s'" and alive: "\<not> crashed s" using assms(1) by (simp_all add: life_step_def)
  then show ?thesis
    using assms(2)
  proof (induction rule: life_move.induct)
    case (life_check s)
    then show ?case by (auto simp: life_ok_def crashed_def in_threads_def)
  next
    case (life_read s i r l)
    have mem: "memory_ok (ly_listener s) (in_threads Polling (ly_workers s))"
      using life_read by (simp add: life_ok_def in_threads_def)
    note rd = memory_read [OF mem life_read(4)]
    have r: "r = Val (read_outcome i (ly_listener s))" "l = after_read i (ly_listener s)" using rd(1) life_read(6) by simp_all
    then have "memory_ok l (in_threads (after_received r) (ly_workers s))" "after_received r \<noteq> ReceiverPanicked"
      using rd(2) by (auto simp: after_received_def handed_def in_threads_def split: received.splits)
    then show ?case
      using life_read r by (auto simp: life_ok_def crashed_def after_read_fields)
  next
    case (life_hand_over s a r l)
    have mem: "memory_ok (ly_listener s) (insert a (in_threads Polling (ly_workers s)))"
      using life_hand_over by (simp add: life_ok_def in_threads_def)
    note hd = memory_hand_over [OF mem life_hand_over(2)]
    then show ?case
      using life_hand_over by (auto simp: life_ok_def crashed_def in_threads_def)
  next
    case (life_take w s a c)
    note tk = memory_take [OF _ life_take(3), of "in_threads (ly_receiver s) (ly_workers s)"]
    show ?case
      using life_take tk memory_ok_less [OF _ in_threads_update(1) [OF life_take(1), of "ly_receiver s" a]]
      by (auto simp: life_ok_def crashed_def WorkerPool_Wait_def list_all_length)
  next
    case (life_process w s a ck)
    have "Processing a \<in> set (ly_workers s)" using life_process(1,2) by (metis nth_mem)
    then have "insert a (in_threads (ly_receiver s) (ly_workers s)) = in_threads (ly_receiver s) (ly_workers s)"
      by (auto simp: in_threads_def)
    then have mem: "memory_ok (ly_listener s) (insert a (in_threads (ly_receiver s) (ly_workers s)))"
      using life_process(4) by (simp add: life_ok_def)
    note pr = memory_process [OF mem, of ck]
    show ?case
      using life_process pr memory_ok_less [OF pr(1) in_threads_update(2)]
      by (auto simp: life_ok_def crashed_def WorkerPool_Wait_def list_all_length)
  next
    case (life_close_queue s l)
    then show ?case
      by (auto simp: life_ok_def crashed_def stopListener_def act_bind_def act_go_def act_modify_def close_chan_def
          memory_ok_def core_ok_def chan_ok_def split: if_splits)
  next
    case (life_consume s ev c)
    then show ?case
      by (auto simp: life_ok_def crashed_def memory_ok_def core_ok_def recv_def open_chan_def chan_ok_def
          split: list.splits if_splits)
  qed (auto simp: life_ok_def crashed_def WorkerPool_Wait_def list_all_length nth_list_update
      intro: memory_ok_less [OF _ in_threads_update(3)])
qed

lemma life_cancelled: "life_step s op s' \<Longrightarrow> ly_cancelled s \<Longrightarrow> ly_cancelled s'"
  unfolding life_step_def by (elim conjE, erule life_move.cases) simp_all

lemma life_rank_step:
  assumes "life_step s op s'" "life_ok s" "ly_cancelled s"
  shows "life_rank s' < life_rank s"
proof -
  have "life_move s op s'" using assms(1) by (simp add: life_step_def)
  then show ?thesis
    using assms(2,3)
  proof (induction rule: life_move.induct)
    case (life_read s i r l)
    have mem: "memory_ok (ly_listener s) (in_threads Polling (ly_workers s))"
      using life_read by (simp add: life_ok_def in_threads_def)
    have "receiver_rank (after_received r) < 6" by (simp add: after_received_def split: go.split received.split)
    moreover have "l = after_read i (ly_listener s)" using memory_read(1) [OF mem life_read(4)] life_read(6) by simp
    ultimately show ?case using life_read(1) by (simp add: life_rank_def after_read_fields)
  next
    case (life_hand_over s a r l)
    have mem: "memory_ok (ly_listener s) (insert a (in_threads Polling (ly_workers s)))"
      using life_hand_over by (simp add: life_ok_def in_threads_def)
    show ?case
      using memory_hand_over(4,5) [OF mem life_hand_over(2)] life_hand_over(1) by (simp add: life_rank_def)
  next
    case (life_stop w s)
    then show ?case using rank_update [of w "ly_workers s" WorkerDone] by (simp add: life_rank_def)
  next
    case (life_take w s a c)
    have "length (ch_buf (ul_queue (ly_listener s))) = Suc (length (ch_buf c))"
      using memory_take(2) [OF _ life_take(3)] life_take(4) by (auto simp: life_ok_def)
    then show ?case using rank_update [OF life_take(1), of "Processing a"] life_take(2) by (simp add: life_rank_def)
  next
    case (life_drained w s c)
    then show ?case using rank_update [of w "ly_workers s" WorkerDone] by (simp add: life_rank_def)
  next
    case (life_process w s a ck)
    have "Processing a \<in> set (ly_workers s)" using life_process(1,2) by (metis nth_mem)
    then have "insert a (in_threads (ly_receiver s) (ly_workers s)) = in_threads (ly_receiver s) (ly_workers s)"
      by (auto simp: in_threads_def)
    then have mem: "memory_ok (ly_listener s) (insert a (in_threads (ly_receiver s) (ly_workers s)))"
      using life_process(3) by (simp add: life_ok_def)
    show ?case
      using memory_process(2,3) [OF mem, of ck] rank_update [OF life_process(1), of Selecting] life_process(2)
      by (simp add: life_rank_def)
  next
    case (life_close_queue s l)
    then show ?case
      by (auto simp: life_rank_def stopListener_def act_bind_def act_go_def act_modify_def close_chan_def split: if_splits)
  next
    case (life_consume s ev c)
    then show ?case by (auto simp: life_rank_def recv_def split: list.splits if_splits)
  qed (simp_all add: life_rank_def)
qed

text \<open>Some thread can always go on: none waits for another that waits for it.\<close>

lemma life_progress:
  assumes "life_ok s" "ly_cancelled s" "ly_phase s \<noteq> StartReturned" "\<not> crashed s"
  shows "\<exists>op s'. life_step s op s'"
proof -
  have "\<exists>op s'. life_move s op s'"
  proof (cases "ly_phase s")
    case Running
    then show ?thesis using life_close_socket assms(2) by blast
  next
    case SocketClosed
    then have "\<not> ch_closed (ul_queue (ly_listener s))" using assms(1) by (simp add: life_ok_def)
    then have "\<exists>l. stopListener (ly_listener s) = (Val (), l)"
      by (simp add: stopListener_def act_bind_def act_go_def act_modify_def close_chan_def)
    then show ?thesis using life_close_queue [OF SocketClosed] by blast
  next
    case QueueClosed
    show ?thesis
    proof (cases "ly_receiver s")
      case Polling
      then show ?thesis using life_check by blast
    next
      case Reading
      define i where "i = \<lparr>ri_done = False, ri_choice = None, ri_read = ReadError, ri_done_later = ly_cancelled s\<rparr>"
      obtain r l where rl: "receiveRead i (ly_listener s) = (r, l)" by fastforce
      have "life_move s (LRead i) (s\<lparr>ly_listener := l, ly_receiver := after_received r\<rparr>)"
        by (rule life_read [OF Reading _ _ _ _ rl]) (simp_all add: can_get_def i_def)
      then show ?thesis by blast
    next
      case (Holding a)
      then show ?thesis using life_hand_over [OF Holding] by (metis surj_pair)
    next
      case ReceiverDone
      then show ?thesis using life_join_receiver [OF QueueClosed] by blast
    next
      case ReceiverPanicked
      then show ?thesis using assms(4) by (simp add: crashed_def)
    qed
  next
    case ReceiverJoined
    show ?thesis
    proof (cases "WorkerPool_Wait (ly_workers s)")
      case False
      then obtain w where w: "w < length (ly_workers s)" "ly_workers s ! w \<noteq> WorkerDone"
        by (auto simp: WorkerPool_Wait_def list_all_length)
      then show ?thesis
        using life_stop [OF w(1) _ assms(2)] life_process [OF w(1)] by (cases "ly_workers s ! w") blast+
    qed (use life_join_workers [OF ReceiverJoined] in blast)
  next
    case StartReturned
    then show ?thesis using assms(3) by simp
  qed
  then show ?thesis using assms(4) by (simp add: life_step_def)
qed

interpretation listening: invariant life_step life_ok
  by unfold_locales (rule life_ok_step)

interpretation stopping: resting life_step "\<lambda>s. life_ok s \<and> ly_cancelled s" life_rank
    "\<lambda>s. ly_phase s = StartReturned \<or> crashed s"
  by unfold_locales (use life_ok_step life_cancelled life_rank_step life_progress in blast)+

section \<open>The shutdown\<close>

lemma UDPListener_Start_ok:
  assumes "UDPListener_Start resolve listen (NewUDPListener parse_v6 ucfg wcfg dcfg out) = Val (Inr s)"
    "0 \<le> udp_ReadBufferSize ucfg" "open_chan out"
  shows "life_ok s" "length (ly_workers s) = nat (wk_PoolSize wcfg)"
proof -
  obtain l where l: "Listener_Start (NewUDPListener parse_v6 ucfg wcfg dcfg out) = Val l"
    and s: "s = \<lparr>ly_listener = l, ly_cancelled = False, ly_phase = Running, ly_receiver = Polling,
      ly_workers = WorkerPool_Start (ul_workers l)\<rparr>"
    using assms(1) by (auto simp: UDPListener_Start_def go_bind_Val_iff split: option.splits if_splits)
  note ok = Listener_Start_ok [OF l assms(2,3)]
  have "listener_ok l" using ok(1) by (simp add: pipeline_ok_def start_def)
  moreover have "set (pp_free (ul_pool l)) \<union> set (ch_buf (ul_queue l)) \<subseteq> {..<length (pp_heap (ul_pool l))}"
    using holders_set(2) [OF ok(1)] by (auto simp: holders_def start_def)
  ultimately show "life_ok s"
    by (auto simp: life_ok_def s memory_ok_def listener_ok_def core_ok_def open_chan_def crashed_def in_threads_def
        WorkerPool_Start_def)
  have "wp_numWorkers (ul_workers l) = wk_PoolSize wcfg"
    using l by (auto simp: NewUDPListener_def Listener_Start_def NewWorkerPool_def go_bind_Val_iff)
  then show "length (ly_workers s) = nat (wk_PoolSize wcfg)" by (simp add: s WorkerPool_Start_def)
qed

lemma life_pool_size: "life_step s op s' \<Longrightarrow> length (ly_workers s) = n \<Longrightarrow> length (ly_workers s') = n"
  unfolding life_step_def by (elim conjE, erule life_move.cases) simp_all

interpretation pool_size: invariant life_step "\<lambda>s. length (ly_workers s) = n" for n
  by unfold_locales (rule life_pool_size)

lemma life_rank_bound:
  "life_rank s \<le> 10 + 3 * length (ly_workers s) + 3 * length (ch_buf (ul_queue (ly_listener s))) +
     length (ch_buf (ul_output (ly_listener s)))"
proof -
  have "worker_rank w \<le> 3" for w by (cases w) simp_all
  then have "sum_list (map worker_rank ws) \<le> 3 * length ws" for ws by (induction ws) (simp_all add: add_mono)
  from this [of "ly_workers s"] show ?thesis
    by (cases "ly_phase s"; cases "ly_receiver s") (simp_all add: life_rank_def)
qed

text \<open>A process that serves does not crash in the receive loop.\<close>

lemma no_crash_while_serving: "life_ok s \<Longrightarrow> \<not> ly_cancelled s \<Longrightarrow> \<not> crashed s"
  by (auto simp: life_ok_def)

text \<open>
  C38: once the listener is told to stop, its threads come to rest on every schedule, after a number of
  steps bounded by the size of the pool and of the two queues; and then \<^verbatim>\<open>Start\<close> has returned with the
  receive loop and every worker ended, unless the receive loop has sent on the closed queue, which ends
  the process.
\<close>

theorem listener_shutdown:
  assumes "UDPListener_Start resolve listen (NewUDPListener parse_v6 ucfg wcfg dcfg out) = Val (Inr s0)"
    and "0 \<le> udp_ReadBufferSize ucfg" "open_chan out" "life_run s0 ops s" "ly_cancelled s" "life_run s ops' s'"
  shows "length ops' \<le> 10 + 3 * nat (wk_PoolSize wcfg) + 3 * length (ch_buf (ul_queue (ly_listener s))) +
      length (ch_buf (ul_output (ly_listener s))) \<and>
    ((\<nexists>op s''. life_step s' op s'') \<longrightarrow>
      (ly_phase s' = StartReturned \<and> ly_receiver s' = ReceiverDone \<and> WorkerPool_Wait (ly_workers s')) \<or>
      (ly_receiver s' = ReceiverPanicked \<and> ch_closed (ul_queue (ly_listener s'))))"
proof -
  note start = UDPListener_Start_ok [OF assms(1-3)]
  have ok: "life_ok s \<and> ly_cancelled s" using listening.tinv_run [OF assms(4) start(1)] assms(5) by simp
  have n: "length (ly_workers s) = nat (wk_PoolSize wcfg)" using pool_size.tinv_run [OF assms(4) start(2)] .
  have "length ops' \<le> life_rank s" using stopping.run_bounded [OF assms(6) ok] by simp
  moreover have ok': "life_ok s' \<and> ly_cancelled s'" using stopping.tinv_run [OF assms(6) ok] .
  have "ly_phase s' = StartReturned \<or> crashed s'" if "\<nexists>op s''. life_step s' op s''"
    using stopping.stuck_final [OF ok' that] .
  ultimately show ?thesis
    using life_rank_bound [of s] n ok' by (auto simp: life_ok_def crashed_def)
qed

subsection \<open>A shutdown that leaves a packet behind\<close>

definition sample_wcfg :: WorkerConfig where
  "sample_wcfg = (cfg_Workers Default)\<lparr>wk_PoolSize := 1\<rparr>"

definition sample_life :: listener_sys where
  "sample_life =
    (case UDPListener_Start Some (\<lambda>_. True) (NewUDPListener (\<lambda>_. None) sample_ucfg sample_wcfg (cfg_Drone Default)
       \<lparr>ch_buf = [], ch_cap = 1, ch_closed = False\<rparr>) of Val (Inr s) \<Rightarrow> s | _ \<Rightarrow> undefined)"

lemma sample_life_start:
  "UDPListener_Start Some (\<lambda>_. True) (NewUDPListener (\<lambda>_. None) sample_ucfg sample_wcfg (cfg_Drone Default)
     \<lparr>ch_buf = [], ch_cap = 1, ch_closed = False\<rparr>) = Val (Inr sample_life)"
  by (simp add: sample_life_def UDPListener_Start_def NewUDPListener_def Listener_Start_def make_chan_def sample_ucfg_def)

text \<open>The steps of a shutdown right after the first datagram has been queued.\<close>

definition early_stop :: "life_op list" where
  "early_stop = [LStop 0, LCheck, LCloseSocket, LCloseQueue, LJoinReceiver, LJoinWorkers]"

lemma sample_queued:
  "\<exists>s. life_run sample_life [LCheck, LRead sample_input, LHandOver, LCancel] s \<and> ly_cancelled s \<and>
     ly_phase s = Running \<and> ly_receiver s = Polling \<and> ly_workers s = [Selecting] \<and>
     ch_buf (ul_queue (ly_listener s)) = [0] \<and> \<not> ch_closed (ul_queue (ly_listener s))"
proof -
  let ?l0 = "ly_listener sample_life" and ?r = "sample_life\<lparr>ly_receiver := Reading\<rparr>"
  note start = sample_life_def UDPListener_Start_def NewUDPListener_def Listener_Start_def make_chan_def sample_ucfg_def
    sample_wcfg_def NewWorkerPool_def WorkerPool_Start_def
  obtain l1 where l1: "receiveRead sample_input ?l0 = (Val (HandOver 0), l1)"
    and "ch_buf (ul_queue l1) = []" "ch_cap (ul_queue l1) = 2" "\<not> ch_closed (ul_queue l1)"
    by (simp add: start receiveRead_def sample_input_def Pool_Get_def NewPacketPool_def act_simps with_pool_def Default_def
        Let_def)
  then obtain l2 where l2: "enqueuePacket 0 l1 = (Val (), l2)" "ch_buf (ul_queue l2) = [0]" "\<not> ch_closed (ul_queue l2)"
    by (simp add: enqueuePacket_def try_send_def)
  have s0: "ly_receiver sample_life = Polling" "ly_phase sample_life = Running" "\<not> ly_cancelled sample_life"
    "ly_workers sample_life = [Selecting]"
    by (simp_all add: start)
  have "life_step sample_life LCheck ?r"
    using life_check [OF s0(1)] s0 by (simp add: life_step_def crashed_def)
  moreover have "life_step ?r (LRead sample_input) (?r\<lparr>ly_listener := l1, ly_receiver := Holding 0\<rparr>)"
    using life_read [of ?r sample_input "Val (HandOver 0)" l1] l1 s0
    by (simp add: life_step_def crashed_def after_received_def sample_input_def can_get_def)
  moreover have "life_step (?r\<lparr>ly_listener := l1, ly_receiver := Holding 0\<rparr>) LHandOver (?r\<lparr>ly_listener := l2, ly_receiver := Polling\<rparr>)"
    using life_hand_over [of "?r\<lparr>ly_listener := l1, ly_receiver := Holding 0\<rparr>" 0 "Val ()" l2] l2
    by (simp add: life_step_def crashed_def)
  moreover have "life_step (?r\<lparr>ly_listener := l2, ly_receiver := Polling\<rparr>) LCancel
      (?r\<lparr>ly_listener := l2, ly_receiver := Polling, ly_cancelled := True\<rparr>)"
    using life_cancel [of "?r\<lparr>ly_listener := l2, ly_receiver := Polling\<rparr>"] s0 by (simp add: life_step_def crashed_def)
  ultimately have "life_run sample_life [LCheck, LRead sample_input, LHandOver, LCancel]
      (?r\<lparr>ly_listener := l2, ly_receiver := Polling, ly_cancelled := True\<rparr>)"
    by (blast intro: run_cons run_nil)
  then show ?thesis using s0 l2 by fastforce
qed

text \<open>
  The shutdown does not drain the queue: a worker that looks at the context first leaves with packets
  still queued, and \<^verbatim>\<open>Start\<close> returns without an error.
\<close>

lemma shutdown_leaves_packets:
  assumes "ly_cancelled s" "ly_phase s = Running" "ly_receiver s = Polling" "ly_workers s = [Selecting]"
    "\<not> ch_closed (ul_queue (ly_listener s))"
  shows "\<exists>s'. life_run s early_stop s' \<and> ly_phase s' = StartReturned \<and>
    ch_buf (ul_queue (ly_listener s')) = ch_buf (ul_queue (ly_listener s))"
proof -
  let ?l = "(ly_listener s)\<lparr>ul_queue := (ul_queue (ly_listener s))\<lparr>ch_closed := True\<rparr>\<rparr>"
  let ?s1 = "s\<lparr>ly_workers := [WorkerDone]\<rparr>" let ?s2 = "?s1\<lparr>ly_receiver := ReceiverDone\<rparr>"
  let ?s3 = "?s2\<lparr>ly_phase := SocketClosed\<rparr>" let ?s4 = "?s3\<lparr>ly_listener := ?l, ly_phase := QueueClosed\<rparr>"
  let ?s5 = "?s4\<lparr>ly_phase := ReceiverJoined\<rparr>" let ?s6 = "?s5\<lparr>ly_phase := StartReturned\<rparr>"
  note stp = life_step_def crashed_def
  have "life_step s (LStop 0) ?s1" using life_stop [of 0 s] assms by (simp add: stp)
  moreover have "life_step ?s1 LCheck ?s2" using life_check [of ?s1] assms by (simp add: stp)
  moreover have "life_step ?s2 LCloseSocket ?s3" using life_close_socket [of ?s2] assms by (simp add: stp)
  moreover have "stopListener (ly_listener ?s3) = (Val (), ?l)"
    using assms(5) by (simp add: stopListener_def act_bind_def act_go_def act_modify_def close_chan_def)
  then have "life_step ?s3 LCloseQueue ?s4" using life_close_queue [of ?s3 ?l] by (simp add: stp)
  moreover have "life_step ?s4 LJoinReceiver ?s5" using life_join_receiver [of ?s4] by (simp add: stp)
  moreover have "life_step ?s5 LJoinWorkers ?s6"
    using life_join_workers [of ?s5] by (simp add: stp WorkerPool_Wait_def)
  ultimately have "life_run s early_stop ?s6" unfolding early_stop_def by (blast intro: run_cons run_nil)
  then show ?thesis by fastforce
qed

theorem listener_shutdown_witness:
  "\<exists>s s'. ly_cancelled s \<and> life_run s early_stop s' \<and> ly_phase s' = StartReturned \<and>
     ch_buf (ul_queue (ly_listener s')) = [0] \<and>
     length early_stop \<le> 16 + length (ch_buf (ul_output (ly_listener s)))"
proof -
  obtain s where s: "life_run sample_life [LCheck, LRead sample_input, LHandOver, LCancel] s" "ly_cancelled s"
    "ly_phase s = Running" "ly_receiver s = Polling" "ly_workers s = [Selecting]"
    "ch_buf (ul_queue (ly_listener s)) = [0]" "\<not> ch_closed (ul_queue (ly_listener s))"
    using sample_queued by blast
  obtain s' where s': "life_run s early_stop s'" "ly_phase s' = StartReturned" "ch_buf (ul_queue (ly_listener s')) = [0]"
    using shutdown_leaves_packets [OF s(2-5,7)] s(6) by auto
  have "nat (wk_PoolSize sample_wcfg) = 1" by (simp add: sample_wcfg_def)
  then show ?thesis
    using listener_shutdown [OF sample_life_start _ _ s(1,2) s'(1)] s s'
    by (auto simp: sample_ucfg_def open_chan_def chan_ok_def Default_def)
qed

section \<open>A counter that never counts\<close>

text \<open>\<^verbatim>\<open>parseErrors\<close> is read by the statistics and the health report, and nothing ever adds to it.\<close>

lemma parse_errors_kept:
  assumes "life_step s op s'" "life_ok s"
  shows "ul_parseErrors (ly_listener s') = ul_parseErrors (ly_listener s)"
proof -
  have "life_move s op s'" using assms(1) by (simp add: life_step_def)
  then show ?thesis
    using assms(2)
  proof (induction rule: life_move.induct)
    case (life_read s i r l)
    then have "l = after_read i (ly_listener s)"
      using memory_read(1) [of "ly_listener s" _ i] by (auto simp: life_ok_def)
    then show ?case by (simp add: after_read_def arrived_def Let_def split: read_result.split)
  next
    case (life_hand_over s a r l)
    then show ?case
      by (auto simp: enqueuePacket_def with_pool_def act_modify_def split: go.splits prod.splits if_splits)
  next
    case (life_process w s a ck)
    have "Processing a \<in> set (ly_workers s)" using life_process(1,2) by (metis nth_mem)
    then have "core_ok (ly_listener s)" "a < length (pp_heap (ul_pool (ly_listener s)))"
      using life_process(3) by (auto simp: life_ok_def memory_ok_def in_threads_def)
    from processPacket_eq [OF this, of ck] show ?case
      by (simp add: recovered_def after_process_def counted_def Let_def split: sum.split prod.split)
  next
    case (life_close_queue s l)
    then show ?case
      by (auto simp: stopListener_def act_bind_def act_go_def act_modify_def close_chan_def split: if_splits)
  qed simp_all
qed

interpretation parse_errors: invariant life_step "\<lambda>s. life_ok s \<and> ul_parseErrors (ly_listener s) = n" for n
  by unfold_locales (use life_ok_step parse_errors_kept in auto)

lemma parse_errors_never_counted:
  assumes "UDPListener_Start resolve listen (NewUDPListener parse_v6 ucfg wcfg dcfg out) = Val (Inr s0)"
    and "0 \<le> udp_ReadBufferSize ucfg" "open_chan out" "life_run s0 ops s"
  shows "ls_ParseErrors (UDPListener_Stats (ly_listener s)) = 0"
proof -
  have "ul_parseErrors (ly_listener s0) = 0"
    using assms(1) by (auto simp: UDPListener_Start_def NewUDPListener_def Listener_Start_def go_bind_Val_iff
        split: option.splits if_splits)
  then show ?thesis
    using parse_errors.tinv_run [OF assms(4), of 0] UDPListener_Start_ok(1) [OF assms(1-3)]
    by (simp add: UDPListener_Stats_def)
qed

end
