(* ===== verification/Mavlink_Theorems.thy ===== *)
theory Mavlink_Theorems
  imports Mavlink_Correct
begin

text \<open>
  The properties of the MAVLink layer, each with a witness on a concrete frame: totality, the
  ranges of accepted telemetry, the exact acceptance condition on the raw integers, detection of
  corruption, and what the decoders compute.
\<close>

section \<open>Concrete frames\<close>

definition sample_heartbeat :: "byte list" where
  "sample_heartbeat =
    [253, 9, 0, 0, 0, 1, 1, 0, 0, 0, 0, 0, 4, 4, 2, 12, 129, 4, 3, 203, 245]"

definition sample_position :: "byte list" where
  "sample_position =
    [253, 28, 0, 0, 0, 1, 1, 33, 0, 0, 0, 0, 0, 0, 8, 254, 131, 22, 48, 72, 8, 183, 80, 195, 0, 0,
     64, 156, 0, 0, 44, 1, 144, 1, 0, 0, 4, 141, 253, 194]"

text \<open>A heartbeat whose last payload byte was cut off, with the checksum of what is left.\<close>

definition short_heartbeat :: "byte list" where
  "short_heartbeat = [253, 8, 0, 0, 0, 1, 1, 0, 0, 0, 0, 0, 4, 4, 2, 12, 129, 4, 13, 140]"

lemmas frame_eval = frame_size_def frame_at_def crc_ok_def crcSeed_def crcCalculate_def
  crcAccumulate_def msg_id_of_def u16_of_def Let_def

lemma sample_heartbeat_parses:
  "ParseFrame NewParser sample_heartbeat =
     Val (Inr (frame_at sample_heartbeat, 21))"
  by (simp add: ParseFrame_Inr_iff sample_heartbeat_def frame_eval MagicV2_def)

lemma sample_position_parses:
  "ParseFrame NewParser sample_position =
     Val (Inr (frame_at sample_position, 40))"
  by (simp add: ParseFrame_Inr_iff sample_position_def frame_eval MagicV2_def)

lemma short_heartbeat_parses:
  "ParseFrame NewParser short_heartbeat =
     Val (Inr (frame_at short_heartbeat, 20))"
  by (simp add: ParseFrame_Inr_iff short_heartbeat_def frame_eval MagicV2_def)

section \<open>Totality\<close>

text \<open>
  C9: \<^verbatim>\<open>DecodePacket\<close> returns on every input: whatever the bytes, no index or slice expression
  panics and the heading loops of \<^verbatim>\<open>ValidateGPS\<close> stop.
\<close>

theorem decode_total: "\<exists>r. DecodePacket d now data addr = Val r"
  by (rule DecodePacket_total)

section \<open>Accepted telemetry\<close>

definition finite_between :: "rat \<Rightarrow> f64 \<Rightarrow> rat \<Rightarrow> bool" where
  "finite_between lo x hi \<longleftrightarrow> (\<exists>q. x = Fin q \<and> lo \<le> q \<and> q \<le> hi)"

definition payload_in_range :: "Payload \<Rightarrow> bool" where
  "payload_in_range p =
    (case p of
       PGPS (Some g) \<Rightarrow>
         finite_between (- 90) (gps_Latitude g) 90 \<and> finite_between (- 180) (gps_Longitude g) 180 \<and>
         (\<exists>q. gps_Altitude g = Fin q \<and> q \<le> 100000) \<and>
         (\<exists>q. gps_Heading g = Fin q \<and> 0 \<le> q \<and> q < 360)
     | PBattery (Some b) \<Rightarrow>
         sint (bat_Remaining b) \<le> 100 \<and> finite_between 0 (bat_VoltageTotal b) 660
     | _ \<Rightarrow> True)"

lemma wrapped_in_range:
  assumes "payload_of f = PGPS (Some g)" "raw_ok f"
  shows "payload_in_range (PGPS (Some (wrapped g)))"
proof -
  let ?h = "fround (of_int (uint (le16_at (fr_Payload f) 26)) / 100)"
  let ?la = "fst (raw_lla f)" and ?lo = "fst (snd (raw_lla f))" and ?al = "snd (snd (raw_lla f))"
  have g: "gps_Heading g = Fin ?h" "gps_Latitude g = Fin (fround (of_int ?la / 10000000))"
    "gps_Longitude g = Fin (fround (of_int ?lo / 10000000))"
    "gps_Altitude g = Fin (fround (of_int ?al / 1000))"
    using assms(1)
    by (auto simp: payload_of_def Let_def gp_position_def raw_position_def raw_lla_def protocol_consts
        split: if_splits)
  have "raw_in_range ?la ?lo ?al" using assms(2) by (simp add: raw_ok_def split: prod.splits)
  then show ?thesis
    using wrap_heading_bounds [OF u16_heading_bounds, of "le16_at (fr_Payload f) 26"]
      lat_bounds [of ?la] lon_bounds [of ?lo] alt_bound [of ?al]
    by (simp add: payload_in_range_def finite_between_def wrapped_def g raw_in_range_def not_less [symmetric])
qed

lemma payload_of_battery: "payload_of f = PBattery (Some b) \<Longrightarrow> b = battery_at (fr_Payload f)"
  by (auto simp: payload_of_def Let_def split: if_splits)

lemma battery_in_range:
  assumes "payload_of f = PBattery (Some b)" "\<not> 100 < sint (bat_Remaining b)"
  shows "payload_in_range (PBattery (Some b))"
  using assms(2) battery_voltage_bounds [of "fr_Payload f"]
  by (auto simp: payload_in_range_def finite_between_def payload_of_battery [OF assms(1)])

lemma checked_payload_in_range:
  assumes "checked_payload f = Some p"
  shows "payload_in_range p"
proof (cases "payload_of f")
  case (PHeartbeat q)
  with assms have "p = PHeartbeat q" by (simp add: checked_payload_def)
  then show ?thesis by (simp add: payload_in_range_def)
next
  case (PAttitude q)
  with assms have "p = PAttitude q" by (simp add: checked_payload_def)
  then show ?thesis by (simp add: payload_in_range_def)
next
  case (PRaw q)
  with assms have "p = PRaw q" by (simp add: checked_payload_def)
  then show ?thesis by (simp add: payload_in_range_def)
next
  case (PGPS q)
  show ?thesis
  proof (cases q)
    case None
    then show ?thesis using assms by (simp add: checked_payload_def PGPS) (auto simp: payload_in_range_def)
  next
    case (Some g)
    then show ?thesis
      using assms wrapped_in_range [of f g] by (simp add: checked_payload_def PGPS split: if_splits)
  qed
next
  case (PBattery q)
  show ?thesis
  proof (cases q)
    case None
    then show ?thesis using assms by (simp add: checked_payload_def PBattery) (auto simp: payload_in_range_def)
  next
    case (Some b)
    then show ?thesis
      using assms battery_in_range [of f b] by (simp add: checked_payload_def PBattery split: if_splits)
  qed
qed

lemma DecodePacket_InrD:
  assumes "DecodePacket d now data addr = Val (Inr ev)"
  obtains f n where "ParseFrame (dec_parser d) data = Val (Inr (f, n))"
    and "ValidateSystemID (fr_SystemID f)" and "checked_payload f = Some (ev_Payload ev)"
    and "ev_DroneID ev = \<lparr>SystemID = fr_SystemID f, ComponentID = fr_ComponentID f\<rparr>"
    and "ev_MessageID ev = fr_MessageID f" and "ev_Timestamp ev = now" and "ev_SourceAddr ev = addr"
  using assms by (auto simp: DecodePacket_eq split: go.splits sum.splits if_splits option.splits)


text \<open>The frame \<open>sample_position\<close>, with the heading 361 degrees wrapped to 1.\<close>

lemma sample_position_event:
  "DecodePacket NewDecoder 7 sample_position ''a'' =
     Val (Inr \<lparr>ev_DroneID = \<lparr>SystemID = 1, ComponentID = 1\<rparr>, ev_MessageID = 33, ev_Timestamp = 7,
       ev_SourceAddr = ''a'', ev_Payload = PGPS (Some (wrapped (gp_position (fr_Payload (frame_at sample_position)))))\<rparr>)"
proof -
  have f: "fr_SystemID (frame_at sample_position) = 1" "fr_ComponentID (frame_at sample_position) = 1"
    "fr_MessageID (frame_at sample_position) = 33"
    "fr_Payload (frame_at sample_position) = take 28 (drop 10 sample_position)"
    by (simp_all add: sample_position_def frame_at_def msg_id_of_def)
  have "raw_ok (frame_at sample_position)"
    by (simp add: raw_ok_def raw_lla_def f protocol_consts Let_def raw_in_range_def)
      (simp add: sample_position_def le32_at_def u32_of_def)
  then show ?thesis
    by (simp add: DecodePacket_eq NewDecoder_def sample_position_parses f ValidateSystemID_def
        checked_payload_def payload_of_def Let_def protocol_consts)
      (simp add: sample_position_def)
qed


section \<open>Positions: the acceptance condition\<close>

text \<open>The sample position moved to a latitude of 91 degrees, with the checksum recomputed.\<close>

definition bad_position :: "byte list" where
  "bad_position =
    [253, 28, 0, 0, 0, 1, 1, 33, 0, 0, 0, 0, 0, 0, 1, 233, 164, 53, 48, 72, 8, 183, 80, 195, 0, 0,
     64, 156, 0, 0, 44, 1, 144, 1, 0, 0, 4, 141, 248, 149]"

lemma bad_position_parses:
  "ParseFrame NewParser bad_position = Val (Inr (frame_at bad_position, 40))"
  by (simp add: ParseFrame_Inr_iff bad_position_def frame_eval MagicV2_def)

lemma DecodePacket_position:
  assumes "ParseFrame (dec_parser d) data = Val (Inr (f, n))" "payload_of f = PGPS (Some g)"
  shows "(\<exists>ev. DecodePacket d now data addr = Val (Inr ev)) \<longleftrightarrow>
    ValidateSystemID (fr_SystemID f) \<and> raw_ok f"
  using assms by (auto simp: DecodePacket_eq checked_payload_def split: option.splits)

text \<open>
  C34: a complete position message of a valid vehicle is accepted exactly when its raw latitude,
  longitude and altitude are within 90 and 180 degrees and at most 100 km as integers of the wire:
  the float64 arithmetic of the decoder moves no reading across a bound.
\<close>

theorem position_accepted_iff:
  assumes "ParseFrame (dec_parser d) data = Val (Inr (f, n))"
    and "fr_MessageID f = MsgIDGlobalPositionInt" and "28 \<le> length (fr_Payload f)"
    and "ValidateSystemID (fr_SystemID f)"
  shows "(\<exists>ev. DecodePacket d now data addr = Val (Inr ev)) \<longleftrightarrow>
    \<bar>sint (le32_at (fr_Payload f) 4)\<bar> \<le> 900000000 \<and>
    \<bar>sint (le32_at (fr_Payload f) 8)\<bar> \<le> 1800000000 \<and>
    sint (le32_at (fr_Payload f) 12) \<le> 100000000"
proof -
  have "payload_of f = PGPS (Some (gp_position (fr_Payload f)))"
    using assms(2,3) by (simp add: payload_of_def Let_def protocol_consts)
  then show ?thesis
    using DecodePacket_position [OF assms(1)] assms(2,4)
    by (auto simp: raw_ok_def raw_lla_def Let_def raw_in_range_def abs_le_iff)
qed

theorem position_accepted_iff_witness:
  "\<not> (\<exists>ev. DecodePacket NewDecoder 0 bad_position '''' = Val (Inr ev))"
proof -
  have f: "fr_SystemID (frame_at bad_position) = 1"
    "fr_MessageID (frame_at bad_position) = MsgIDGlobalPositionInt"
    "fr_Payload (frame_at bad_position) = take 28 (drop 10 bad_position)"
    by (simp_all add: bad_position_def frame_at_def msg_id_of_def protocol_consts)
  have v: "sint (le32_at (take 28 (drop 10 bad_position)) 4) = 900000001"
    by (simp add: bad_position_def le32_at_def u32_of_def)
  have l: "28 \<le> length (fr_Payload (frame_at bad_position))" by (subst f) (simp add: bad_position_def)
  show ?thesis
    using position_accepted_iff [of NewDecoder bad_position "frame_at bad_position" 40 0 "''''", OF _ f(2) l]
    by (simp add: NewDecoder_def bad_position_parses f(1,3) v ValidateSystemID_def)
qed

section \<open>Corruption on the wire\<close>

text \<open>
  The bytes a checksummed frame protects beside the fields that select its layout and its seed:
  everything from the compatibility flags to the last checksum byte, the message identity apart.
\<close>

definition covered :: "byte list \<Rightarrow> nat \<Rightarrow> bool" where
  "covered data k \<longleftrightarrow> 3 \<le> k \<and> k < 12 + unat (data ! 1) \<and> k \<noteq> 7 \<and> k \<noteq> 8 \<and> k \<noteq> 9"

lemma u16_of_inj: "u16_of a b = u16_of c d \<Longrightarrow> a = c \<and> b = d"
proof -
  assume e: "u16_of a b = u16_of c d"
  have h: "bit (u16_of x y) n \<longleftrightarrow> bit x n \<or> (8 \<le> n \<and> n < 16 \<and> bit y (n - 8))" for x y n
    by (auto simp: u16_of_def bit_simps bit_beyond_byte dest: bit_imp_le_length)
  have "bit a n = bit c n" for n
    using h [of a b n] h [of c d n] e bit_beyond_byte [of n a] bit_beyond_byte [of n c] by (cases "n < 8") auto
  moreover have "bit b n = bit d n" for n
    using h [of a b "n + 8"] h [of c d "n + 8"] e bit_beyond_byte [of "n + 8" a] bit_beyond_byte [of "n + 8" c]
      bit_beyond_byte [of n b] bit_beyond_byte [of n d] by (cases "n < 8") auto
  ultimately show ?thesis by (simp add: bit_eqI)
qed

lemma crc_ok_known:
  assumes "crcSeed (msg_id_of (data ! 7) (data ! 8) (data ! 9)) = Some seed"
  shows "crc_ok data \<longleftrightarrow>
    crcCalculate (take (9 + unat (data ! 1)) (drop 1 data)) seed
      = u16_of (data ! (10 + unat (data ! 1))) (data ! (11 + unat (data ! 1)))"
  using assms by (simp add: crc_ok_def frame_at_def Let_def)

lemma ParseFrame_V2:
  "data \<noteq> [] \<Longrightarrow> data ! 0 = MagicV2 \<Longrightarrow> ParseFrame p data = parseV2Frame p data"
  by (cases data) (simp_all add: ParseFrame_eq)

lemma list_update_split:
  "k < length xs \<Longrightarrow> xs ! k \<noteq> b \<Longrightarrow>
     \<exists>ys zs c. xs = ys @ c # zs \<and> xs[k := b] = ys @ b # zs \<and> c \<noteq> b"
  by (metis id_take_nth_drop upd_conv_take_nth_drop)

text \<open>A change of one protected byte breaks the checksum.\<close>

lemma crc_ok_update:
  assumes ok: "crc_ok data" and k: "covered data k" and len: "12 + unat (data ! 1) \<le> length data"
    and seed: "crcSeed (msg_id_of (data ! 7) (data ! 8) (data ! 9)) = Some seed"
    and b: "data ! k \<noteq> b"
  shows "\<not> crc_ok (data[k := b])"
proof -
  let ?n = "unat (data ! 1)" and ?d = "data[k := b]"
  let ?body = "take (9 + ?n) (drop 1 data)"
  have same: "?d ! 1 = data ! 1" "?d ! 7 = data ! 7" "?d ! 8 = data ! 8" "?d ! 9 = data ! 9"
    using k by (auto simp: covered_def)
  have sum: "crcCalculate ?body seed = u16_of (data ! (10 + ?n)) (data ! (11 + ?n))"
    using ok seed by (simp add: crc_ok_known)
  have crc: "crc_ok ?d \<longleftrightarrow>
      crcCalculate (take (9 + ?n) (drop 1 ?d)) seed = u16_of (?d ! (10 + ?n)) (?d ! (11 + ?n))"
    using crc_ok_known [of ?d seed] seed by (simp only: same)
  show ?thesis
  proof (cases "k < 10 + ?n")
    case True
    have body: "take (9 + ?n) (drop 1 ?d) = ?body[k - 1 := b]"
      using k by (simp add: drop_update_swap take_update_swap covered_def)
    have nth: "?body ! (k - 1) \<noteq> b" "k - 1 < length ?body"
      using True k len b by (auto simp: covered_def)
    obtain ys zs c where "?body = ys @ c # zs" "?body[k - 1 := b] = ys @ b # zs" "c \<noteq> b"
      using list_update_split [OF nth(2,1)] by blast
    then have "crcCalculate (?body[k - 1 := b]) seed \<noteq> crcCalculate ?body seed"
      by (metis crcCalculate_single)
    moreover have "?d ! (10 + ?n) = data ! (10 + ?n)" "?d ! (11 + ?n) = data ! (11 + ?n)"
      using True by simp_all
    ultimately show ?thesis using sum by (simp add: crc body del: One_nat_def)
  next
    case False
    then have "take (9 + ?n) (drop 1 ?d) = ?body" using k by (simp add: drop_update_swap covered_def)
    moreover have "k = 10 + ?n \<or> k = 11 + ?n" using False k by (auto simp: covered_def)
    then have "u16_of (?d ! (10 + ?n)) (?d ! (11 + ?n)) \<noteq> u16_of (data ! (10 + ?n)) (data ! (11 + ?n))"
      using b len u16_of_inj by (elim disjE) fastforce+
    ultimately show ?thesis using sum by (simp only: crc)
  qed
qed



section \<open>The parser and the checksum, exactly\<close>

text \<open>
  What \<^verbatim>\<open>ParseFrame\<close> answers on every input, the errors in the order the code tests them; in
  particular it never reports an oversized payload, and it accepts nothing beyond the buffer.
\<close>

theorem parse_frame_exact:
  "ParseFrame p data =
    Val (if length data = 0 then Inl ErrFrameTooShort
         else if data ! 0 = MagicV1 then Inl ErrUnsupportedVersion
         else if data ! 0 \<noteq> MagicV2 then Inl ErrInvalidMagic
         else if length data < 12 \<or> length data < frame_size data then Inl ErrFrameTooShort
         else if ValidateCRC p \<and> \<not> crc_ok data then Inl ErrChecksumMismatch
         else Inr (frame_at data, frame_size data))"
  by (cases data) (simp_all add: ParseFrame_eq parseV2Frame_eq protocol_consts del: length_greater_0_conv)

text \<open>
  C35: the table-free shift-and-xor checksum computes the bit-serial CRC-16 of the buffer followed
  by the seed byte, started at all ones.
\<close>

theorem crc_is_bit_serial: "crcCalculate buf seed = crc_ref (buf @ [seed]) 0xFFFF"
proof -
  have "crcLoop (buf @ [seed]) 0xFFFF = crcCalculate buf seed"
    by (simp add: crcLoop_append crcCalculate_def)
  then show ?thesis by (simp only: crcLoop_ref)
qed

section \<open>What a decoder makes of a payload\<close>

text \<open>The payload length each decoder asks for.\<close>

definition min_payload :: "uint32 \<Rightarrow> nat" where
  "min_payload m =
    (if m = MsgIDHeartbeat then 9
     else if m = MsgIDGlobalPositionInt then 28
     else if m = MsgIDGPSRawInt then 30
     else if m = MsgIDBatteryStatus then 36
     else if m = MsgIDAttitude then 28
     else 0)"

lemma nil_payload_of: "nil_payload (payload_of f) \<longleftrightarrow> length (fr_Payload f) < min_payload (fr_MessageID f)"
  by (simp add: payload_of_def min_payload_def Let_def)

lemma checked_payload_nil: "nil_payload (payload_of f) \<Longrightarrow> checked_payload f = Some (payload_of f)"
  by (cases "payload_of f") (auto simp: checked_payload_def)

lemma checked_nil_iff:
  assumes "checked_payload f = Some q"
  shows "nil_payload q \<longleftrightarrow> nil_payload (payload_of f)"
proof (cases "nil_payload (payload_of f)")
  case False
  obtain p where p: "payload_of f = p" by simp
  have "checked_payload f = Some q \<Longrightarrow> \<not> nil_payload q"
    using False unfolding checked_payload_def p by (cases p) (auto split: if_splits)
  with assms False show ?thesis by blast
qed (use assms in \<open>simp add: checked_payload_nil\<close>)

text \<open>
  MAVLink 2 senders cut trailing zero bytes off a payload; the decoder does not restore them.
  A checksummed message of a valid vehicle that is shorter than its full layout is accepted, and
  exactly then the accepted event carries a typed nil pointer instead of telemetry.
\<close>

theorem truncated_is_nil_event:
  assumes "ParseFrame (dec_parser d) data = Val (Inr (f, n))" and "ValidateSystemID (fr_SystemID f)"
  shows "(\<exists>ev. DecodePacket d now data addr = Val (Inr ev) \<and> nil_payload (ev_Payload ev)) \<longleftrightarrow>
    length (fr_Payload f) < min_payload (fr_MessageID f)"
  using assms checked_payload_nil [of f] checked_nil_iff [of f] nil_payload_of [of f]
  by (cases "checked_payload f") (auto simp: DecodePacket_eq)

theorem truncated_is_nil_event_witness:
  "\<exists>ev. DecodePacket NewDecoder 3 short_heartbeat ''h'' = Val (Inr ev) \<and> nil_payload (ev_Payload ev)"
proof -
  have "ParseFrame (dec_parser NewDecoder) short_heartbeat = Val (Inr (frame_at short_heartbeat, 20))"
    by (simp add: NewDecoder_def short_heartbeat_parses)
  moreover have "ValidateSystemID (fr_SystemID (frame_at short_heartbeat))"
    "length (fr_Payload (frame_at short_heartbeat)) < min_payload (fr_MessageID (frame_at short_heartbeat))"
    by (simp_all add: ValidateSystemID_def short_heartbeat_def frame_at_def msg_id_of_def min_payload_def
        protocol_consts)
  ultimately show ?thesis using truncated_is_nil_event by blast
qed

end
