(* ===== verification/Raw_Payload.thy ===== *)
theory Raw_Payload
  imports Ingest_Theorems Mavlink_Theorems
begin

text \<open>
  The payload of an unknown message.  \<^verbatim>\<open>decodePayload\<close> (\<^verbatim>\<open>internal/mavlink/parser.go\<close>) returns the slice
  of the frame itself, so in the code the payload of such an event is a view of the pooled buffer the
  datagram was read into, while the model's event carries the bytes.  This theory relates the two: the
  view shows the payload while the worker holds the buffer, and another datagram once it is reused.
\<close>

text \<open>What a slice of \<open>n\<close> bytes at the payload of packet \<open>a\<close> shows.\<close>

definition raw_view :: "nat \<Rightarrow> nat \<Rightarrow> UDPListener \<Rightarrow> byte list" where
  "raw_view a n l = take n (drop 10 (pk_Data (pp_heap (ul_pool l) ! a)))"

lemma payload_of_raw: "payload_of f = PRaw p \<Longrightarrow> p = fr_Payload f"
  by (simp add: payload_of_def Let_def split: if_splits)

lemma checked_raw: "checked_payload f = Some (PRaw p) \<Longrightarrow> p = fr_Payload f"
  by (auto simp: checked_payload_def dest: payload_of_raw split: Payload.splits option.splits if_splits)

lemma raw_payload_is_view:
  assumes "DecodePacket d now (take k (pk_Data (pp_heap (ul_pool l) ! a))) addr = Val (Inr ev)" "ev_Payload ev = PRaw p"
  shows "p = raw_view a (length p) l"
proof -
  let ?data = "take k (pk_Data (pp_heap (ul_pool l) ! a))"
  obtain f n where f: "ParseFrame (dec_parser d) ?data = Val (Inr (f, n))" "checked_payload f = Some (PRaw p)"
    using assms by (elim DecodePacket_InrD) simp
  then have "f = frame_at ?data" by (simp add: ParseFrame_Inr_iff)
  with checked_raw [OF f(2)] have "p = take (unat (?data ! 1)) (drop 10 ?data)" by (simp add: frame_at_def Let_def)
  then have "\<exists>n. p = take n (drop 10 (pk_Data (pp_heap (ul_pool l) ! a)))"
    by (simp only: drop_take take_take) blast
  then show ?thesis by (auto simp: raw_view_def min_def)
qed

text \<open>
  A worker that has sent an unknown message on gives its buffer back; the next datagram the receive loop
  reads into that buffer is what the payload of the event shows from then on.
\<close>

theorem raw_payload_overwritten:
  assumes "core_ok l" "a < length (pp_heap (ul_pool l))" "set (pp_free (ul_pool l)) \<subseteq> {..<length (pp_heap (ul_pool l))}"
    and "DecodePacket (wp_decoder (ul_workers l)) (ck_decode ck)
      (take (nat (pk_Length (pp_heap (ul_pool l) ! a))) (pk_Data (pp_heap (ul_pool l) ! a)))
      (pk_SourceAddr (pp_heap (ul_pool l) ! a)) = Val (Inr ev)" "ev_Payload ev = PRaw p"
    and "\<not> ri_done i" "ri_choice i = Some a" "ri_read i = ReadOK data ip addr"
    and "10 + length p \<le> length data" "int (length data) \<le> pp_bufferSize (ul_pool l)"
  shows "raw_view a (length p) l = p \<and>
    raw_view a (length p) (snd (receiveRead i (snd (processPacket ck a l)))) = take (length p) (drop 10 data)"
proof -
  let ?l1 = "after_process ck a l"
  have pr: "processPacket ck a l = (Val (), ?l1)" by (rule processPacket_eq [OF assms(1,2)])
  have out: "open_chan (ul_output (counted ck q l))" for q
    using assms(1) by (auto simp: counted_def Let_def core_ok_def open_chan_def chan_ok_def split: sum.split prod.split)
  have core: "core_ok ?l1" using assms(1) out by (simp add: after_process_def core_ok_def)
  have pool: "ul_pool ?l1 = (ul_pool l)\<lparr>pp_free := a # pp_free (ul_pool l)\<rparr>" by (simp add: after_process_def)
  have get: "can_get (ri_choice i) (ul_pool ?l1)" by (simp add: can_get_def assms(7) pool)
  have free: "set (pp_free (ul_pool ?l1)) \<subseteq> {..<length (pp_heap (ul_pool ?l1))}" using assms(2,3) by (simp add: pool)
  have "int (length (pk_Data (pp_heap (ul_pool l) ! a))) = pp_bufferSize (ul_pool l)"
    using assms(1,2) by (auto simp: core_ok_def buffers_ok_def)
  then have "length data \<le> length (pk_Data (pp_heap (ul_pool l) ! a))" using assms(10) by simp
  then have "raw_view a (length p) (after_read i ?l1) = take (length p) (drop 10 data)"
    using assms(2,6-9)
    by (simp add: raw_view_def after_read_def arrived_def got_addr_def got_pool_def pool fill_packet_def Packet_Reset_def
        Let_def)
  then show ?thesis
    using raw_payload_is_view [OF assms(4,5)] receiveRead_eq [OF core get free] pr by simp
qed

end
