(* ===== verification/Websocket.thy ===== *)
theory Websocket
  imports Drone Hub
begin

text \<open>
  \<^verbatim>\<open>internal/broadcast/websocket.go\<close>: the server that pushes state summaries to the browsers.  Clients
  live on a heap, because the map of the server and the goroutines of a connection share the pointer.
  The queue of a client holds the messages themselves: \<^verbatim>\<open>json.Marshal\<close> of a message fails exactly when
  it holds a number JSON has no notation for, and the text it gives otherwise is not modelled.
\<close>

section \<open>Messages\<close>

record SubscribeMessage =
  sm_DroneIDs :: "uint8 list"
  sm_EventTypes :: "string list"

record BroadcastMessage =
  bm_Type :: string
  bm_Timestamp :: int
  bm_Drones :: "Summary list"

definition encodable_float :: "f64 option \<Rightarrow> bool" where
  "encodable_float x = (case x of None \<Rightarrow> True | Some v \<Rightarrow> \<not> is_inf v \<and> v \<noteq> NaN)"

definition encodable_summary :: "Summary \<Rightarrow> bool" where
  "encodable_summary s =
    (encodable_float (sum_Latitude s) \<and> encodable_float (sum_Longitude s) \<and> encodable_float (sum_Altitude s) \<and>
     encodable_float (sum_Heading s) \<and> encodable_float (sum_BatteryVoltage s))"

definition marshal :: "BroadcastMessage \<Rightarrow> BroadcastMessage option" where
  "marshal msg = (if list_all encodable_summary (bm_Drones msg) then Some msg else None)"

section \<open>Clients\<close>

text \<open>
  The Go maps of the filter only ever hold \<^verbatim>\<open>true\<close>: a filter is the set of its keys, the nil map the
  empty set.  Cancelling a client is a flag its goroutines see.
\<close>

record wsClient =
  cl_id :: uint64
  cl_cancelled :: bool
  cl_droneIDs :: "uint8 set"
  cl_eventTypes :: "string set"
  cl_messages :: "BroadcastMessage chan"

definition matchesDrone :: "uint8 \<Rightarrow> wsClient \<Rightarrow> bool" where
  "matchesDrone i c = (if cl_droneIDs c = {} then True else i \<in> cl_droneIDs c)"

definition hasFilter :: "wsClient \<Rightarrow> bool" where
  "hasFilter c = (cl_droneIDs c \<noteq> {})"

section \<open>The server\<close>

text \<open>What the program sets of its \<^verbatim>\<open>http.Server\<close>, and whether it has been shut down.  Its handler is the mux.\<close>

record http_server =
  hs_Addr :: string
  hs_ReadTimeout :: duration
  hs_WriteTimeout :: duration
  hs_down :: bool

record WebSocketServer =
  wss_cfg :: WebSocketConfig
  wss_subscription :: nat
  wss_mux :: "string list"
  wss_heap :: "wsClient list"
  wss_clients :: "uint64 \<Rightarrow> nat option"
  wss_nextID :: uint64
  wss_done :: bool
  wss_server :: "http_server option"

text \<open>
  \<^verbatim>\<open>mux.HandleFunc\<close> panics on a pattern that is registered already (the patterns of the program have
  neither methods nor wildcards, so only equal ones conflict).
\<close>

definition mux_handle :: "string \<Rightarrow> string list \<Rightarrow> string list go" where
  "mux_handle pattern mux = (if pattern \<in> set mux then Panic PatternConflict else Val (mux @ [pattern]))"

definition HandleFunc :: "string \<Rightarrow> (WebSocketServer, unit) act" where
  "HandleFunc pattern ws =
    act_bind (act_go (mux_handle pattern (wss_mux ws))) (\<lambda>mux. act_modify (\<lambda>ws. ws\<lparr>wss_mux := mux\<rparr>)) ws"

lemma HandleFunc_eq:
  "HandleFunc pattern ws =
    (if pattern \<in> set (wss_mux ws) then (Panic PatternConflict, ws)
     else (Val (), ws\<lparr>wss_mux := wss_mux ws @ [pattern]\<rparr>))"
  by (simp add: HandleFunc_def mux_handle_def act_simps)

definition registerExportHandlers :: "(WebSocketServer, unit) act" where
  "registerExportHandlers =
    act_then (HandleFunc ''/api/drones/export'') (HandleFunc ''/api/drones/'')"

definition RegisterHandler :: "string \<Rightarrow> (WebSocketServer, unit) act" where
  "RegisterHandler pattern = HandleFunc pattern"

text \<open>The hub is updated by the subscription; the result of the construction is the server.\<close>

definition NewWebSocketServer :: "WebSocketConfig \<Rightarrow> (Hub, WebSocketServer) act" where
  "NewWebSocketServer cfg =
    act_bind (Subscribe ''websocket_broadcaster'') (\<lambda>a.
    let ws = \<lparr>wss_cfg = cfg, wss_subscription = a, wss_mux = [], wss_heap = [], wss_clients = Map.empty,
           wss_nextID = 0, wss_done = False, wss_server = None\<rparr>;
        (r, ws) =
          act_then (HandleFunc ''/ws'') (
          act_then (HandleFunc ''/api/drones'') (
          act_then (HandleFunc ''/api/health'')
          registerExportHandlers)) ws
    in act_go (go_bind r (\<lambda>_. Val ws)))"

definition put_client :: "nat \<Rightarrow> wsClient \<Rightarrow> WebSocketServer \<Rightarrow> WebSocketServer" where
  "put_client a c ws = ws\<lparr>wss_heap := (wss_heap ws)[a := c]\<rparr>"

definition ClientCount :: "uint64 list \<Rightarrow> WebSocketServer \<Rightarrow> int" where
  "ClientCount ks ws = int (length ks)"

definition cancelClient :: "nat \<Rightarrow> WebSocketServer \<Rightarrow> WebSocketServer" where
  "cancelClient a ws = put_client a ((wss_heap ws ! a)\<lparr>cl_cancelled := True\<rparr>) ws"

subsection \<open>Broadcasting\<close>

text \<open>\<^verbatim>\<open>select { case c.messages <- data: default: }\<close>\<close>

definition offerMessage :: "BroadcastMessage \<Rightarrow> nat \<Rightarrow> (WebSocketServer, unit) act" where
  "offerMessage msg a ws =
    (let c = wss_heap ws ! a in
     case try_send msg (cl_messages c) of
       Val (q, sent) \<Rightarrow> (Val (), put_client a (c\<lparr>cl_messages := q\<rparr>) ws)
     | Panic p \<Rightarrow> (Panic p, ws)
     | Diverge \<Rightarrow> (Diverge, ws))"

fun filterLoop :: "wsClient \<Rightarrow> Summary list \<Rightarrow> Summary list" where
  "filterLoop c [] = []"
| "filterLoop c (s # ss) = (if matchesDrone (sum_SystemID s) c then s # filterLoop c ss else filterLoop c ss)"

fun clientsLoop :: "BroadcastMessage \<Rightarrow> BroadcastMessage \<Rightarrow> uint64 list \<Rightarrow> (WebSocketServer, unit) act" where
  "clientsLoop msg fullData [] ws = (Val (), ws)"
| "clientsLoop msg fullData (k # ks) ws =
    (case wss_clients ws k of
       None \<Rightarrow> clientsLoop msg fullData ks ws
     | Some a \<Rightarrow>
         if hasFilter (wss_heap ws ! a) then
           (let filtered = filterLoop (wss_heap ws ! a) (bm_Drones msg);
                filteredMsg = \<lparr>bm_Type = ''state_update'', bm_Timestamp = bm_Timestamp msg, bm_Drones = filtered\<rparr>
            in case marshal filteredMsg of
                 None \<Rightarrow> clientsLoop msg fullData ks ws
               | Some data \<Rightarrow> act_then (offerMessage data a) (clientsLoop msg fullData ks) ws)
         else act_then (offerMessage fullData a) (clientsLoop msg fullData ks) ws)"

text \<open>What a tick looks at: the clock, the registry, and the orders of the two maps.\<close>

record tick_view =
  tv_now :: instant
  tv_manager :: Manager
  tv_drones :: "DroneID list"
  tv_clients :: "uint64 list"

definition state_update :: "tick_view \<Rightarrow> BroadcastMessage" where
  "state_update tv =
    \<lparr>bm_Type = ''state_update'', bm_Timestamp = unix_milli (tv_now tv),
     bm_Drones = GetAllSummaries (tv_drones tv) (tv_manager tv)\<rparr>"

definition broadcastUpdates :: "tick_view \<Rightarrow> (WebSocketServer, unit) act" where
  "broadcastUpdates tv ws =
    (let msg = state_update tv in
     case marshal msg of
       None \<Rightarrow> (Val (), ws)
     | Some fullData \<Rightarrow> clientsLoop msg fullData (tv_clients tv) ws)"

text \<open>The goroutine: its select receives an event of the subscription, or a tick.\<close>

datatype feed = FeedEvent TelemetryEvent | FeedTick tick_view

definition feedStep :: "feed \<Rightarrow> (TelemetryEvent list \<times> WebSocketServer, unit) act" where
  "feedStep f s =
    (case s of (pendingUpdates, ws) \<Rightarrow>
       (case f of
          FeedEvent event \<Rightarrow> (Val (), (pendingUpdates @ [event], ws))
        | FeedTick tv \<Rightarrow>
            if pendingUpdates \<noteq> [] then
              (case broadcastUpdates tv ws of
                 (Val _, ws) \<Rightarrow> (Val (), ([], ws))
               | (Panic p, ws) \<Rightarrow> (Panic p, (pendingUpdates, ws))
               | (Diverge, ws) \<Rightarrow> (Diverge, (pendingUpdates, ws)))
            else (Val (), (pendingUpdates, ws))))"

text \<open>
  \<^verbatim>\<open>time.NewTicker\<close> panics on a period that is not positive; the deferred recover reports it like any
  other panic.  The result: whether it panicked, the outcomes not looked at, the server.
\<close>

definition runBroadcastLoop ::
    "feed selected list \<Rightarrow> WebSocketServer \<Rightarrow> bool \<times> feed selected list \<times> WebSocketServer" where
  "runBroadcastLoop sels ws =
    (if wc_BroadcastInterval (wss_cfg ws) \<le> 0 then (True, sels, ws)
     else
       (case innerLoop feedStep sels ([], ws) of
          (panicked, sels, pendingUpdates, ws) \<Rightarrow> (panicked, sels, ws)))"

text \<open>\<open>None\<close>: the goroutine never returns.\<close>

partial_function (option) ws_broadcastLoop ::
    "feed selected list \<Rightarrow> WebSocketServer \<Rightarrow> WebSocketServer option" where
  "ws_broadcastLoop sels ws =
    (case runBroadcastLoop sels ws of
       (panicked, sels, ws) \<Rightarrow> if \<not> panicked then Some ws else ws_broadcastLoop sels ws)"

subsection \<open>The life of a connection\<close>

text \<open>\<^verbatim>\<open>handleWebSocket\<close> up to the hand-shake: whether the request is let through.\<close>

definition admits :: "uint64 list \<Rightarrow> WebSocketServer \<Rightarrow> bool" where
  "admits ks ws =
    (let count = int (length ks) in
     \<not> (0 < wc_MaxClients (wss_cfg ws) \<and> wc_MaxClients (wss_cfg ws) \<le> count))"

text \<open>After the hand-shake: the new client, in the map and on the heap.\<close>

definition connectClient :: "(WebSocketServer, nat) act" where
  "connectClient ws =
    (let i = wss_nextID ws + 1;
         a = length (wss_heap ws);
         c = \<lparr>cl_id = i, cl_cancelled = False, cl_droneIDs = {}, cl_eventTypes = {},
               cl_messages = \<lparr>ch_buf = [], ch_cap = 64, ch_closed = False\<rparr>\<rparr>
     in (Val a, ws\<lparr>wss_nextID := i, wss_heap := wss_heap ws @ [c], wss_clients := (wss_clients ws)(i \<mapsto> a)\<rparr>))"

text \<open>After the disconnection.\<close>

definition disconnectClient :: "nat \<Rightarrow> WebSocketServer \<Rightarrow> WebSocketServer" where
  "disconnectClient a ws = ws\<lparr>wss_clients := (wss_clients ws)(cl_id (wss_heap ws ! a) := None)\<rparr>"

datatype ws_response =
    MaxClientsReached     \<comment> \<open>503\<close>
  | AcceptFailed
  | Served

text \<open>
  The whole handler on its own, for a connection whose goroutines do \<open>session\<close> until its context is
  cancelled.
\<close>

definition handleWebSocket ::
    "uint64 list \<Rightarrow> bool \<Rightarrow> (nat \<Rightarrow> WebSocketServer \<Rightarrow> WebSocketServer) \<Rightarrow> (WebSocketServer, ws_response) act" where
  "handleWebSocket ks accepted session ws =
    (if \<not> admits ks ws then (Val MaxClientsReached, ws)
     else if \<not> accepted then (Val AcceptFailed, ws)
     else
       act_bind connectClient (\<lambda>a.
       act_then (act_modify (session a)) (
       act_then (act_modify (disconnectClient a)) (
       act_return Served))) ws)"

text \<open>What a read of the connection gives.\<close>

datatype client_read = ConnReadError | InvalidJSON | Subscribed SubscribeMessage

definition applySubscription :: "SubscribeMessage \<Rightarrow> wsClient \<Rightarrow> wsClient" where
  "applySubscription sub c =
    (let c = (if sm_DroneIDs sub \<noteq> [] then c\<lparr>cl_droneIDs := set (sm_DroneIDs sub)\<rparr> else c\<lparr>cl_droneIDs := {}\<rparr>)
     in if sm_EventTypes sub \<noteq> [] then c\<lparr>cl_eventTypes := set (sm_EventTypes sub)\<rparr> else c\<lparr>cl_eventTypes := {}\<rparr>)"

text \<open>The deferred cancel runs when the loop is left; with no read left it waits.\<close>

fun clientReadLoop :: "client_read list \<Rightarrow> nat \<Rightarrow> WebSocketServer \<Rightarrow> WebSocketServer" where
  "clientReadLoop [] a ws = ws"
| "clientReadLoop (ConnReadError # rs) a ws = cancelClient a ws"
| "clientReadLoop (InvalidJSON # rs) a ws = clientReadLoop rs a ws"
| "clientReadLoop (Subscribed sub # rs) a ws =
    clientReadLoop rs a (put_client a (applySubscription sub (wss_heap ws ! a)) ws)"

text \<open>
  The outcomes of the select of the write loop: the context, a message with the success of its
  write, a ping with its success.  A message case that is not ready is not an outcome.
\<close>

datatype client_write = CtxDone | WriteMessage bool | PingClient bool

fun clientWriteLoop :: "client_write list \<Rightarrow> nat \<Rightarrow> WebSocketServer \<Rightarrow> WebSocketServer \<times> BroadcastMessage list" where
  "clientWriteLoop [] a ws = (ws, [])"
| "clientWriteLoop (CtxDone # ws') a ws = (cancelClient a ws, [])"
| "clientWriteLoop (WriteMessage ok # outs) a ws =
    (case recv (cl_messages (wss_heap ws ! a)) of
       None \<Rightarrow> clientWriteLoop outs a ws
     | Some (None, q) \<Rightarrow> (cancelClient a ws, [])
     | Some (Some msg, q) \<Rightarrow>
         (let ws = put_client a ((wss_heap ws ! a)\<lparr>cl_messages := q\<rparr>) ws in
          if \<not> ok then (cancelClient a ws, [])
          else (case clientWriteLoop outs a ws of (ws, sent) \<Rightarrow> (ws, msg # sent))))"
| "clientWriteLoop (PingClient ok # outs) a ws = (if \<not> ok then (cancelClient a ws, []) else clientWriteLoop outs a ws)"

subsection \<open>Shutdown\<close>

fun cancelLoop :: "uint64 list \<Rightarrow> WebSocketServer \<Rightarrow> WebSocketServer" where
  "cancelLoop [] ws = ws"
| "cancelLoop (k # ks) ws =
    (case wss_clients ws k of None \<Rightarrow> cancelLoop ks ws | Some a \<Rightarrow> cancelLoop ks (cancelClient a ws))"

definition shutServer :: "WebSocketServer \<Rightarrow> WebSocketServer" where
  "shutServer ws = ws\<lparr>wss_server := map_option (\<lambda>hs. hs\<lparr>hs_down := True\<rparr>) (wss_server ws)\<rparr>"

text \<open>The wait for the goroutines at its end is the caller's: it does not touch the server.\<close>

definition WebSocket_Stop :: "uint64 list \<Rightarrow> (WebSocketServer, unit) act" where
  "WebSocket_Stop ks ws =
    (if wss_done ws then (Panic CloseOfClosedChannel, ws)
     else (Val (), shutServer (cancelLoop ks (ws\<lparr>wss_done := True\<rparr>))))"

subsection \<open>The plain endpoints\<close>

record DroneListResponse =
  dl_Timestamp :: int
  dl_Count :: int
  dl_Drones :: "Summary list"

record HealthResponse =
  hr_Status :: string
  hr_Timestamp :: int
  hr_ConnectedDrones :: int
  hr_TotalDrones :: int
  hr_TotalMessages :: uint64

text \<open>\<open>Inl\<close>: the status of an error answer.\<close>

definition handleDroneList :: "string \<Rightarrow> instant \<Rightarrow> DroneID list \<Rightarrow> Manager \<Rightarrow> nat + DroneListResponse" where
  "handleDroneList meth now ks m =
    (if meth \<noteq> ''GET'' then Inl 405
     else
       (let summaries = GetAllSummaries ks m in
        Inr \<lparr>dl_Timestamp = unix_milli now, dl_Count = int (length summaries), dl_Drones = summaries\<rparr>))"

definition handleHealth :: "instant \<Rightarrow> DroneID list \<Rightarrow> Manager \<Rightarrow> HealthResponse" where
  "handleHealth now ks m =
    (let stats = Manager_Stats ks m in
     \<lparr>hr_Status = ''ok'', hr_Timestamp = unix_milli now, hr_ConnectedDrones = ms_ConnectedDrones stats,
      hr_TotalDrones = ms_TotalDrones stats, hr_TotalMessages = ms_TotalMessages stats\<rparr>)"

end
