(* ===== verification/Websocket_Correct.thy ===== *)
theory Websocket_Correct
  imports Websocket Transition "HOL-Library.Sublist"
begin

text \<open>
  Correctness of the broadcaster: what a broadcast does to every client, the invariant of the server
  over all interleavings of its goroutines, and the queues of the clients.
\<close>

section \<open>The clients of the map\<close>

text \<open>Every entry of the map is the client of that id, and the queue of every client is open.\<close>

definition clients_ok :: "WebSocketServer \<Rightarrow> bool" where
  "clients_ok ws \<longleftrightarrow>
     wss_nextID ws = of_nat (length (wss_heap ws)) \<and>
     (\<forall>k a. wss_clients ws k = Some a \<longrightarrow> a < length (wss_heap ws) \<and> cl_id (wss_heap ws ! a) = k) \<and>
     (\<forall>c\<in>set (wss_heap ws). open_chan (cl_messages c) \<and> ch_cap (cl_messages c) = 64)"

definition known :: "uint64 list \<Rightarrow> WebSocketServer \<Rightarrow> bool" where
  "known ks ws \<longleftrightarrow> distinct ks \<and> set ks = dom (wss_clients ws)"

lemma clients_okD:
  assumes "clients_ok ws" "wss_clients ws k = Some a"
  shows "a < length (wss_heap ws)" "cl_id (wss_heap ws ! a) = k"
    "open_chan (cl_messages (wss_heap ws ! a))" "ch_cap (cl_messages (wss_heap ws ! a)) = 64"
  using assms by (auto simp: clients_ok_def)

lemma put_client_same [simp]:
  "wss_clients (put_client a c ws) = wss_clients ws" "wss_heap (put_client a c ws) = (wss_heap ws)[a := c]"
  "wss_nextID (put_client a c ws) = wss_nextID ws" "wss_cfg (put_client a c ws) = wss_cfg ws"
  "wss_done (put_client a c ws) = wss_done ws" "wss_mux (put_client a c ws) = wss_mux ws"
  "wss_subscription (put_client a c ws) = wss_subscription ws"
  by (simp_all add: put_client_def)

lemma put_client_ok:
  assumes "clients_ok ws" "a < length (wss_heap ws)" "cl_id c = cl_id (wss_heap ws ! a)"
    "open_chan (cl_messages c)" "ch_cap (cl_messages c) = 64"
  shows "clients_ok (put_client a c ws)"
  unfolding clients_ok_def
proof (intro conjI allI impI ballI)
  show "wss_nextID (put_client a c ws) = of_nat (length (wss_heap (put_client a c ws)))"
    using assms(1) by (simp add: clients_ok_def)
next
  fix k b assume "wss_clients (put_client a c ws) k = Some b"
  then show "b < length (wss_heap (put_client a c ws))" "cl_id (wss_heap (put_client a c ws) ! b) = k"
    using clients_okD [OF assms(1), of k b] assms(2,3) by (cases "a = b"; auto)+
next
  fix d assume "d \<in> set (wss_heap (put_client a c ws))"
  then have "d = c \<or> d \<in> set (wss_heap ws)" by (auto dest: set_update_subset_insert [THEN subsetD])
  then show "open_chan (cl_messages d)" "ch_cap (cl_messages d) = 64"
    using assms by (auto simp: clients_ok_def)
qed

section \<open>A broadcast\<close>

lemma filterLoop_eq: "filterLoop c ss = filter (\<lambda>s. matchesDrone (sum_SystemID s) c) ss"
  by (induction c ss rule: filterLoop.induct) simp_all

lemma matchesDrone_iff: "matchesDrone i c \<longleftrightarrow> cl_droneIDs c = {} \<or> i \<in> cl_droneIDs c"
  by (simp add: matchesDrone_def)

text \<open>The message for a client, and the client after its turn.\<close>

definition message_for :: "BroadcastMessage \<Rightarrow> wsClient \<Rightarrow> BroadcastMessage" where
  "message_for msg c = msg\<lparr>bm_Drones := filter (\<lambda>s. matchesDrone (sum_SystemID s) c) (bm_Drones msg)\<rparr>"

definition served :: "BroadcastMessage \<Rightarrow> wsClient \<Rightarrow> wsClient" where
  "served msg c =
    (if length (ch_buf (cl_messages c)) < ch_cap (cl_messages c)
     then c\<lparr>cl_messages := (cl_messages c)\<lparr>ch_buf := ch_buf (cl_messages c) @ [message_for msg c]\<rparr>\<rparr> else c)"

lemma served_same [simp]: "cl_id (served msg c) = cl_id c" "cl_droneIDs (served msg c) = cl_droneIDs c"
  "cl_cancelled (served msg c) = cl_cancelled c" "ch_cap (cl_messages (served msg c)) = ch_cap (cl_messages c)"
  by (simp_all add: served_def)

lemma served_open: "open_chan (cl_messages c) \<Longrightarrow> open_chan (cl_messages (served msg c))"
  by (auto simp: served_def open_chan_def chan_ok_def)

lemma message_for_all: "\<not> hasFilter c \<Longrightarrow> message_for msg c = msg"
  by (cases msg) (simp add: message_for_def hasFilter_def matchesDrone_def)

definition reached :: "uint64 list \<Rightarrow> WebSocketServer \<Rightarrow> nat set" where
  "reached ks ws = {a. \<exists>k\<in>set ks. wss_clients ws k = Some a}"

definition served_heap :: "BroadcastMessage \<Rightarrow> nat set \<Rightarrow> wsClient list \<Rightarrow> wsClient list" where
  "served_heap msg as cs = map (\<lambda>a. if a \<in> as then served msg (cs ! a) else cs ! a) [0..<length cs]"

definition broadcast_to :: "BroadcastMessage \<Rightarrow> nat set \<Rightarrow> WebSocketServer \<Rightarrow> WebSocketServer" where
  "broadcast_to msg as ws = ws\<lparr>wss_heap := served_heap msg as (wss_heap ws)\<rparr>"

lemma length_served_heap [simp]: "length (served_heap msg as cs) = length cs"
  by (simp add: served_heap_def)

lemma served_heap_nth:
  "a < length cs \<Longrightarrow> served_heap msg as cs ! a = (if a \<in> as then served msg (cs ! a) else cs ! a)"
  by (simp add: served_heap_def)

lemma served_heap_insert:
  "a < length cs \<Longrightarrow> a \<notin> as \<Longrightarrow> served_heap msg as (cs[a := served msg (cs ! a)]) = served_heap msg (insert a as) cs"
  by (rule nth_equalityI) (auto simp: served_heap_nth nth_list_update)

lemma served_heap_empty [simp]: "served_heap msg {} cs = cs"
  by (simp add: served_heap_def map_nth)

lemma offerMessage_open:
  assumes "open_chan (cl_messages (wss_heap ws ! a))" "a < length (wss_heap ws)"
  shows "offerMessage (message_for msg (wss_heap ws ! a)) a ws = (Val (), put_client a (served msg (wss_heap ws ! a)) ws)"
  using assms by (simp add: offerMessage_def try_send_def served_def open_chan_def Let_def put_client_def)

text \<open>A turn of the loop, the filtered message being encodable when the full one is.\<close>

lemma clientsLoop_step:
  assumes "clients_ok ws" "wss_clients ws k = Some a" "marshal msg = Some msg" "bm_Type msg = ''state_update''"
  shows "clientsLoop msg msg (k # ks) ws = clientsLoop msg msg ks (put_client a (served msg (wss_heap ws ! a)) ws)"
proof -
  note a = clients_okD [OF assms(1,2)]
  have "list_all encodable_summary (bm_Drones msg)" using assms(3) by (simp add: marshal_def split: if_splits)
  then have "list_all encodable_summary (filterLoop (wss_heap ws ! a) (bm_Drones msg))"
    by (simp add: filterLoop_eq list_all_iff)
  then have "hasFilter (wss_heap ws ! a) \<Longrightarrow>
      marshal \<lparr>bm_Type = ''state_update'', bm_Timestamp = bm_Timestamp msg,
        bm_Drones = filterLoop (wss_heap ws ! a) (bm_Drones msg)\<rparr> = Some (message_for msg (wss_heap ws ! a))"
    using assms(4) by (cases msg) (simp add: marshal_def message_for_def filterLoop_eq)
  then show ?thesis
    using offerMessage_open [OF a(3,1), of msg] assms(2)
    by (auto simp: message_for_all act_then_simps Let_def)
qed

lemma broadcast_to_empty [simp]: "broadcast_to msg {} ws = ws"
  by (simp add: broadcast_to_def)

lemma broadcast_to_insert:
  "a < length (wss_heap ws) \<Longrightarrow> a \<notin> as \<Longrightarrow>
     broadcast_to msg as (put_client a (served msg (wss_heap ws ! a)) ws) = broadcast_to msg (insert a as) ws"
  by (simp add: broadcast_to_def put_client_def served_heap_insert)

lemma served_ok:
  assumes "clients_ok ws" "a < length (wss_heap ws)"
  shows "clients_ok (put_client a (served msg (wss_heap ws ! a)) ws)"
proof -
  have "wss_heap ws ! a \<in> set (wss_heap ws)" using assms(2) by simp
  then have "open_chan (cl_messages (wss_heap ws ! a))" "ch_cap (cl_messages (wss_heap ws ! a)) = 64"
    using assms(1) by (auto simp: clients_ok_def)
  then show ?thesis using assms by (intro put_client_ok) (simp_all add: served_open)
qed

lemma clientsLoop_eq:
  assumes "clients_ok ws" "distinct ks" "marshal msg = Some msg" "bm_Type msg = ''state_update''"
  shows "clientsLoop msg msg ks ws = (Val (), broadcast_to msg (reached ks ws) ws)"
  using assms(1,2)
proof (induction ks arbitrary: ws)
  case Nil
  then show ?case by (simp add: reached_def)
next
  case (Cons k ks)
  show ?case
  proof (cases "wss_clients ws k")
    case None
    then have "reached (k # ks) ws = reached ks ws" by (auto simp: reached_def)
    then show ?thesis using None Cons by simp
  next
    case (Some a)
    note a = clients_okD [OF Cons.prems(1) Some]
    let ?ws = "put_client a (served msg (wss_heap ws ! a)) ws"
    have "a \<notin> reached ks ws"
      using Cons.prems(2) a(2) clients_okD(2) [OF Cons.prems(1)] by (auto simp: reached_def)
    moreover have "reached (k # ks) ws = insert a (reached ks ws)" "reached ks ?ws = reached ks ws"
      using Some by (auto simp: reached_def)
    moreover have "clientsLoop msg msg ks ?ws = (Val (), broadcast_to msg (reached ks ?ws) ?ws)"
      using Cons.IH [OF served_ok [OF Cons.prems(1) a(1)]] Cons.prems(2) by simp
    ultimately show ?thesis
      using clientsLoop_step [OF Cons.prems(1) Some assms(3,4)] broadcast_to_insert [OF a(1)] by simp
  qed
qed

definition encodable :: "tick_view \<Rightarrow> bool" where
  "encodable tv \<longleftrightarrow> list_all encodable_summary (bm_Drones (state_update tv))"

lemma broadcastUpdates_eq:
  assumes "clients_ok ws" "known (tv_clients tv) ws"
  shows "broadcastUpdates tv ws =
    (Val (), if encodable tv then broadcast_to (state_update tv) (ran (wss_clients ws)) ws else ws)"
proof -
  have "reached (tv_clients tv) ws = ran (wss_clients ws)"
    using assms(2) by (auto simp: reached_def known_def ran_def dom_def)
  moreover have "bm_Type (state_update tv) = ''state_update''" by (simp add: state_update_def)
  ultimately show ?thesis
    using clientsLoop_eq [OF assms(1), of "tv_clients tv" "state_update tv"] assms(2)
    by (simp add: broadcastUpdates_def encodable_def marshal_def known_def Let_def)
qed

lemma broadcast_to_heap:
  "a < length (wss_heap ws) \<Longrightarrow> wss_heap (broadcast_to msg as ws) ! a =
     (if a \<in> as then served msg (wss_heap ws ! a) else wss_heap ws ! a)"
  by (simp add: broadcast_to_def served_heap_nth)

lemma broadcast_to_same [simp]:
  "length (wss_heap (broadcast_to msg as ws)) = length (wss_heap ws)"
  "wss_clients (broadcast_to msg as ws) = wss_clients ws" "wss_nextID (broadcast_to msg as ws) = wss_nextID ws"
  "wss_cfg (broadcast_to msg as ws) = wss_cfg ws" "wss_done (broadcast_to msg as ws) = wss_done ws"
  by (simp_all add: broadcast_to_def)

lemma broadcast_to_ok:
  assumes "clients_ok ws"
  shows "clients_ok (broadcast_to msg as ws)"
  unfolding clients_ok_def
proof (intro conjI allI impI ballI)
  show "wss_nextID (broadcast_to msg as ws) = of_nat (length (wss_heap (broadcast_to msg as ws)))"
    using assms by (simp add: clients_ok_def)
next
  fix k a assume "wss_clients (broadcast_to msg as ws) k = Some a"
  then show "a < length (wss_heap (broadcast_to msg as ws))" "cl_id (wss_heap (broadcast_to msg as ws) ! a) = k"
    using clients_okD [OF assms, of k a] by (simp_all add: broadcast_to_heap)
next
  fix c assume "c \<in> set (wss_heap (broadcast_to msg as ws))"
  then obtain a where "a < length (wss_heap ws)" "c = wss_heap (broadcast_to msg as ws) ! a"
    by (metis broadcast_to_same(1) in_set_conv_nth)
  moreover from this have "wss_heap ws ! a \<in> set (wss_heap ws)" by simp
  ultimately show "open_chan (cl_messages c)" "ch_cap (cl_messages c) = 64"
    using assms by (auto simp: clients_ok_def broadcast_to_heap served_open)
qed

section \<open>The running server\<close>

text \<open>
  The goroutines of the server, interleaved: requests on their way through the limit check and the
  hand-shake, the read and the write loop of every client, the broadcast loop, handlers that leave,
  and the shutdown.  A step is what its goroutine does between two points where another may run.
\<close>

record ws_sys =
  sy_ws :: WebSocketServer
  sy_pending :: "TelemetryEvent list"
  sy_shaking :: nat
  sy_written :: "nat \<Rightarrow> BroadcastMessage list"

datatype ws_op =
    OpRequest "uint64 list"
  | OpHandshake bool
  | OpRead nat client_read
  | OpWrite nat client_write
  | OpFeed feed
  | OpLeave nat
  | OpStop "uint64 list"

fun feed_view_ok :: "feed \<Rightarrow> WebSocketServer \<Rightarrow> bool" where
  "feed_view_ok (FeedEvent e) ws = True"
| "feed_view_ok (FeedTick tv) ws = known (tv_clients tv) ws"

inductive ws_step :: "ws_sys \<Rightarrow> ws_op \<Rightarrow> ws_sys \<Rightarrow> bool" where
  step_request: "known ks (sy_ws s) \<Longrightarrow>
    ws_step s (OpRequest ks) (if admits ks (sy_ws s) then s\<lparr>sy_shaking := Suc (sy_shaking s)\<rparr> else s)"
| step_handshake: "sy_shaking s = Suc n \<Longrightarrow>
    ws_step s (OpHandshake ok)
      (s\<lparr>sy_shaking := n, sy_ws := if ok then snd (connectClient (sy_ws s)) else sy_ws s\<rparr>)"
| step_read: "a < length (wss_heap (sy_ws s)) \<Longrightarrow>
    ws_step s (OpRead a r) (s\<lparr>sy_ws := clientReadLoop [r] a (sy_ws s)\<rparr>)"
| step_write: "a < length (wss_heap (sy_ws s)) \<Longrightarrow> clientWriteLoop [w] a (sy_ws s) = (ws', sent) \<Longrightarrow>
    ws_step s (OpWrite a w) (s\<lparr>sy_ws := ws', sy_written := (sy_written s)(a := sy_written s a @ sent)\<rparr>)"
| step_feed: "feed_view_ok f (sy_ws s) \<Longrightarrow> feedStep f (sy_pending s, sy_ws s) = (Val (), pending', ws') \<Longrightarrow>
    ws_step s (OpFeed f) (s\<lparr>sy_pending := pending', sy_ws := ws'\<rparr>)"
| step_leave: "a < length (wss_heap (sy_ws s)) \<Longrightarrow> cl_cancelled (wss_heap (sy_ws s) ! a) \<Longrightarrow>
    ws_step s (OpLeave a) (s\<lparr>sy_ws := disconnectClient a (sy_ws s)\<rparr>)"
| step_stop: "known ks (sy_ws s) \<Longrightarrow> WebSocket_Stop ks (sy_ws s) = (Val (), ws') \<Longrightarrow>
    ws_step s (OpStop ks) (s\<lparr>sy_ws := ws'\<rparr>)"

text \<open>Runs in which at most \<open>K\<close> requests are between the check and the end of their hand-shake.\<close>

definition ws_bounded :: "nat \<Rightarrow> ws_sys \<Rightarrow> ws_op \<Rightarrow> ws_sys \<Rightarrow> bool" where
  "ws_bounded K s op s' \<longleftrightarrow> ws_step s op s' \<and> sy_shaking s' \<le> K"

abbreviation ws_run :: "nat \<Rightarrow> ws_sys \<Rightarrow> ws_op list \<Rightarrow> ws_sys \<Rightarrow> bool" where
  "ws_run K \<equiv> run_of (ws_bounded K)"

lemma ws_snoc: "ws_run K s ops s' \<Longrightarrow> ws_step s' op s'' \<Longrightarrow> sy_shaking s'' \<le> K \<Longrightarrow> ws_run K s (ops @ [op]) s''"
  by (simp add: run_snoc ws_bounded_def)

definition ws_start :: "WebSocketServer \<Rightarrow> ws_sys" where
  "ws_start ws = \<lparr>sy_ws = ws, sy_pending = [], sy_shaking = 0, sy_written = (\<lambda>_. [])\<rparr>"

lemma connectClient_ok:
  assumes "clients_ok ws"
  shows "clients_ok (snd (connectClient ws))"
  using assms
  by (auto simp: clients_ok_def connectClient_def Let_def nth_append open_chan_def chan_ok_def less_Suc_eq)

lemma disconnectClient_ok: "clients_ok ws \<Longrightarrow> clients_ok (disconnectClient a ws)"
  by (auto simp: clients_ok_def disconnectClient_def)

lemma cancelClient_ok:
  assumes "clients_ok ws" "a < length (wss_heap ws)"
  shows "clients_ok (cancelClient a ws)"
proof -
  have "wss_heap ws ! a \<in> set (wss_heap ws)" using assms(2) by simp
  then have "open_chan (cl_messages (wss_heap ws ! a))" "ch_cap (cl_messages (wss_heap ws ! a)) = 64"
    using assms(1) unfolding clients_ok_def by blast+
  then show ?thesis using assms unfolding cancelClient_def by (intro put_client_ok) simp_all
qed

lemma applySubscription_same [simp]: "cl_id (applySubscription sub c) = cl_id c"
  "cl_messages (applySubscription sub c) = cl_messages c" "cl_cancelled (applySubscription sub c) = cl_cancelled c"
  by (simp_all add: applySubscription_def Let_def)

lemma clients_ok_heap:
  "clients_ok ws \<Longrightarrow> a < length (wss_heap ws) \<Longrightarrow>
     open_chan (cl_messages (wss_heap ws ! a)) \<and> ch_cap (cl_messages (wss_heap ws ! a)) = 64"
  by (simp add: clients_ok_def)

lemma readLoop_ok:
  assumes "clients_ok ws" "a < length (wss_heap ws)"
  shows "clients_ok (clientReadLoop [r] a ws)"
  using assms clients_ok_heap [OF assms]
  by (cases r) (simp_all add: cancelClient_ok put_client_ok)

text \<open>A turn of the write loop: the queue after it, and what went over the connection.\<close>

lemma writeLoop_cases:
  assumes "clients_ok ws" "a < length (wss_heap ws)" "clientWriteLoop [w] a ws = (ws', sent)"
  obtains (keep) "ws' = ws \<and> sent = []"
    | (cancel) "ws' = cancelClient a ws \<and> sent = []"
    | (wrote) m q where "ch_buf (cl_messages (wss_heap ws ! a)) = m # q" "sent = [m]"
        "ws' = put_client a ((wss_heap ws ! a)\<lparr>cl_messages := (cl_messages (wss_heap ws ! a))\<lparr>ch_buf := q\<rparr>\<rparr>) ws"
    | (lost) m q where "ch_buf (cl_messages (wss_heap ws ! a)) = m # q" "sent = []"
        "ws' = cancelClient a (put_client a
           ((wss_heap ws ! a)\<lparr>cl_messages := (cl_messages (wss_heap ws ! a))\<lparr>ch_buf := q\<rparr>\<rparr>) ws)"
proof (cases w)
  case (WriteMessage ok)
  note c = clients_ok_heap [OF assms(1,2)]
  show ?thesis
  proof (cases "ch_buf (cl_messages (wss_heap ws ! a))")
    case Nil
    then show ?thesis using keep assms(3) c WriteMessage by (simp add: recv_def open_chan_def)
  next
    case (Cons m q)
    then show ?thesis
      using wrote [OF Cons] lost [OF Cons] assms(3) WriteMessage by (cases ok) (simp_all add: recv_def Let_def)
  qed
next
  case CtxDone
  then show ?thesis using cancel assms(3) by simp
next
  case (PingClient ok)
  then show ?thesis using keep cancel assms(3) by (cases ok) simp_all
qed

lemma popped_ok:
  assumes "clients_ok ws" "a < length (wss_heap ws)" "ch_buf (cl_messages (wss_heap ws ! a)) = m # q"
  shows "clients_ok (put_client a ((wss_heap ws ! a)\<lparr>cl_messages := (cl_messages (wss_heap ws ! a))\<lparr>ch_buf := q\<rparr>\<rparr>) ws)"
  using assms clients_ok_heap [OF assms(1,2)]
  by (intro put_client_ok) (auto simp: open_chan_def chan_ok_def)

lemma writeLoop_ok:
  assumes "clients_ok ws" "a < length (wss_heap ws)" "clientWriteLoop [w] a ws = (ws', sent)"
  shows "clients_ok ws'"
  using assms(1,2,3)
proof (cases rule: writeLoop_cases)
  case (lost m q)
  then show ?thesis using cancelClient_ok [OF popped_ok [OF assms(1,2) lost(1)]] assms(2) by simp
qed (simp_all add: assms cancelClient_ok popped_ok)

lemma feedStep_eq:
  assumes "clients_ok ws" "feed_view_ok f ws"
  shows "feedStep f (pending, ws) = (Val (),
    case f of
      FeedEvent e \<Rightarrow> (pending @ [e], ws)
    | FeedTick tv \<Rightarrow> ([], if pending \<noteq> [] \<and> encodable tv then broadcast_to (state_update tv) (ran (wss_clients ws)) ws else ws))"
  using assms by (cases f) (simp_all add: feedStep_def broadcastUpdates_eq)

lemma cancelLoop_ok: "clients_ok ws \<Longrightarrow> clients_ok (cancelLoop ks ws) \<and> wss_clients (cancelLoop ks ws) = wss_clients ws"
proof (induction ks arbitrary: ws)
  case (Cons k ks)
  then show ?case
    using cancelClient_ok [OF Cons.prems] clients_okD(1) [OF Cons.prems]
    by (auto simp: cancelClient_def split: option.split)
qed simp

lemma clients_ok_done [simp]: "clients_ok (ws\<lparr>wss_done := b\<rparr>) = clients_ok ws"
  by (simp add: clients_ok_def)

lemma shutServer_fields [simp]:
  "wss_heap (shutServer ws) = wss_heap ws" "wss_clients (shutServer ws) = wss_clients ws"
  "wss_cfg (shutServer ws) = wss_cfg ws" "wss_done (shutServer ws) = wss_done ws"
  "wss_nextID (shutServer ws) = wss_nextID ws" "clients_ok (shutServer ws) = clients_ok ws"
  by (simp_all add: shutServer_def clients_ok_def)

lemma ws_step_ok:
  assumes "ws_step s op s'" "clients_ok (sy_ws s)"
  shows "clients_ok (sy_ws s')"
  using assms
proof (induction rule: ws_step.induct)
  case (step_feed f s pending' ws')
  then show ?case
    by (auto simp: feedStep_eq broadcast_to_ok split: feed.splits)
next
  case (step_stop ks s ws')
  then show ?case using cancelLoop_ok by (auto simp: WebSocket_Stop_def split: if_splits)
qed (simp_all add: connectClient_ok readLoop_ok writeLoop_ok disconnectClient_ok)

interpretation clients: invariant "ws_bounded K" "\<lambda>s. clients_ok (sy_ws s)" for K
  by unfold_locales (use ws_step_ok in \<open>auto simp: ws_bounded_def\<close>)

lemmas ws_run_ok = clients.tinv_run

end
