(* ===== verification/Websocket_Theorems.thy ===== *)
theory Websocket_Theorems
  imports Websocket_Correct
begin

text \<open>The properties of the broadcaster.\<close>

section \<open>The start\<close>

lemma NewWebSocketServer_clients:
  assumes "NewWebSocketServer cfg hub = (Val ws, hub')"
  shows "clients_ok ws" "wss_clients ws = Map.empty" "wss_heap ws = []" "wss_cfg ws = cfg" "\<not> wss_done ws"
    "wss_mux ws = [''/ws'', ''/api/drones'', ''/api/health'', ''/api/drones/export'', ''/api/drones/'']"
  using assms
  by (auto simp: NewWebSocketServer_def act_bind_def act_then_def HandleFunc_eq registerExportHandlers_def
      clients_ok_def act_go_def split: prod.splits go.splits)

lemma started_ok: "NewWebSocketServer cfg hub = (Val ws, hub') \<Longrightarrow> clients_ok (sy_ws (ws_start ws))"
  by (simp add: ws_start_def NewWebSocketServer_clients)

definition sample_hub :: Hub where
  "sample_hub = NewHub (cfg_PubSub Default)"

definition sample_ws :: WebSocketServer where
  "sample_ws = \<lparr>wss_cfg = (cfg_WebSocket Default)\<lparr>wc_MaxClients := 1\<rparr>, wss_subscription = 0,
     wss_mux = [''/ws'', ''/api/drones'', ''/api/health'', ''/api/drones/export'', ''/api/drones/''],
     wss_heap = [], wss_clients = Map.empty, wss_nextID = 0, wss_done = False, wss_server = None\<rparr>"

lemma sample_ws_new:
  "\<exists>hub'. NewWebSocketServer ((cfg_WebSocket Default)\<lparr>wc_MaxClients := 1\<rparr>) sample_hub = (Val sample_ws, hub')"
  by (simp add: NewWebSocketServer_def Subscribe_def sample_hub_def NewHub_def Default_def make_chan_def act_simps
      act_bind_def act_then_def HandleFunc_eq registerExportHandlers_def sample_ws_def)

section \<open>What a broadcast does\<close>

text \<open>
  C12: whatever has happened before, a broadcast returns, and every connected client whose queue has
  room gets exactly one message more: the summaries of the drones its filter names, all of them
  without a filter, in the order and with the timestamp of the broadcast.  A client with a full
  queue and one that has left keep their queues; a registry with a number JSON cannot hold
  broadcasts nothing.
\<close>

theorem broadcast_exact:
  assumes "NewWebSocketServer cfg hub = (Val ws0, hub')" "ws_run K (ws_start ws0) ops s"
    and "known (tv_clients tv) (sy_ws s)" "a < length (wss_heap (sy_ws s))"
  defines "c \<equiv> wss_heap (sy_ws s) ! a" and "all \<equiv> GetAllSummaries (tv_drones tv) (tv_manager tv)"
  shows "\<exists>ws'. broadcastUpdates tv (sy_ws s) = (Val (), ws') \<and> wss_clients ws' = wss_clients (sy_ws s) \<and>
    ch_buf (cl_messages (wss_heap ws' ! a)) = ch_buf (cl_messages c) @
      (if list_all encodable_summary all \<and> a \<in> ran (wss_clients (sy_ws s)) \<and> length (ch_buf (cl_messages c)) < 64
       then [\<lparr>bm_Type = ''state_update'', bm_Timestamp = unix_milli (tv_now tv),
          bm_Drones = filter (\<lambda>d. cl_droneIDs c = {} \<or> sum_SystemID d \<in> cl_droneIDs c) all\<rparr>]
       else [])"
proof -
  have ok: "clients_ok (sy_ws s)" using ws_run_ok [OF assms(2) started_ok [OF assms(1)]] .
  have m: "message_for (state_update tv) c = \<lparr>bm_Type = ''state_update'', bm_Timestamp = unix_milli (tv_now tv),
      bm_Drones = filter (\<lambda>d. cl_droneIDs c = {} \<or> sum_SystemID d \<in> cl_droneIDs c) all\<rparr>"
    unfolding message_for_def state_update_def all_def
    by (simp add: matchesDrone_iff)
  have e: "encodable tv \<longleftrightarrow> list_all encodable_summary all" by (simp add: encodable_def state_update_def all_def)
  have "ch_cap (cl_messages c) = 64" using clients_ok_heap [OF ok assms(4)] by (simp add: c_def)
  then have served: "ch_buf (cl_messages (served (state_update tv) c)) = ch_buf (cl_messages c) @
      (if length (ch_buf (cl_messages c)) < 64 then [message_for (state_update tv) c] else [])"
    by (simp add: served_def)
  show ?thesis
    unfolding broadcastUpdates_eq [OF ok assms(3)] e
    using served assms(4) by (auto simp: broadcast_to_heap c_def [symmetric] m)
qed

lemma sample_connected:
  "ws_run 1 (ws_start sample_ws) [OpRequest [], OpHandshake True]
     (ws_start (snd (connectClient sample_ws)))"
proof -
  have "ws_step (ws_start sample_ws) (OpRequest []) ((ws_start sample_ws)\<lparr>sy_shaking := 1\<rparr>)"
    using step_request [of "[]" "ws_start sample_ws"] by (simp add: known_def ws_start_def sample_ws_def admits_def Default_def)
  from ws_snoc [OF run_nil this, of 1]
  have "ws_run 1 (ws_start sample_ws) [OpRequest []] ((ws_start sample_ws)\<lparr>sy_shaking := 1\<rparr>)" by simp
  moreover have "ws_step ((ws_start sample_ws)\<lparr>sy_shaking := 1\<rparr>) (OpHandshake True) (ws_start (snd (connectClient sample_ws)))"
    using step_handshake [of "(ws_start sample_ws)\<lparr>sy_shaking := 1\<rparr>" 0 True] by (simp add: ws_start_def)
  ultimately show ?thesis using ws_snoc by (fastforce simp: ws_start_def)
qed

definition sample_tick :: tick_view where
  "sample_tick = \<lparr>tv_now = 5000000, tv_manager = NewManager (cfg_Drone Default) None, tv_drones = [], tv_clients = [1]\<rparr>"

theorem broadcast_exact_witness:
  "\<exists>ws'. broadcastUpdates sample_tick (snd (connectClient sample_ws)) = (Val (), ws') \<and>
    ch_buf (cl_messages (wss_heap ws' ! 0)) = [\<lparr>bm_Type = ''state_update'', bm_Timestamp = 5, bm_Drones = []\<rparr>]"
proof -
  obtain hub' where new: "NewWebSocketServer ((cfg_WebSocket Default)\<lparr>wc_MaxClients := 1\<rparr>) sample_hub = (Val sample_ws, hub')"
    using sample_ws_new by blast
  show ?thesis
    using broadcast_exact [OF new sample_connected, of sample_tick 0]
    by (auto simp: ws_start_def known_def connectClient_def sample_ws_def sample_tick_def GetAllSummaries_def
        unix_milli_def ran_def)
qed

section \<open>The stream of a client\<close>

fun ticks :: "ws_op list \<Rightarrow> tick_view list" where
  "ticks [] = []"
| "ticks (OpFeed (FeedTick tv) # ops) = tv # ticks ops"
| "ticks (op # ops) = ticks ops"

lemma ticks_append [simp]: "ticks (xs @ ys) = ticks xs @ ticks ys"
  by (induction xs rule: ticks.induct) simp_all

text \<open>A message displays the registry of a tick through some filter.\<close>

definition displays :: "tick_view \<Rightarrow> BroadcastMessage \<Rightarrow> bool" where
  "displays tv m \<longleftrightarrow> bm_Timestamp m = unix_milli (tv_now tv) \<and>
     (\<exists>F. bm_Drones m = filter (\<lambda>d. F = {} \<or> sum_SystemID d \<in> F) (GetAllSummaries (tv_drones tv) (tv_manager tv)))"

lemma displays_message: "displays tv (message_for (state_update tv) c)"
  unfolding displays_def message_for_def state_update_def
  by (simp add: matchesDrone_iff) blast

definition in_order_of :: "tick_view list \<Rightarrow> BroadcastMessage list \<Rightarrow> bool" where
  "in_order_of tvs ms \<longleftrightarrow> (\<exists>tvs'. subseq tvs' tvs \<and> list_all2 displays tvs' ms)"

lemma in_order_of_more: "in_order_of tvs ms \<Longrightarrow> in_order_of (tvs @ us) ms"
  unfolding in_order_of_def by (metis append_Nil2 list_emb_Nil list_emb_append_mono)

lemma in_order_of_snoc: "in_order_of tvs ms \<Longrightarrow> displays tv m \<Longrightarrow> in_order_of (tvs @ [tv]) (ms @ [m])"
  unfolding in_order_of_def
  by (metis list_all2_Cons list_all2_Nil list_all2_appendI list_emb_append_mono subseq_order.order_refl)

lemma in_order_of_drop:
  assumes "in_order_of tvs (us @ m # vs)"
  shows "in_order_of tvs (us @ vs)"
proof -
  obtain tvs' where t: "subseq tvs' tvs" "list_all2 displays tvs' (us @ m # vs)" using assms by (auto simp: in_order_of_def)
  then obtain xs y ys where "tvs' = xs @ y # ys" "list_all2 displays xs us" "list_all2 displays ys vs"
    by (auto simp: list_all2_append2 list_all2_Cons2)
  moreover have "subseq (xs @ ys) (xs @ y # ys)"
    by (simp add: subseq_append_iff) (metis list_emb_Cons subseq_append' subseq_order.order_refl)
  ultimately show ?thesis
    using t unfolding in_order_of_def by (meson list_all2_appendI subseq_order.order_trans)
qed

definition received :: "ws_sys \<Rightarrow> nat \<Rightarrow> BroadcastMessage list" where
  "received s a = sy_written s a @
     (if a < length (wss_heap (sy_ws s)) then ch_buf (cl_messages (wss_heap (sy_ws s) ! a)) else [])"

definition streams_ok :: "tick_view list \<Rightarrow> ws_sys \<Rightarrow> bool" where
  "streams_ok tvs s \<longleftrightarrow> (\<forall>a. in_order_of tvs (received s a) \<and> (length (wss_heap (sy_ws s)) \<le> a \<longrightarrow> sy_written s a = []))"

lemma streams_same:
  assumes "streams_ok tvs s" "\<And>a. received s' a = received s a"
    and "\<And>a. length (wss_heap (sy_ws s')) \<le> a \<Longrightarrow> sy_written s' a = []"
  shows "streams_ok (tvs @ us) s'"
  using assms in_order_of_more unfolding streams_ok_def by metis

lemma streams_okI:
  assumes "streams_ok tvs s" "length (wss_heap (sy_ws s)) = length (wss_heap (sy_ws s'))"
    and "sy_written s' = sy_written s"
    and "\<And>a. a < length (wss_heap (sy_ws s)) \<Longrightarrow>
      ch_buf (cl_messages (wss_heap (sy_ws s') ! a)) = ch_buf (cl_messages (wss_heap (sy_ws s) ! a))"
  shows "streams_ok (tvs @ us) s'"
proof (rule streams_same [OF assms(1)])
  show "received s' a = received s a" for a using assms(2-4) by (simp add: received_def)
  show "length (wss_heap (sy_ws s')) \<le> a \<Longrightarrow> sy_written s' a = []" for a
    using assms(1-3) by (simp add: streams_ok_def)
qed

lemma cancelClient_buf [simp]:
  "length (wss_heap (cancelClient a ws)) = length (wss_heap ws)"
  "b < length (wss_heap ws) \<Longrightarrow> cl_messages (wss_heap (cancelClient a ws) ! b) = cl_messages (wss_heap ws ! b)"
  by (cases "a = b"; simp add: cancelClient_def)+

lemma readLoop_buf:
  "a < length (wss_heap ws) \<Longrightarrow> length (wss_heap (clientReadLoop [r] a ws)) = length (wss_heap ws) \<and>
     (\<forall>b<length (wss_heap ws). cl_messages (wss_heap (clientReadLoop [r] a ws) ! b) = cl_messages (wss_heap ws ! b))"
  by (cases r) (auto simp: nth_list_update)

lemma cancelLoop_buf [simp]:
  "length (wss_heap (cancelLoop ks ws)) = length (wss_heap ws)"
  "b < length (wss_heap ws) \<Longrightarrow> cl_messages (wss_heap (cancelLoop ks ws) ! b) = cl_messages (wss_heap ws ! b)"
  by (induction ks arbitrary: ws) (auto split: option.split)

lemma streams_connect:
  assumes "streams_ok tvs s"
  shows "streams_ok tvs (s\<lparr>sy_shaking := n, sy_ws := snd (connectClient (sy_ws s))\<rparr>)"
proof -
  have "received (s\<lparr>sy_shaking := n, sy_ws := snd (connectClient (sy_ws s))\<rparr>) a = received s a" for a
    by (auto simp: received_def connectClient_def Let_def nth_append)
  then show ?thesis
    using streams_same [OF assms, of "s\<lparr>sy_shaking := n, sy_ws := snd (connectClient (sy_ws s))\<rparr>" "[]"] assms
    by (simp add: connectClient_def Let_def streams_ok_def)
qed

lemma streams_write:
  assumes "streams_ok tvs s" "clients_ok (sy_ws s)" "a < length (wss_heap (sy_ws s))"
    "clientWriteLoop [w] a (sy_ws s) = (ws', sent)"
  shows "streams_ok tvs (s\<lparr>sy_ws := ws', sy_written := (sy_written s)(a := sy_written s a @ sent)\<rparr>)"
  using assms(2,3,4)
proof (cases rule: writeLoop_cases)
  case keep
  then show ?thesis using assms(1) by (simp add: streams_ok_def received_def)
next
  case cancel
  then show ?thesis using streams_okI [OF assms(1), of "s\<lparr>sy_ws := cancelClient a (sy_ws s)\<rparr>" "[]"] by simp
next
  case (wrote m q)
  let ?s = "s\<lparr>sy_ws := ws', sy_written := (sy_written s)(a := sy_written s a @ sent)\<rparr>"
  have "received ?s b = received s b" for b using assms(3) wrote by (auto simp: received_def nth_list_update)
  moreover have "length (wss_heap (sy_ws ?s)) \<le> b \<Longrightarrow> sy_written ?s b = []" for b
    using assms(1,3) wrote(3) by (simp add: streams_ok_def)
  ultimately show ?thesis using streams_same [OF assms(1), of ?s "[]"] by simp
next
  case (lost m q)
  have "in_order_of tvs (received s a)" using assms(1) by (simp add: streams_ok_def)
  then have "in_order_of tvs (sy_written s a @ m # q)" using assms(3) lost(1) by (simp add: received_def)
  then have "in_order_of tvs (sy_written s a @ q)" by (rule in_order_of_drop)
  moreover let ?s = "s\<lparr>sy_ws := ws', sy_written := (sy_written s)(a := sy_written s a @ sent)\<rparr>"
  have "received ?s b = (if b = a then sy_written s a @ q else received s b)" for b
    using assms(3) lost by (auto simp: received_def nth_list_update)
  ultimately have "in_order_of tvs (received ?s b)" for b using assms(1) by (auto simp: streams_ok_def)
  then show ?thesis using assms(1,3) lost(2,3) by (simp add: streams_ok_def)
qed

lemma streams_broadcast:
  assumes "streams_ok tvs s"
  shows "streams_ok (tvs @ [tv]) (s\<lparr>sy_pending := p, sy_ws := broadcast_to (state_update tv) as (sy_ws s)\<rparr>)"
    (is "streams_ok _ ?s")
proof -
  have "in_order_of (tvs @ [tv]) (received ?s a)" for a
  proof (cases "received ?s a = received s a")
    case True
    then show ?thesis using assms in_order_of_more by (auto simp: streams_ok_def)
  next
    case False
    then have "received ?s a = received s a @ [message_for (state_update tv) (wss_heap (sy_ws s) ! a)]"
      by (auto simp: received_def broadcast_to_heap served_def split: if_splits)
    then show ?thesis using assms in_order_of_snoc [OF _ displays_message] by (auto simp: streams_ok_def)
  qed
  then show ?thesis using assms by (simp add: streams_ok_def)
qed

lemma streams_step:
  assumes "ws_step s op s'" "clients_ok (sy_ws s)" "streams_ok tvs s"
  shows "streams_ok (tvs @ ticks [op]) s'"
  using assms
proof (induction rule: ws_step.induct)
  case (step_request ks s)
  then show ?case by (intro streams_okI [of tvs s]) simp_all
next
  case (step_handshake s n ok)
  then show ?case using streams_connect [of tvs s n] streams_okI [of tvs s "s\<lparr>sy_shaking := n\<rparr>" "[]"] by (cases ok) simp_all
next
  case (step_read a s r)
  then show ?case using readLoop_buf [of a "sy_ws s" r] by (intro streams_okI [of tvs s]) simp_all
next
  case (step_write a s w ws' sent)
  then show ?case using streams_write by simp
next
  case (step_feed f s pending' ws')
  have eq: "(pending', ws') = (case f of FeedEvent e \<Rightarrow> (sy_pending s @ [e], sy_ws s)
      | FeedTick tv \<Rightarrow> ([], if sy_pending s \<noteq> [] \<and> encodable tv
          then broadcast_to (state_update tv) (ran (wss_clients (sy_ws s))) (sy_ws s) else sy_ws s))"
    using step_feed by (simp add: feedStep_eq)
  show ?case
  proof (cases "ws' = sy_ws s")
    case True
    then show ?thesis using step_feed.prems by (intro streams_okI [of tvs s]) simp_all
  next
    case False
    then obtain tv where "f = FeedTick tv" "ws' = broadcast_to (state_update tv) (ran (wss_clients (sy_ws s))) (sy_ws s)"
      using eq by (auto split: feed.splits if_splits)
    then show ?thesis using streams_broadcast step_feed.prems by simp
  qed
next
  case (step_leave a s)
  then show ?case by (intro streams_okI [of tvs s]) (simp_all add: disconnectClient_def)
next
  case (step_stop ks s ws')
  then show ?case by (intro streams_okI [of tvs s]) (auto simp: WebSocket_Stop_def split: if_splits)
qed

interpretation streams: tracked "ws_bounded K" "\<lambda>ops s. clients_ok (sy_ws s) \<and> streams_ok (ticks ops) s" for K
  by unfold_locales (use ws_step_ok streams_step in \<open>auto simp: ws_bounded_def\<close>)

text \<open>
  C7: over every interleaving of broadcasts, subscriptions, connections and writes, what a client
  has been sent, followed by what is queued for it, displays some of the ticks, in their order and
  none twice: no message is made up, repeated or overtaken by a later one.
\<close>

theorem client_stream:
  assumes "NewWebSocketServer cfg hub = (Val ws0, hub')" "ws_run K (ws_start ws0) ops s"
    and "a < length (wss_heap (sy_ws s))"
  shows "\<exists>tvs. subseq tvs (ticks ops) \<and>
    list_all2 displays tvs (sy_written s a @ ch_buf (cl_messages (wss_heap (sy_ws s) ! a)))"
proof -
  have "streams_ok [] (ws_start ws0)"
    using NewWebSocketServer_clients(3) [OF assms(1)]
    by (simp add: streams_ok_def received_def ws_start_def in_order_of_def)
  then have "in_order_of (ticks ops) (received s a)"
    using streams.tinv_run [OF assms(2)] started_ok [OF assms(1)] by (simp add: streams_ok_def)
  then show ?thesis using assms(3) by (simp add: in_order_of_def received_def)
qed

theorem client_stream_witness:
  "\<exists>tvs. subseq tvs (ticks [OpRequest [], OpHandshake True]) \<and>
    list_all2 displays tvs (ch_buf (cl_messages (wss_heap (snd (connectClient sample_ws)) ! 0)))"
proof -
  obtain hub' where new: "NewWebSocketServer ((cfg_WebSocket Default)\<lparr>wc_MaxClients := 1\<rparr>) sample_hub = (Val sample_ws, hub')"
    using sample_ws_new by blast
  show ?thesis
    using client_stream [OF new sample_connected, of 0]
    by (simp add: ws_start_def connectClient_def sample_ws_def)
qed

section \<open>The limit on clients\<close>

lemma dom_finite: "known ks ws \<Longrightarrow> finite (dom (wss_clients ws)) \<and> card (dom (wss_clients ws)) = length ks"
  unfolding known_def by (metis List.finite_set distinct_card)

definition below_limit :: "nat \<Rightarrow> ws_sys \<Rightarrow> bool" where
  "below_limit K s \<longleftrightarrow> finite (dom (wss_clients (sy_ws s))) \<and>
     int (card (dom (wss_clients (sy_ws s)))) + int (sy_shaking s) \<le> wc_MaxClients (wss_cfg (sy_ws s)) + int K - 1"

lemma same_map_below:
  assumes "below_limit K s" "wss_clients (sy_ws s') = wss_clients (sy_ws s)" "wss_cfg (sy_ws s') = wss_cfg (sy_ws s)"
    and "sy_shaking s' \<le> sy_shaking s"
  shows "below_limit K s'"
  using assms by (simp add: below_limit_def)

lemma cancelClient_map [simp]: "wss_clients (cancelClient a ws) = wss_clients ws" "wss_cfg (cancelClient a ws) = wss_cfg ws"
  by (simp_all add: cancelClient_def)

lemma readLoop_map: "wss_clients (clientReadLoop [r] a ws) = wss_clients ws \<and> wss_cfg (clientReadLoop [r] a ws) = wss_cfg ws"
  by (cases r) simp_all

lemma writeLoop_map:
  assumes "clients_ok ws" "a < length (wss_heap ws)" "clientWriteLoop [w] a ws = (ws', sent)"
  shows "wss_clients ws' = wss_clients ws \<and> wss_cfg ws' = wss_cfg ws"
  using assms(1,2,3) by (cases rule: writeLoop_cases) simp_all

lemma cancelLoop_map [simp]: "wss_clients (cancelLoop ks ws) = wss_clients ws" "wss_cfg (cancelLoop ks ws) = wss_cfg ws"
  by (induction ks arbitrary: ws) (auto split: option.split)

lemma below_step:
  assumes "ws_step s op s'" "clients_ok (sy_ws s)" "below_limit K s" "sy_shaking s' \<le> K"
    and "0 < wc_MaxClients (wss_cfg (sy_ws s))"
  shows "below_limit K s' \<and> wss_cfg (sy_ws s') = wss_cfg (sy_ws s)"
  using assms
proof (induction rule: ws_step.induct)
  case (step_request ks s)
  then show ?case using dom_finite [of ks "sy_ws s"] by (auto simp: below_limit_def admits_def)
next
  case (step_handshake s n ok)
  then show ?case by (auto simp: below_limit_def connectClient_def Let_def card_insert_if)
next
  case (step_read a s r)
  then show ?case using readLoop_map [of r a "sy_ws s"] by (simp add: below_limit_def)
next
  case (step_write a s w ws' sent)
  then show ?case using writeLoop_map [OF step_write(3) step_write(1,2)] by (simp add: below_limit_def)
next
  case (step_feed f s pending' ws')
  then have "wss_clients ws' = wss_clients (sy_ws s) \<and> wss_cfg ws' = wss_cfg (sy_ws s)"
    by (auto simp: feedStep_eq split: feed.splits if_splits)
  then show ?case using step_feed.prems by (simp add: below_limit_def)
next
  case (step_leave a s)
  then show ?case by (auto simp: below_limit_def disconnectClient_def card_Diff_singleton_if)
next
  case (step_stop ks s ws')
  then have "wss_clients ws' = wss_clients (sy_ws s) \<and> wss_cfg ws' = wss_cfg (sy_ws s)"
    by (auto simp: WebSocket_Stop_def split: if_splits)
  then show ?case using step_stop.prems by (simp add: below_limit_def)
qed

interpretation limit: invariant "ws_bounded K"
  "\<lambda>s. clients_ok (sy_ws s) \<and> below_limit K s \<and> wss_cfg (sy_ws s) = cfg \<and> 0 < wc_MaxClients cfg" for K cfg
  by unfold_locales (use ws_step_ok below_step in \<open>auto simp: ws_bounded_def\<close>)

text \<open>
  C30: the limit on clients holds up to the hand-shakes that overlap: with at most \<open>K\<close> requests between
  the check and the end of their hand-shake, never more than \<open>MaxClients + K - 1\<close> clients are connected.
\<close>

theorem client_limit:
  assumes "NewWebSocketServer cfg hub = (Val ws0, hub')" "ws_run K (ws_start ws0) ops s"
    and "0 < wc_MaxClients cfg" "0 < K"
  shows "int (card (dom (wss_clients (sy_ws s)))) \<le> wc_MaxClients cfg + int K - 1"
proof -
  note new = NewWebSocketServer_clients [OF assms(1)]
  have "below_limit K (ws_start ws0)" using assms(3,4) by (simp add: below_limit_def ws_start_def new)
  then have "below_limit K s \<and> wss_cfg (sy_ws s) = cfg"
    using limit.tinv_run [OF assms(2)] started_ok [OF assms(1)] assms(3) by (simp add: ws_start_def new)
  then show ?thesis by (auto simp: below_limit_def)
qed

theorem client_limit_witness:
  "card (dom (wss_clients (snd (connectClient sample_ws)))) \<le> 1"
proof -
  obtain hub' where new: "NewWebSocketServer ((cfg_WebSocket Default)\<lparr>wc_MaxClients := 1\<rparr>) sample_hub = (Val sample_ws, hub')"
    using sample_ws_new by blast
  show ?thesis using client_limit [OF new sample_connected] by (simp add: ws_start_def)
qed

text \<open>The bound is reached: the check and the insertion are not one step, so two requests pass a limit of one.\<close>

lemma client_limit_race:
  "\<exists>s. ws_run 2 (ws_start sample_ws) [OpRequest [], OpRequest [], OpHandshake True, OpHandshake True] s \<and>
     card (dom (wss_clients (sy_ws s))) = 2"
proof -
  have known: "known [] sample_ws" "admits [] sample_ws" by (simp_all add: known_def sample_ws_def admits_def Default_def)
  let ?s1 = "(ws_start sample_ws)\<lparr>sy_shaking := 1\<rparr>" and ?s2 = "(ws_start sample_ws)\<lparr>sy_shaking := 2\<rparr>"
  let ?s3 = "(ws_start (snd (connectClient sample_ws)))\<lparr>sy_shaking := 1\<rparr>"
  let ?s4 = "ws_start (snd (connectClient (snd (connectClient sample_ws))))"
  have st: "ws_step (ws_start sample_ws) (OpRequest []) ?s1" "ws_step ?s1 (OpRequest []) ?s2"
    "ws_step ?s2 (OpHandshake True) ?s3" "ws_step ?s3 (OpHandshake True) ?s4"
    using known step_request [of "[]" "ws_start sample_ws"] step_request [of "[]" ?s1]
      step_handshake [of ?s2 1 True] step_handshake [of ?s3 0 True]
    by (simp_all add: ws_start_def numeral_2_eq_2)
  have "ws_run 2 (ws_start sample_ws) [OpRequest []] ?s1" using ws_snoc [OF run_nil st(1), of 2] by simp
  from ws_snoc [OF this st(2)] have "ws_run 2 (ws_start sample_ws) [OpRequest [], OpRequest []] ?s2" by simp
  from ws_snoc [OF this st(3)]
  have "ws_run 2 (ws_start sample_ws) [OpRequest [], OpRequest [], OpHandshake True] ?s3" by simp
  from ws_snoc [OF this st(4)]
  have "ws_run 2 (ws_start sample_ws) [OpRequest [], OpRequest [], OpHandshake True, OpHandshake True] ?s4"
    by (simp add: ws_start_def)
  then show ?thesis by (intro exI [of _ ?s4]) (simp add: ws_start_def connectClient_def sample_ws_def Let_def)
qed

section \<open>Shutdown\<close>

lemma cancelLoop_done [simp]: "wss_done (cancelLoop ks ws) = wss_done ws"
  by (induction ks arbitrary: ws) (auto simp: cancelClient_def split: option.split)

lemma cancelLoop_cancels:
  "a < length (wss_heap ws) \<Longrightarrow> cl_cancelled (wss_heap (cancelLoop ks ws) ! a) \<longleftrightarrow>
     cl_cancelled (wss_heap ws ! a) \<or> a \<in> reached ks ws"
proof (induction ks arbitrary: ws)
  case (Cons k ks)
  show ?case
  proof (cases "wss_clients ws k")
    case None
    then show ?thesis using Cons by (simp add: reached_def)
  next
    case (Some b)
    have "cl_cancelled (wss_heap (cancelClient b ws) ! a) \<longleftrightarrow> cl_cancelled (wss_heap ws ! a) \<or> a = b"
      using Cons.prems by (cases "a = b") (simp_all add: cancelClient_def)
    then show ?thesis using Cons.IH [of "cancelClient b ws"] Cons.prems Some by (auto simp: reached_def)
  qed
qed (simp add: reached_def)

text \<open>
  A stop cancels every connected client and no other; a second one panics, on the closed channel,
  whatever happened in between.
\<close>

theorem stop_once:
  assumes "NewWebSocketServer cfg hub = (Val ws0, hub')" "ws_run K (ws_start ws0) ops s"
    and "known ks (sy_ws s)" "\<not> wss_done (sy_ws s)"
  shows "\<exists>ws'. WebSocket_Stop ks (sy_ws s) = (Val (), ws') \<and> wss_clients ws' = wss_clients (sy_ws s) \<and>
    (\<forall>a<length (wss_heap ws'). cl_cancelled (wss_heap ws' ! a) \<longleftrightarrow>
       cl_cancelled (wss_heap (sy_ws s) ! a) \<or> a \<in> ran (wss_clients (sy_ws s))) \<and>
    (\<forall>ks'. WebSocket_Stop ks' ws' = (Panic CloseOfClosedChannel, ws'))"
proof -
  let ?ws = "(sy_ws s)\<lparr>wss_done := True\<rparr>"
  have "reached ks ?ws = ran (wss_clients (sy_ws s))" using assms(3) by (auto simp: reached_def known_def ran_def dom_def)
  then show ?thesis
    using assms(4) cancelLoop_cancels [of _ ?ws ks] by (simp add: WebSocket_Stop_def)
qed

theorem stop_once_witness:
  "\<exists>ws'. WebSocket_Stop [1] (snd (connectClient sample_ws)) = (Val (), ws') \<and>
     cl_cancelled (wss_heap ws' ! 0) \<and> WebSocket_Stop [] ws' = (Panic CloseOfClosedChannel, ws')"
proof -
  obtain hub' where new: "NewWebSocketServer ((cfg_WebSocket Default)\<lparr>wc_MaxClients := 1\<rparr>) sample_hub = (Val sample_ws, hub')"
    using sample_ws_new by blast
  show ?thesis
    using stop_once [OF new sample_connected, of "[1]"]
    by (auto simp: ws_start_def known_def connectClient_def sample_ws_def WebSocket_Stop_def cancelClient_def)
qed

section \<open>The broadcast loop returns\<close>

lemma runBroadcastLoop_shorter:
  "0 < wc_BroadcastInterval (wss_cfg ws) \<Longrightarrow> runBroadcastLoop sels ws = (True, sels', ws') \<Longrightarrow> length sels' < length sels"
  by (auto simp: runBroadcastLoop_def dest: innerLoop_shorter split: prod.splits)

lemma spins: "ws_broadcastLoop sels ws = Some ws' \<Longrightarrow> 0 < wc_BroadcastInterval (wss_cfg ws)"
  by (erule ws_broadcastLoop.raw_induct [rotated])
    (auto simp: runBroadcastLoop_def split: prod.splits if_splits)

lemma keeps_then:
  "f (snd (m s)) = f s \<Longrightarrow> (\<And>s. f (snd (k s)) = f s) \<Longrightarrow> f (snd (act_then m k s)) = f s"
  by (auto simp: act_then_def act_bind_def split: prod.split go.split)

lemma offerMessage_cfg: "wss_cfg (snd (offerMessage msg a ws)) = wss_cfg ws"
  by (simp add: offerMessage_def Let_def split: go.split prod.split)

lemma clientsLoop_cfg: "wss_cfg (snd (clientsLoop msg full ks ws)) = wss_cfg ws"
  by (induction ks arbitrary: ws) (auto simp: Let_def keeps_then offerMessage_cfg split: option.split)

lemma feedStep_cfg: "wss_cfg (snd (snd (feedStep f (pending, ws)))) = wss_cfg ws"
proof -
  have "wss_cfg (snd (broadcastUpdates tv ws)) = wss_cfg ws" for tv
    by (simp add: broadcastUpdates_def clientsLoop_cfg Let_def split: option.split)
  then show ?thesis by (auto simp: feedStep_def split: feed.split prod.split go.split) (metis snd_conv)+
qed

lemma innerLoop_cfg: "innerLoop feedStep sels s = (p, sels', s') \<Longrightarrow> wss_cfg (snd s') = wss_cfg (snd s)"
proof (induction feedStep sels s arbitrary: p sels' s' rule: innerLoop.induct)
  case (4 x sels s)
  have "wss_cfg (snd (snd (feedStep x s))) = wss_cfg (snd s)" using feedStep_cfg [of x "fst s" "snd s"] by simp
  then show ?case using 4 by (auto split: prod.splits go.splits)
qed auto

text \<open>
  The broadcast goroutine comes to an end, whatever it is fed, exactly when the configured
  interval is positive; otherwise the ticker panics, the panic is recovered, and the loop starts
  again for ever without ever looking at the shutdown.
\<close>

theorem broadcast_loop_returns:
  "ws_broadcastLoop sels ws \<noteq> None \<longleftrightarrow> 0 < wc_BroadcastInterval (wss_cfg ws)"
proof
  show "ws_broadcastLoop sels ws \<noteq> None \<Longrightarrow> 0 < wc_BroadcastInterval (wss_cfg ws)" using spins by blast
next
  assume "0 < wc_BroadcastInterval (wss_cfg ws)"
  then show "ws_broadcastLoop sels ws \<noteq> None"
  proof (induction "length sels" arbitrary: sels ws rule: less_induct)
    case less
    obtain p sels' ws' where r: "runBroadcastLoop sels ws = (p, sels', ws')" by (cases "runBroadcastLoop sels ws")
    then have "wss_cfg ws' = wss_cfg ws"
      using innerLoop_cfg by (fastforce simp: runBroadcastLoop_def split: prod.splits if_splits)
    then show ?case
      using less runBroadcastLoop_shorter [OF less.prems] r by (subst ws_broadcastLoop.simps) auto
  qed
qed

end
