(* ===== verification/Text_Format.thy ===== *)
theory Text_Format
  imports Netmask Float64
begin

text \<open>
  The text conversions of the Go library the program prints and reads with: \<^verbatim>\<open>%d\<close> and
  \<^verbatim>\<open>strconv.Atoi\<close>, the fixed-point verbs \<^verbatim>\<open>%.nf\<close>, and the cutting of a string.  A Go string is a list
  of bytes; \<^verbatim>\<open>len\<close> and slicing count bytes.
\<close>

section \<open>Integers\<close>

definition digit_char :: "nat \<Rightarrow> char" where
  "digit_char d = char_of (48 + d)"

fun decimal :: "nat \<Rightarrow> string" where
  "decimal n = (if n < 10 then [digit_char n] else decimal (n div 10) @ [digit_char (n mod 10)])"

declare decimal.simps [simp del]

definition fmt_int :: "int \<Rightarrow> string" where
  "fmt_int i = (if i < 0 then CHR ''-'' # decimal (nat (- i)) else decimal (nat i))"

fun read_digits :: "nat \<Rightarrow> string \<Rightarrow> nat option" where
  "read_digits n [] = Some n"
| "read_digits n (c # cs) =
    (case digit c of None \<Rightarrow> None | Some d \<Rightarrow> read_digits (n * 10 + d) cs)"

text \<open>\<^verbatim>\<open>strconv.Atoi\<close>: an optional sign and at least one digit, within the range of \<^verbatim>\<open>int\<close>.\<close>

definition Atoi :: "string \<Rightarrow> int option" where
  "Atoi s =
    (let signed = s \<noteq> [] \<and> (hd s = CHR ''-'' \<or> hd s = CHR ''+'');
         negative = signed \<and> hd s = CHR ''-'';
         digits = (if signed then tl s else s)
     in if digits = [] then None
        else
          (case read_digits 0 digits of
             None \<Rightarrow> None
           | Some n \<Rightarrow>
               if negative then (if n \<le> 2 ^ 63 then Some (- int n) else None)
               else (if n < 2 ^ 63 then Some (int n) else None)))"

lemma digit_digit_char [simp]: "d < 10 \<Longrightarrow> digit (digit_char d) = Some d"
  by (simp add: digit_def digit_char_def Let_def)

lemma read_digits_append: "read_digits n (s @ t) = (case read_digits n s of None \<Rightarrow> None | Some m \<Rightarrow> read_digits m t)"
  by (induction n s rule: read_digits.induct) (simp_all split: option.split)

lemma read_decimal: "read_digits 0 (decimal n) = Some n"
proof (induction n rule: decimal.induct)
  case (1 n)
  then show ?case by (subst decimal.simps) (simp add: read_digits_append)
qed

lemma decimal_not_nil [simp]: "decimal n \<noteq> []"
  by (subst decimal.simps) simp

lemma hd_decimal_digit: "\<exists>d<10. hd (decimal n) = digit_char d"
proof (induction n rule: decimal.induct)
  case (1 n)
  then show ?case by (subst decimal.simps) auto
qed

lemma digit_char_not_sign: "d < 10 \<Longrightarrow> digit_char d \<noteq> CHR ''-'' \<and> digit_char d \<noteq> CHR ''+''"
  using digit_digit_char [of d] by (auto simp: digit_def simp del: digit_digit_char)

lemma hd_decimal: "hd (decimal n) \<noteq> CHR ''-''" "hd (decimal n) \<noteq> CHR ''+''"
  using hd_decimal_digit [of n] digit_char_not_sign by metis+

text \<open>Reading back what was printed.\<close>

lemma Atoi_fmt_int:
  assumes "- (2 ^ 63) \<le> i" "i < 2 ^ 63"
  shows "Atoi (fmt_int i) = Some i"
proof (cases "i < 0")
  case True
  then have "nat (- i) \<le> 2 ^ 63" using assms(1) by (simp add: nat_le_iff)
  then show ?thesis using True by (simp add: Atoi_def fmt_int_def read_decimal)
next
  case False
  then have "nat i < 2 ^ 63" using assms(2) by (simp add: nat_less_iff)
  then show ?thesis using False hd_decimal by (simp add: Atoi_def fmt_int_def read_decimal)
qed

lemma set_decimal: "set (decimal n) \<subseteq> digit_char ` {..<10}"
proof (induction n rule: decimal.induct)
  case (1 n)
  then show ?case by (subst decimal.simps) auto
qed

lemma digit_char_not_slash: "d < 10 \<Longrightarrow> digit_char d \<noteq> CHR ''/''"
  using digit_digit_char [of d] by (auto simp: digit_def simp del: digit_digit_char)

lemma decimal_no_slash: "CHR ''/'' \<notin> set (decimal n)"
  using set_decimal [of n] digit_char_not_slash by fastforce

section \<open>Fixed-point numbers\<close>

definition pad_zeros :: "nat \<Rightarrow> string \<Rightarrow> string" where
  "pad_zeros n s = replicate (n - length s) (CHR ''0'') @ s"

text \<open>
  \<^verbatim>\<open>%.nf\<close>: the exact value rounded to \<open>n\<close> decimals, ties to even; a negative value that rounds to
  zero keeps its sign.
\<close>

definition fixed_digits :: "nat \<Rightarrow> rat \<Rightarrow> string" where
  "fixed_digits n q =
    (let m = nat (round_even (q * 10 ^ n)); frac = pad_zeros n (decimal (m mod 10 ^ n)) in
     decimal (m div 10 ^ n) @ (if n = 0 then [] else CHR ''.'' # frac))"

definition fmt_fixed :: "nat \<Rightarrow> f64 \<Rightarrow> string" where
  "fmt_fixed n x =
    (case x of
       NaN \<Rightarrow> ''NaN''
     | PInf \<Rightarrow> ''+Inf''
     | NInf \<Rightarrow> ''-Inf''
     | NZero \<Rightarrow> CHR ''-'' # fixed_digits n 0
     | Fin q \<Rightarrow> if q < 0 then CHR ''-'' # fixed_digits n (- q) else fixed_digits n q)"

section \<open>Cutting strings\<close>

text \<open>\<^verbatim>\<open>strings.TrimPrefix\<close>\<close>

definition trim_prefix :: "string \<Rightarrow> string \<Rightarrow> string" where
  "trim_prefix p s = (if take (length p) s = p then drop (length p) s else s)"

lemma trim_prefix_append [simp]: "trim_prefix p (p @ s) = s"
  by (simp add: trim_prefix_def)

lemma split_at_not_nil [simp]: "split_at c s \<noteq> []"
  by (induction s) (auto split: list.split)

lemma split_at_none: "c \<notin> set s \<Longrightarrow> split_at c s = [s]"
  by (induction s) auto

lemma split_at_part: "c \<notin> set s \<Longrightarrow> split_at c (s @ c # t) = s # split_at c t"
  by (induction s) (auto split: list.split)

end
