(* ===== verification/Export.thy ===== *)
theory Export
  imports Drone Text_Format
begin

text \<open>
  \<^verbatim>\<open>internal/broadcast/export.go\<close>: the routes below \<^verbatim>\<open>/api/drones/\<close> and the GeoJSON and KML exports.  A
  response is its status, the headers the handler sets, and the value it hands to the encoder of
  JSON or XML, or the text of \<^verbatim>\<open>http.Error\<close>.  The path is the one the URL decodes to, a query the
  first value of its parameter; the zone of \<^verbatim>\<open>time.Format\<close> is that of the machine, so the printed
  time is an argument.
\<close>

section \<open>GeoJSON\<close>

datatype prop_value =
    PropUint8 uint8
  | PropInt8 int8
  | PropInt64 int
  | PropBool bool
  | PropFloat f64
  | PropString string

record geoJSONGeometry =
  gg_Type :: string
  gg_Coordinates :: "f64 list"

text \<open>A \<^verbatim>\<open>map[string]any\<close> is the list of its entries; the encoder sorts the keys.\<close>

record geoJSONFeature =
  gf_Type :: string
  gf_Geometry :: geoJSONGeometry
  gf_Properties :: "(string \<times> prop_value) list"

record geoJSONCollection =
  gc_Type :: string
  gc_Features :: "geoJSONFeature list"

definition geo_props :: "Summary \<Rightarrow> (string \<times> prop_value) list" where
  "geo_props s =
    (let props = [(''system_id'', PropUint8 (sum_SystemID s)), (''connected'', PropBool (sum_IsConnected s)),
           (''armed'', PropBool (sum_IsArmed s)), (''flight_mode'', PropString (sum_FlightMode s))];
         props = (case sum_Heading s of None \<Rightarrow> props | Some h \<Rightarrow> props @ [(''heading'', PropFloat h)]);
         props = (case sum_BatteryPercent s of None \<Rightarrow> props | Some b \<Rightarrow> props @ [(''battery_pct'', PropInt8 b)])
     in if sum_VehicleType s \<noteq> [] then props @ [(''vehicle_type'', PropString (sum_VehicleType s))] else props)"

definition geo_feature :: "Summary \<Rightarrow> f64 \<Rightarrow> f64 \<Rightarrow> geoJSONFeature" where
  "geo_feature s lat lon =
    (let coords = [lon, lat];
         coords = (case sum_Altitude s of None \<Rightarrow> coords | Some alt \<Rightarrow> coords @ [alt])
     in \<lparr>gf_Type = ''Feature'', gf_Geometry = \<lparr>gg_Type = ''Point'', gg_Coordinates = coords\<rparr>,
         gf_Properties = geo_props s\<rparr>)"

fun geoLoop :: "Summary list \<Rightarrow> geoJSONFeature list" where
  "geoLoop [] = []"
| "geoLoop (s # ss) =
    (case (sum_Latitude s, sum_Longitude s) of
       (Some lat, Some lon) \<Rightarrow> geo_feature s lat lon # geoLoop ss
     | _ \<Rightarrow> geoLoop ss)"

definition writeGeoJSON :: "Summary list \<Rightarrow> geoJSONCollection" where
  "writeGeoJSON summaries = \<lparr>gc_Type = ''FeatureCollection'', gc_Features = geoLoop summaries\<rparr>"

definition trajectory_feature :: "uint8 \<Rightarrow> HistoryEntry \<Rightarrow> geoJSONFeature" where
  "trajectory_feature systemID e =
    \<lparr>gf_Type = ''Feature'', gf_Geometry = \<lparr>gg_Type = ''Point'', gg_Coordinates = [he_Lon e, he_Lat e, he_Alt e]\<rparr>,
     gf_Properties = [(''system_id'', PropUint8 systemID), (''timestamp'', PropInt64 (unix_milli (he_Timestamp e))),
       (''heading'', PropFloat (he_Heading e)), (''battery_pct'', PropInt8 (he_Battery e)),
       (''armed'', PropBool (he_Armed e)), (''flight_mode'', PropString (he_Mode e))]\<rparr>"

definition writeTrajectoryGeoJSON :: "uint8 \<Rightarrow> HistoryEntry list \<Rightarrow> geoJSONCollection" where
  "writeTrajectoryGeoJSON systemID entries =
    \<lparr>gc_Type = ''FeatureCollection'', gc_Features = map (trajectory_feature systemID) entries\<rparr>"

section \<open>KML\<close>

record kmlPlacemark =
  kp_Name :: string
  kp_Description :: string
  kp_Coordinates :: string

record kmlDoc =
  kd_XMLNS :: string
  kd_Name :: string
  kd_Placemarks :: "kmlPlacemark list"

definition fmt_bool :: "bool \<Rightarrow> string" where
  "fmt_bool b = (if b then ''true'' else ''false'')"

definition kml_coordinates :: "f64 \<Rightarrow> f64 \<Rightarrow> f64 \<Rightarrow> string" where
  "kml_coordinates lon lat alt = fmt_fixed 7 lon @ '','' @ fmt_fixed 7 lat @ '','' @ fmt_fixed 1 alt"

definition kml_description :: "Summary \<Rightarrow> string" where
  "kml_description s =
    (let desc = ''Connected: '' @ fmt_bool (sum_IsConnected s) @ '', Armed: '' @ fmt_bool (sum_IsArmed s) @
           '', Mode: '' @ sum_FlightMode s
     in case sum_BatteryPercent s of
          None \<Rightarrow> desc
        | Some b \<Rightarrow> desc @ '', Battery: '' @ fmt_int (sint b) @ ''%'')"

fun kmlLoop :: "Summary list \<Rightarrow> kmlPlacemark list" where
  "kmlLoop [] = []"
| "kmlLoop (s # ss) =
    (case (sum_Latitude s, sum_Longitude s) of
       (Some lat, Some lon) \<Rightarrow>
         (let alt = (case sum_Altitude s of None \<Rightarrow> Fin 0 | Some alt \<Rightarrow> alt) in
          \<lparr>kp_Name = ''Drone '' @ fmt_int (uint (sum_SystemID s)), kp_Description = kml_description s,
           kp_Coordinates = kml_coordinates lon lat alt\<rparr> # kmlLoop ss)
     | _ \<Rightarrow> kmlLoop ss)"

definition writeKML :: "(instant \<Rightarrow> string) \<Rightarrow> instant \<Rightarrow> Summary list \<Rightarrow> kmlDoc" where
  "writeKML rfc3339 now summaries =
    \<lparr>kd_XMLNS = ''http://www.opengis.net/kml/2.2'', kd_Name = ''Active Drones - '' @ rfc3339 now,
     kd_Placemarks = kmlLoop summaries\<rparr>"

definition trajectory_placemark :: "(instant \<Rightarrow> string) \<Rightarrow> nat \<times> HistoryEntry \<Rightarrow> kmlPlacemark" where
  "trajectory_placemark rfc3339 ie =
    (case ie of (i, e) \<Rightarrow>
      \<lparr>kp_Name = ''Point '' @ fmt_int (int i + 1),
       kp_Description = ''Time: '' @ rfc3339 (he_Timestamp e) @ '', Alt: '' @ fmt_fixed 1 (he_Alt e) @
         ''m, Battery: '' @ fmt_int (sint (he_Battery e)) @ ''%'',
       kp_Coordinates = kml_coordinates (he_Lon e) (he_Lat e) (he_Alt e)\<rparr>)"

definition writeTrajectoryKML :: "(instant \<Rightarrow> string) \<Rightarrow> uint8 \<Rightarrow> HistoryEntry list \<Rightarrow> kmlDoc" where
  "writeTrajectoryKML rfc3339 systemID entries =
    \<lparr>kd_XMLNS = ''http://www.opengis.net/kml/2.2'',
     kd_Name = ''Drone '' @ fmt_int (uint systemID) @ '' Trajectory'',
     kd_Placemarks = map (trajectory_placemark rfc3339) (enumerate 0 entries)\<rparr>"

section \<open>Handlers\<close>

record history_response =
  hs_SystemID :: uint8
  hs_Count :: int
  hs_Entries :: "HistoryEntry list"

record stats_response =
  sr_SystemID :: uint8
  sr_Connected :: bool
  sr_MessageCount :: uint64
  sr_HistorySize :: int
  sr_UptimeMs :: int
  sr_Armed :: bool
  sr_FlightMode :: string

datatype http_body =
    ErrorText string
  | SummaryJSON Summary
  | HistoryJSON history_response
  | StatsJSON stats_response
  | GeoJSON geoJSONCollection
  | KML kmlDoc

record http_response =
  rs_Status :: nat
  rs_Headers :: "(string \<times> string) list"
  rs_Body :: http_body

definition http_error :: "string \<Rightarrow> nat \<Rightarrow> http_response" where
  "http_error msg status =
    \<lparr>rs_Status = status, rs_Headers = [(''Content-Type'', ''text/plain; charset=utf-8''),
       (''X-Content-Type-Options'', ''nosniff'')], rs_Body = ErrorText msg\<rparr>"

definition http_ok :: "(string \<times> string) list \<Rightarrow> http_body \<Rightarrow> http_response" where
  "http_ok headers body = \<lparr>rs_Status = 200, rs_Headers = headers, rs_Body = body\<rparr>"

text \<open>A request: method, path, and the two query parameters the handlers look at.\<close>

record http_request =
  rq_Method :: string
  rq_Path :: string
  rq_Format :: string
  rq_Last :: string

text \<open>What a handler has beside the request: the printed times, the clock, the registry in some order.\<close>

record export_env =
  ee_rfc3339 :: "instant \<Rightarrow> string"
  ee_now :: instant
  ee_drones :: "DroneID list"
  ee_manager :: Manager

definition geo_type :: "string \<times> string" where
  "geo_type = (''Content-Type'', ''application/geo+json'')"

definition kml_type :: "string \<times> string" where
  "kml_type = (''Content-Type'', ''application/vnd.google-earth.kml+xml'')"

definition json_type :: "string \<times> string" where
  "json_type = (''Content-Type'', ''application/json'')"

definition handleExport :: "export_env \<Rightarrow> http_request \<Rightarrow> http_response" where
  "handleExport env r =
    (if rq_Method r \<noteq> ''GET'' then http_error ''Method not allowed'' 405
     else
       (let format = rq_Format r; summaries = GetAllSummaries (ee_drones env) (ee_manager env) in
        if format = ''kml'' then
          http_ok [kml_type, (''Content-Disposition'', ''attachment; filename=drones.kml'')]
            (KML (writeKML (ee_rfc3339 env) (ee_now env) summaries))
        else if format = ''geojson'' \<or> format = '''' then http_ok [geo_type] (GeoJSON (writeGeoJSON summaries))
        else http_error ''unsupported format: use geojson or kml'' 400))"

text \<open>The number of entries asked for: 100 unless a positive number is given, at most 1000.\<close>

definition last_of :: "string \<Rightarrow> int" where
  "last_of lastStr =
    (let last = 100;
         last = (if lastStr \<noteq> [] then
                   (case Atoi lastStr of Some n \<Rightarrow> if 0 < n then n else last | None \<Rightarrow> last)
                 else last)
     in if 1000 < last then 1000 else last)"

text \<open>\<^verbatim>\<open>GetHistory\<close> never returns an empty slice that is not nil.\<close>

definition handleHistory :: "export_env \<Rightarrow> http_request \<Rightarrow> uint8 \<Rightarrow> http_response go" where
  "handleHistory env r systemID =
    go_bind (GetHistory (ee_drones env) systemID (last_of (rq_Last r)) (ee_manager env)) (\<lambda>entries.
    Val (if entries = [] then http_error ''drone not found'' 404
         else http_ok [json_type] (HistoryJSON
           \<lparr>hs_SystemID = systemID, hs_Count = int (length entries), hs_Entries = entries\<rparr>)))"

definition handleHistoryExport :: "export_env \<Rightarrow> http_request \<Rightarrow> uint8 \<Rightarrow> http_response go" where
  "handleHistoryExport env r systemID =
    go_bind (GetHistory (ee_drones env) systemID 1000 (ee_manager env)) (\<lambda>entries.
    Val (if entries = [] then http_error ''drone not found'' 404
         else if rq_Format r = ''kml'' then
           http_ok [kml_type] (KML (writeTrajectoryKML (ee_rfc3339 env) systemID entries))
         else if rq_Format r = ''geojson'' \<or> rq_Format r = '''' then
           http_ok [geo_type] (GeoJSON (writeTrajectoryGeoJSON systemID entries))
         else http_error ''unsupported format'' 400))"

definition handleDroneStats :: "export_env \<Rightarrow> uint8 \<Rightarrow> http_response go" where
  "handleDroneStats env systemID =
    (case GetStateBySystemID (ee_drones env) systemID (ee_manager env) of
       None \<Rightarrow> Val (http_error ''drone not found'' 404)
     | Some state \<Rightarrow>
         go_bind (case st_History state of
             None \<Rightarrow> Val 0
           | Some a \<Rightarrow> go_bind (index_at (mgr_rings (ee_manager env)) a) (\<lambda>rb. Val (Len rb))) (\<lambda>histLen.
         Val (http_ok [json_type] (StatsJSON
           \<lparr>sr_SystemID = systemID, sr_Connected = st_IsConnected state, sr_MessageCount = st_MessageCount state,
            sr_HistorySize = histLen, sr_UptimeMs = duration_millis (time_sub (st_LastSeen state) (st_FirstSeen state)),
            sr_Armed = st_IsArmed state, sr_FlightMode = st_FlightMode state\<rparr>))))"

text \<open>The dispatch on the parts of the path.\<close>

definition droneRoute :: "export_env \<Rightarrow> http_request \<Rightarrow> string list \<Rightarrow> uint8 \<Rightarrow> http_response go" where
  "droneRoute env r parts systemID =
    (if length parts < 2 then
       (case GetStateBySystemID (ee_drones env) systemID (ee_manager env) of
          None \<Rightarrow> Val (http_error ''drone not found'' 404)
        | Some state \<Rightarrow> Val (http_ok [json_type] (SummaryJSON (ToSummary state))))
     else if parts ! 1 = ''history'' then
       (if 3 \<le> length parts \<and> parts ! 2 = ''export'' then handleHistoryExport env r systemID
        else handleHistory env r systemID)
     else if parts ! 1 = ''stats'' then handleDroneStats env systemID
     else Val (http_error ''not found'' 404))"

definition handleDroneRoutes :: "export_env \<Rightarrow> http_request \<Rightarrow> http_response go" where
  "handleDroneRoutes env r =
    (if rq_Method r \<noteq> ''GET'' then Val (http_error ''Method not allowed'' 405)
     else
       (let path = trim_prefix ''/api/drones/'' (rq_Path r); parts = split_at (CHR ''/'') path in
        if length parts < 1 \<or> parts ! 0 = [] then Val (http_error ''drone ID required'' 400)
        else
          (case Atoi (parts ! 0) of
             None \<Rightarrow> Val (http_error ''invalid drone ID'' 400)
           | Some i \<Rightarrow>
               if i < 1 \<or> 250 < i then Val (http_error ''invalid drone ID'' 400)
               else droneRoute env r parts (word_of_int i))))"

end
