(* ===== verification/Export_Theorems.thy ===== *)
theory Export_Theorems
  imports Export Drone_Theorems
begin

text \<open>The properties of the REST routes and of the exports.\<close>

section \<open>Which drones an export lists\<close>

definition positioned :: "Summary \<Rightarrow> bool" where
  "positioned s \<longleftrightarrow> sum_Latitude s \<noteq> None \<and> sum_Longitude s \<noteq> None"

lemma geoLoop_eq:
  "geoLoop ss = map (\<lambda>s. geo_feature s (the (sum_Latitude s)) (the (sum_Longitude s))) (filter positioned ss)"
  by (induction ss) (auto simp: positioned_def split: option.split)

lemma kmlLoop_eq:
  "kmlLoop ss = map (\<lambda>s. \<lparr>kp_Name = ''Drone '' @ fmt_int (uint (sum_SystemID s)), kp_Description = kml_description s,
     kp_Coordinates = kml_coordinates (the (sum_Longitude s)) (the (sum_Latitude s))
       (case sum_Altitude s of None \<Rightarrow> Fin 0 | Some alt \<Rightarrow> alt)\<rparr>) (filter positioned ss)"
  by (induction ss) (auto simp: positioned_def Let_def split: option.split)

lemma ToSummary_position:
  "sum_Latitude (ToSummary st) = map_option gps_Latitude (st_GPS st)"
  "sum_Longitude (ToSummary st) = map_option gps_Longitude (st_GPS st)"
  "sum_Altitude (ToSummary st) = map_option gps_Altitude (st_GPS st)"
  "sum_SystemID (ToSummary st) = SystemID (st_ID st)"
  by (simp_all add: ToSummary_def Let_def split: option.split)

lemma positioned_summaries:
  "filter positioned (map ToSummary sts) = map ToSummary (filter (\<lambda>st. st_GPS st \<noteq> None) sts)"
  by (simp add: filter_map comp_def positioned_def ToSummary_position)

definition located :: "State list \<Rightarrow> (DroneID \<times> GPSPosition) list" where
  "located sts = map (\<lambda>st. (st_ID st, the (st_GPS st))) (filter (\<lambda>st. st_GPS st \<noteq> None) sts)"

definition geo_point :: "GPSPosition \<Rightarrow> f64 list" where
  "geo_point g = [gps_Longitude g, gps_Latitude g, gps_Altitude g]"

definition kml_point :: "GPSPosition \<Rightarrow> string" where
  "kml_point g = fmt_fixed 7 (gps_Longitude g) @ '','' @ fmt_fixed 7 (gps_Latitude g) @ '','' @ fmt_fixed 1 (gps_Altitude g)"

definition geo_points :: "http_body \<Rightarrow> f64 list list" where
  "geo_points b = (case b of GeoJSON c \<Rightarrow> map (\<lambda>f. gg_Coordinates (gf_Geometry f)) (gc_Features c) | _ \<Rightarrow> [])"

definition kml_points :: "http_body \<Rightarrow> (string \<times> string) list" where
  "kml_points b = (case b of KML d \<Rightarrow> map (\<lambda>p. (kp_Name p, kp_Coordinates p)) (kd_Placemarks d) | _ \<Rightarrow> [])"


text \<open>A registry whose drone has reported one position.\<close>

definition sample_fix :: GPSPosition where
  "sample_fix = \<lparr>gps_FixType = word_of_int 3, gps_Latitude = Fin 37, gps_Longitude = Fin (-122), gps_Altitude = Fin 5,
     gps_RelAltitude = Fin 0, gps_GroundSpeed = Fin 0, gps_Heading = Fin 90, gps_SatelliteCount = 9,
     gps_HDOP = Fin 0, gps_VDOP = Fin 0\<rparr>"

definition fix_ops :: "mgr_op list" where
  "fix_ops = sample_ops @ [OpEvent (sample_event 9 (PGPS (Some sample_fix)))]"

definition fix_run :: Manager where
  "fix_run = snd (recovered (ProcessEvent (sample_event 9 (PGPS (Some sample_fix)))) sample_run)"

lemma fix_run_run:
  "mgr_run (NewManager (cfg_Drone Default) (Some \<lparr>ch_buf = [], ch_cap = 2, ch_closed = False\<rparr>)) fix_ops fix_run"
  unfolding fix_ops_def fix_run_def
  using mgr_snoc [OF sample_run_run step_event] by (simp add: sample_manager_def)

lemma fix_run_drones: "dom (mgr_drones fix_run) = {sample_id}"
  "\<exists>st. mgr_drones fix_run sample_id = Some st \<and> st_ID st = sample_id \<and> st_GPS st = Some sample_fix"
proof -
  note reported = run_reports [OF fix_run_run sample_updates_open]
  have "(mgr_drones fix_run i = None) = (events_of i fix_ops = [])" for i
    using reported [of i] by (auto split: option.splits)
  then show "dom (mgr_drones fix_run) = {sample_id}"
    by (auto simp: dom_def fix_ops_def sample_ops_def sample_event_def)
  then obtain st where st: "mgr_drones fix_run sample_id = Some st" by auto
  then have "reports sample_id (events_of sample_id fix_ops) st" using reported [of sample_id] by simp
  with st show "\<exists>st. mgr_drones fix_run sample_id = Some st \<and> st_ID st = sample_id \<and> st_GPS st = Some sample_fix"
    by (auto simp: reports_def fix_ops_def sample_ops_def sample_event_def latest_def of_defs)
qed

definition sample_env :: export_env where
  "sample_env = \<lparr>ee_rfc3339 = (\<lambda>_. []), ee_now = 0, ee_drones = [sample_id], ee_manager = fix_run\<rparr>"

definition get :: "string \<Rightarrow> http_request" where
  "get path = \<lparr>rq_Method = ''GET'', rq_Path = path, rq_Format = [], rq_Last = []\<rparr>"


section \<open>Decimals\<close>

lemma length_pad_zeros: "length s \<le> n \<Longrightarrow> length (pad_zeros n s) = n"
  by (simp add: pad_zeros_def)

lemma decimal_length: "n < 10 ^ k \<Longrightarrow> 0 < k \<Longrightarrow> length (decimal n) \<le> k"
proof (induction k arbitrary: n)
  case (Suc k)
  show ?case
  proof (cases "n < 10")
    case True
    then show ?thesis by (subst decimal.simps) simp
  next
    case False
    then have "0 < k" "n div 10 < 10 ^ k" using Suc.prems by (cases k; simp add: less_mult_imp_div_less mult.commute)+
    then show ?thesis using Suc.IH [of "n div 10"] False by (subst decimal.simps) simp
  qed
qed simp

lemma read_zeros: "read_digits 0 (replicate k (CHR ''0'') @ s) = read_digits 0 s"
  by (induction k) (simp_all add: digit_def)

lemma read_digits_shift: "read_digits n s = Some m \<Longrightarrow> \<exists>d. read_digits 0 s = Some d \<and> m = n * 10 ^ length s + d"
proof (induction s arbitrary: n m rule: rev_induct)
  case (snoc c s)
  then obtain k where k: "read_digits n s = Some k" "read_digits k [c] = Some m"
    by (auto simp: read_digits_append split: option.splits)
  obtain d where "read_digits 0 s = Some d" "k = n * 10 ^ length s + d" using snoc.IH [OF k(1)] by blast
  then show ?case using k(2) by (auto simp: read_digits_append algebra_simps split: option.splits)
qed simp

text \<open>The number a decimal notation denotes.\<close>

definition read_unsigned :: "string \<Rightarrow> rat option" where
  "read_unsigned s =
    (case split_at (CHR ''.'') s of
       [ip] \<Rightarrow> map_option of_nat (read_digits 0 ip)
     | [ip, fp] \<Rightarrow> map_option (\<lambda>d. of_nat d / 10 ^ length fp) (read_digits 0 (ip @ fp))
     | _ \<Rightarrow> None)"

definition read_decimal_text :: "string \<Rightarrow> rat option" where
  "read_decimal_text s = (if s \<noteq> [] \<and> hd s = CHR ''-'' then map_option uminus (read_unsigned (tl s)) else read_unsigned s)"

definition plain :: "string \<Rightarrow> bool" where
  "plain s \<longleftrightarrow> set s \<subseteq> digit_char ` {..<10}"

lemma plain_simps [simp]: "plain (decimal n)" "plain (s @ t) \<longleftrightarrow> plain s \<and> plain t"
  using set_decimal by (auto simp: plain_def)

lemma plain_pad: "plain s \<Longrightarrow> plain (pad_zeros n s)"
proof -
  have "CHR ''0'' = digit_char 0" by code_simp
  then show "plain s \<Longrightarrow> plain (pad_zeros n s)" by (auto simp: plain_def pad_zeros_def)
qed

lemma plain_without: "plain s \<Longrightarrow> digit c = None \<Longrightarrow> c \<notin> set s"
  by (auto simp: plain_def)

lemma digit_others: "digit (CHR ''.'') = None" "digit (CHR '','') = None" "digit (CHR ''-'') = None"
  by (simp_all add: digit_def)

lemma read_padded:
  assumes "r < 10 ^ n" "0 < n"
  shows "read_digits 0 (decimal i @ pad_zeros n (decimal r)) = Some (i * 10 ^ n + r)"
proof -
  have len: "length (pad_zeros n (decimal r)) = n" using decimal_length [OF assms] by (rule length_pad_zeros)
  have zero: "read_digits 0 (pad_zeros n (decimal r)) = Some r" by (simp add: pad_zeros_def read_zeros read_decimal)
  have "read_digits i (pad_zeros n (decimal r)) \<noteq> None"
  proof -
    have "plain t \<Longrightarrow> read_digits k t \<noteq> None" for k t
      by (induction t arbitrary: k) (auto simp: plain_def)
    then show ?thesis by (simp add: plain_pad)
  qed
  then obtain m where "read_digits i (pad_zeros n (decimal r)) = Some m" by blast
  with read_digits_shift [OF this] zero len show ?thesis by (simp add: read_digits_append read_decimal)
qed

lemma read_fixed_digits:
  assumes "0 < n" "0 \<le> q"
  shows "read_unsigned (fixed_digits n q) = Some (of_int (round_even (q * 10 ^ n)) / 10 ^ n)"
    "CHR '','' \<notin> set (fixed_digits n q)" "hd (fixed_digits n q) \<noteq> CHR ''-''"
proof -
  let ?m = "nat (round_even (q * 10 ^ n))"
  let ?r = "pad_zeros n (decimal (?m mod 10 ^ n))" and ?i = "decimal (?m div 10 ^ n)"
  have f: "fixed_digits n q = ?i @ CHR ''.'' # ?r" using assms(1) by (simp add: fixed_digits_def Let_def)
  have no: "c \<notin> set ?i \<and> c \<notin> set ?r" if "digit c = None" for c
    using that plain_without [of ?i c] plain_without [of ?r c] by (simp add: plain_pad)
  have "split_at (CHR ''.'') (fixed_digits n q) = [?i, ?r]"
    using no [OF digit_others(1)] by (simp add: f split_at_part split_at_none)
  moreover have "length ?r = n" using decimal_length [of "?m mod 10 ^ n" n] assms(1) by (intro length_pad_zeros) simp
  moreover have "read_digits 0 (?i @ ?r) = Some ?m"
    using read_padded [of "?m mod 10 ^ n" n "?m div 10 ^ n"] assms(1) by (simp only: div_mult_mod_eq) simp
  moreover have "0 \<le> round_even (q * 10 ^ n)"
    using round_even_mono [of 0 "q * 10 ^ n"] round_even_of_int [of 0] assms(2) by simp
  ultimately show "read_unsigned (fixed_digits n q) = Some (of_int (round_even (q * 10 ^ n)) / 10 ^ n)"
    by (simp add: read_unsigned_def of_nat_nat)
  show "CHR '','' \<notin> set (fixed_digits n q)" using no [OF digit_others(2)] by (simp add: f)
  show "hd (fixed_digits n q) \<noteq> CHR ''-''" using hd_decimal(1) by (simp add: f)
qed

lemma fmt_fixed_reads:
  assumes "0 < n" "is_finite x"
  shows "\<exists>v. read_decimal_text (fmt_fixed n x) = Some v \<and> \<bar>v - fval x\<bar> \<le> 1 / (2 * 10 ^ n)"
    and "CHR '','' \<notin> set (fmt_fixed n x)"
proof -
  have err: "\<bar>of_int (round_even (q * 10 ^ n)) / 10 ^ n - q\<bar> \<le> 1 / (2 * 10 ^ n)" for q
  proof -
    have "\<bar>of_int (round_even (q * 10 ^ n)) - q * 10 ^ n\<bar> / 10 ^ n \<le> 1 / 2 / 10 ^ n"
      by (intro divide_right_mono round_even_error) simp
    moreover have "of_int (round_even (q * 10 ^ n)) / 10 ^ n - q = (of_int (round_even (q * 10 ^ n)) - q * 10 ^ n) / 10 ^ n"
      by (simp add: field_simps)
    ultimately show ?thesis by (simp add: abs_divide)
  qed
  have pos: "read_decimal_text (fixed_digits n q) = Some (of_int (round_even (q * 10 ^ n)) / 10 ^ n)"
    "read_decimal_text (CHR ''-'' # fixed_digits n q) = Some (- (of_int (round_even (q * 10 ^ n)) / 10 ^ n))"
    if "0 \<le> q" for q
    using read_fixed_digits [OF assms(1) that] by (simp_all add: read_decimal_text_def)
  have neg: "\<bar>- (of_int (round_even (- q * 10 ^ n)) / 10 ^ n) - q\<bar> \<le> 1 / (2 * 10 ^ n)" for q :: rat
    using err [of "- q"] by (simp add: abs_minus_commute)
  show "\<exists>v. read_decimal_text (fmt_fixed n x) = Some v \<and> \<bar>v - fval x\<bar> \<le> 1 / (2 * 10 ^ n)"
    using assms(2) err neg pos pos(2) [of 0] err [of 0] by (cases x) (auto simp: fmt_fixed_def)
  show "CHR '','' \<notin> set (fmt_fixed n x)"
    using assms(2) read_fixed_digits(2) [OF assms(1)] by (cases x) (auto simp: fmt_fixed_def)
qed

text \<open>
  C36: the coordinates of a placemark are three decimals separated by commas, longitude first, that
  read back as the position to within 0.05 microdegrees and five centimetres.
\<close>

theorem placemark_accuracy:
  assumes "is_finite lon" "is_finite lat" "is_finite alt"
  shows "\<exists>a b c. map read_decimal_text (split_at (CHR '','') (kml_coordinates lon lat alt)) = [Some a, Some b, Some c] \<and>
    \<bar>a - fval lon\<bar> \<le> 5 / 10 ^ 8 \<and> \<bar>b - fval lat\<bar> \<le> 5 / 10 ^ 8 \<and> \<bar>c - fval alt\<bar> \<le> 5 / 100"
proof -
  have "split_at (CHR '','') (kml_coordinates lon lat alt) = [fmt_fixed 7 lon, fmt_fixed 7 lat, fmt_fixed 1 alt]"
    using fmt_fixed_reads(2) assms by (simp add: kml_coordinates_def split_at_part split_at_none)
  moreover obtain a b c where "read_decimal_text (fmt_fixed 7 lon) = Some a" "\<bar>a - fval lon\<bar> \<le> 1 / (2 * 10 ^ 7)"
    "read_decimal_text (fmt_fixed 7 lat) = Some b" "\<bar>b - fval lat\<bar> \<le> 1 / (2 * 10 ^ 7)"
    "read_decimal_text (fmt_fixed 1 alt) = Some c" "\<bar>c - fval alt\<bar> \<le> 1 / (2 * 10 ^ 1)"
    using fmt_fixed_reads(1) [of 7 lon] fmt_fixed_reads(1) [of 7 lat] fmt_fixed_reads(1) [of 1 alt] assms by auto
  ultimately show ?thesis by simp
qed

theorem placemark_accuracy_witness:
  "\<exists>a. read_decimal_text (hd (split_at (CHR '','') (kml_coordinates (Fin (- 1224194 / 10000)) (Fin 0) NZero))) = Some a \<and>
     \<bar>a + 1224194 / 10000\<bar> \<le> 5 / 10 ^ 8"
  using placemark_accuracy [of "Fin (- 1224194 / 10000)" "Fin 0" NZero] by (auto simp: map_eq_Cons_conv)

section \<open>Routes\<close>

text \<open>The handlers never panic on a registry in its invariant.\<close>

lemma last_of_bounds: "1 \<le> last_of s \<and> last_of s \<le> 1000"
  by (simp add: last_of_def Let_def split: option.split)

lemma GetHistory_total:
  assumes "mgr_ok m" "0 \<le> n"
  shows "\<exists>es. GetHistory ks i n m = Val es \<and> int (length es) \<le> n"
proof (induction ks)
  case (Cons k ks)
  show ?case
  proof (cases "mgr_drones m k")
    case (Some st)
    then obtain a where a: "st_History st = Some a" "a < length (mgr_rings m)"
      using assms(1) unfolding mgr_ok_def drones_ok_def by blast
    then have "rb_wf (mgr_rings m ! a)" using assms(1) by (auto simp: mgr_ok_def rings_ok_def)
    then have "Last (mgr_rings m ! a) n = Val (last_n (nat n) (rb_abs (mgr_rings m ! a)))"
      using assms(2) by (rule ring.read_entries)
    then show ?thesis using Cons.IH Some a assms(2) by (auto simp: go_simps)
  qed (use Cons.IH in simp)
qed (use assms in simp)

lemma GetStateBySystemID_Some:
  "GetStateBySystemID ks i m = Some st \<Longrightarrow> \<exists>k\<in>set ks. mgr_drones m k = Some st \<and> SystemID k = i"
  by (induction ks) (auto split: option.splits if_splits)

definition answers_with :: "nat set \<Rightarrow> http_response go \<Rightarrow> bool" where
  "answers_with codes r \<longleftrightarrow> (\<exists>rs. r = Val rs \<and> rs_Status rs \<in> codes)"

lemma history_answers:
  assumes "mgr_ok (ee_manager env)"
  shows "answers_with {200, 404} (handleHistory env r i)" "answers_with {200, 400, 404} (handleHistoryExport env r i)"
proof -
  obtain es where "GetHistory (ee_drones env) i (last_of (rq_Last r)) (ee_manager env) = Val es"
    using GetHistory_total [OF assms] last_of_bounds [of "rq_Last r"] by (metis order_trans zero_le_one)
  then show "answers_with {200, 404} (handleHistory env r i)"
    by (simp add: answers_with_def handleHistory_def http_error_def http_ok_def)
  obtain es where "GetHistory (ee_drones env) i 1000 (ee_manager env) = Val es"
    using GetHistory_total [OF assms, of 1000] by auto
  then show "answers_with {200, 400, 404} (handleHistoryExport env r i)"
    by (simp add: answers_with_def handleHistoryExport_def http_error_def http_ok_def)
qed

lemma stats_answers:
  assumes "mgr_ok (ee_manager env)"
  shows "answers_with {200, 404} (handleDroneStats env i)"
proof (cases "GetStateBySystemID (ee_drones env) i (ee_manager env)")
  case (Some st)
  then obtain k where "mgr_drones (ee_manager env) k = Some st" using GetStateBySystemID_Some by blast
  then obtain a where "st_History st = Some a" "a < length (mgr_rings (ee_manager env))"
    using assms unfolding mgr_ok_def drones_ok_def by blast
  then show ?thesis using Some by (simp add: answers_with_def handleDroneStats_def go_simps http_ok_def)
qed (simp add: answers_with_def handleDroneStats_def http_error_def)

text \<open>
  C29: after any run of the registry every request below \<^verbatim>\<open>/api/drones/\<close> is answered without a panic: 405
  unless it is a GET, 400 unless the first part of the path is the decimal number of a system from 1
  to 250, and otherwise 200, 400 for an unknown export format, or 404.
\<close>

theorem routes_answer:
  fixes r :: http_request
  assumes "mgr_run (NewManager cfg u) ops (ee_manager env)" "updates_open (NewManager cfg u)"
  defines "first \<equiv> hd (split_at (CHR ''/'') (trim_prefix ''/api/drones/'' (rq_Path r)))"
  shows "\<exists>rs. handleDroneRoutes env r = Val rs \<and>
    (if rq_Method r \<noteq> ''GET'' then rs_Status rs = 405
     else if \<exists>i. Atoi first = Some i \<and> 1 \<le> i \<and> i \<le> 250 then rs_Status rs \<in> {200, 400, 404}
     else rs_Status rs = 400)"
proof -
  have ok: "mgr_ok (ee_manager env)" using run_view [OF assms(1,2)] by simp
  let ?parts = "split_at (CHR ''/'') (trim_prefix ''/api/drones/'' (rq_Path r))"
  have first: "?parts ! 0 = first" by (simp add: first_def hd_conv_nth)
  have nil: "Atoi [] = None" by (simp add: Atoi_def Let_def)
  have "answers_with {200, 400, 404} (droneRoute env r ?parts i)" for i
    using history_answers [OF ok, of r i] stats_answers [OF ok, of i]
    by (auto simp: droneRoute_def answers_with_def http_error_def http_ok_def split: option.split)
  then show ?thesis
    using nil first
    by (cases "Atoi first") (auto simp: handleDroneRoutes_def Let_def answers_with_def http_error_def Suc_le_eq)
qed

lemma sample_env_run:
  "mgr_run (NewManager (cfg_Drone Default) (Some \<lparr>ch_buf = [], ch_cap = 2, ch_closed = False\<rparr>)) fix_ops
     (ee_manager sample_env)"
  using fix_run_run by (simp add: sample_env_def)

theorem routes_answer_witness:
  "\<exists>rs. handleDroneRoutes sample_env (get ''/api/drones/251'') = Val rs \<and> rs_Status rs = 400"
proof -
  have "Atoi ''251'' = Some 251" by (simp add: Atoi_def digit_def)
  then show ?thesis
    using routes_answer [OF sample_env_run sample_updates_open, of "get ''/api/drones/251''"]
    by (simp add: get_def trim_prefix_def)
qed

section \<open>The history of a drone over HTTP\<close>

definition drone_path :: "DroneID \<Rightarrow> string \<Rightarrow> string" where
  "drone_path i rest = ''/api/drones/'' @ fmt_int (uint (SystemID i)) @ rest"

lemma fmt_int_no_slash: "0 \<le> n \<Longrightarrow> CHR ''/'' \<notin> set (fmt_int n)"
  by (simp add: fmt_int_def decimal_no_slash)

lemma drone_route:
  assumes "1 \<le> SystemID i" "SystemID i \<le> 250" "rq_Method r = ''GET''"
    and "rq_Path r = drone_path i (CHR ''/'' # rest)"
  shows "handleDroneRoutes env r = droneRoute env r (fmt_int (uint (SystemID i)) # split_at (CHR ''/'') rest) (SystemID i)"
proof -
  have n: "1 \<le> uint (SystemID i)" "uint (SystemID i) \<le> 250" using assms(1,2) by (simp_all add: word_le_def)
  have "fmt_int (uint (SystemID i)) \<noteq> []" by (simp add: fmt_int_def)
  moreover have "Atoi (fmt_int (uint (SystemID i))) = Some (uint (SystemID i))" using n by (intro Atoi_fmt_int) simp_all
  moreover have "trim_prefix ''/api/drones/'' (rq_Path r) = fmt_int (uint (SystemID i)) @ CHR ''/'' # rest"
    unfolding assms(4) drone_path_def by (rule trim_prefix_append)
  ultimately show ?thesis
    using n assms(3) fmt_int_no_slash [of "uint (SystemID i)"]
    by (simp add: handleDroneRoutes_def Let_def split_at_part)
qed

definition entries_of :: "http_body \<Rightarrow> HistoryEntry list" where
  "entries_of b = (case b of HistoryJSON h \<Rightarrow> hs_Entries h | _ \<Rightarrow> [])"

text \<open>
  C28: for a drone that is the only component of its system, the history route answers with its latest
  positions, oldest first: as many as asked for, 100 by default, never more than 1000 nor than the
  registry keeps.  A drone that has sent no position yet is answered like an unknown one.
\<close>

theorem history_route:
  assumes "mgr_run (NewManager cfg u) ops (ee_manager env)" "updates_open (NewManager cfg u)"
    and "distinct (ee_drones env)" "set (ee_drones env) = dom (mgr_drones (ee_manager env))"
    and "events_of i ops \<noteq> []" "\<forall>k\<in>set (ee_drones env). SystemID k = SystemID i \<longrightarrow> k = i"
    and "1 \<le> SystemID i" "SystemID i \<le> 250"
    and "rq_Method r = ''GET''" "rq_Path r = drone_path i ''/history''"
  defines "es \<equiv> last_n (nat (min (last_of (rq_Last r)) (hist_size cfg))) (positions (events_of i ops))"
  shows "\<exists>rs. handleDroneRoutes env r = Val rs \<and> rs_Status rs = (if es = [] then 404 else 200) \<and>
    entries_of (rs_Body rs) = es \<and> length es \<le> 1000"
proof -
  have "GetHistory (ee_drones env) (SystemID i) (last_of (rq_Last r)) (ee_manager env) = Val es"
    unfolding es_def using history_query [OF assms(1-6), of "last_of (rq_Last r)"] last_of_bounds [of "rq_Last r"] by simp
  moreover have "handleDroneRoutes env r = handleHistory env r (SystemID i)"
    using drone_route [OF assms(7,8,9), of "''history''" env] assms(10) by (simp add: droneRoute_def)
  moreover have "nat (min (last_of (rq_Last r)) (hist_size cfg)) \<le> 1000" using last_of_bounds [of "rq_Last r"] by linarith
  then have "length es \<le> 1000" by (simp add: es_def)
  ultimately show ?thesis
    by (simp add: handleHistory_def http_error_def http_ok_def entries_of_def)
qed

theorem history_route_witness:
  "\<exists>rs e. handleDroneRoutes sample_env (get (drone_path sample_id ''/history'')) = Val rs \<and> rs_Status rs = 200 \<and>
     entries_of (rs_Body rs) = [e] \<and> he_Lat e = Fin 37 \<and> he_Timestamp e = 9"
proof -
  have p: "positions (events_of sample_id fix_ops) = entry_of [sample_event 5 (PBattery None), sample_event 8 (PRaw [1])]
      (sample_event 9 (PGPS (Some sample_fix)))"
    using positions_simps(2) [of "[sample_event 5 (PBattery None), sample_event 8 (PRaw [1])]" "sample_event 9 (PGPS (Some sample_fix))"]
    by (simp add: fix_ops_def sample_ops_def sample_event_def positions_def entry_of_def)
  then obtain e where e: "positions (events_of sample_id fix_ops) = [e]" "he_Lat e = Fin 37" "he_Timestamp e = 9"
    by (simp add: entry_of_def sample_event_def sample_fix_def)
  have "events_of sample_id fix_ops \<noteq> []" by (simp add: fix_ops_def sample_ops_def sample_event_def)
  moreover have "last_of [] = 100" "100 \<le> hist_size (cfg_Drone Default)"
    by (simp_all add: last_of_def hist_size_def Default_def)
  moreover have "1 \<le> SystemID sample_id" "SystemID sample_id \<le> 250" by (simp_all add: sample_id_def)
  ultimately have "\<exists>rs. handleDroneRoutes sample_env (get (drone_path sample_id ''/history'')) = Val rs \<and>
      rs_Status rs = 200 \<and> entries_of (rs_Body rs) = [e]"
    using history_route [OF sample_env_run sample_updates_open, of sample_id "get (drone_path sample_id ''/history'')"]
      fix_run_drones(1) e(1)
    by (simp add: sample_env_def get_def last_n_all)
  with e(2,3) show ?thesis by blast
qed

end
