(* ===== verification/Logging.thy ===== *)
theory Logging
  imports Prelude
begin

text \<open>
  What the main goroutines log: a record is its level, its message and its attributes (the \<^verbatim>\<open>slog\<close>
  package of the library; the time of a record and its rendering are not modelled).
\<close>

datatype LogLevel = LevelDebug | LevelInfo | LevelWarn | LevelError
datatype LogHandler = TextHandler LogLevel | JSONHandler LogLevel

datatype log_value =
    LogString string
  | LogInt int
  | LogUint uint64
  | LogBool bool
  | LogDuration duration
  | LogError   \<comment> \<open>an \<^verbatim>\<open>error\<close> of a library\<close>

record log_record =
  lg_level :: LogLevel
  lg_msg :: string
  lg_attrs :: "(string \<times> log_value) list"

definition log_at :: "LogLevel \<Rightarrow> string \<Rightarrow> (string \<times> log_value) list \<Rightarrow> log_record" where
  "log_at level msg attrs = \<lparr>lg_level = level, lg_msg = msg, lg_attrs = attrs\<rparr>"

text \<open>\<^verbatim>\<open>logger.With("component", c)\<close>\<close>

definition log_component :: "string \<Rightarrow> log_record \<Rightarrow> log_record" where
  "log_component c r = r\<lparr>lg_attrs := (''component'', LogString c) # lg_attrs r\<rparr>"

fun log_rank :: "LogLevel \<Rightarrow> nat" where
  "log_rank LevelDebug = 0"
| "log_rank LevelInfo = 1"
| "log_rank LevelWarn = 2"
| "log_rank LevelError = 3"

fun handler_level :: "LogHandler \<Rightarrow> LogLevel" where
  "handler_level (TextHandler l) = l"
| "handler_level (JSONHandler l) = l"

text \<open>The records a handler writes.\<close>

definition written :: "LogHandler \<Rightarrow> log_record list \<Rightarrow> log_record list" where
  "written h rs = filter (\<lambda>r. log_rank (handler_level h) \<le> log_rank (lg_level r)) rs"

lemma log_fields [simp]:
  "lg_msg (log_at level msg attrs) = msg" "lg_level (log_at level msg attrs) = level"
  "lg_attrs (log_at level msg attrs) = attrs"
  "lg_msg (log_component c r) = lg_msg r" "lg_level (log_component c r) = lg_level r"
  by (simp_all add: log_at_def log_component_def)

end
