(* ===== verification/Server.thy ===== *)
theory Server
  imports Websocket Ingest Transition Logging
begin

text \<open>
  \<^verbatim>\<open>cmd/server/main.go\<close>: the configuration of a run, the construction of the components, the event
  processor, the health report, and the shutdown.  The flags are the values the \<^verbatim>\<open>flag\<close> package parsed.
\<close>

section \<open>Flags and logging\<close>

definition configureLogger :: "string \<Rightarrow> string \<Rightarrow> LogHandler" where
  "configureLogger level format =
    (let logLevel = (if level = ''debug'' then LevelDebug else if level = ''warn'' then LevelWarn
           else if level = ''error'' then LevelError else LevelInfo)
     in if format = ''json'' then JSONHandler logLevel else TextHandler logLevel)"

record flags =
  fl_configFile :: string
  fl_udpAddr :: string
  fl_httpAddr :: string
  fl_workers :: int

text \<open>
  The configuration the server runs with: the file's or the default one, then the flags; an error of
  the file ends the program.
\<close>

definition applyFlags :: "flags \<Rightarrow> Config \<Rightarrow> Config" where
  "applyFlags fl cfg =
    (let cfg = (if fl_udpAddr fl \<noteq> [] then cfg\<lparr>cfg_UDP := (cfg_UDP cfg)\<lparr>udp_BindAddress := fl_udpAddr fl\<rparr>\<rparr> else cfg);
         cfg = (if fl_httpAddr fl \<noteq> [] then cfg\<lparr>cfg_WebSocket := (cfg_WebSocket cfg)\<lparr>wc_BindAddress := fl_httpAddr fl\<rparr>\<rparr> else cfg)
     in if 0 < fl_workers fl then cfg\<lparr>cfg_Workers := (cfg_Workers cfg)\<lparr>wk_PoolSize := fl_workers fl\<rparr>\<rparr> else cfg)"

definition configure ::
    "(string \<Rightarrow> byte list option) \<Rightarrow> (byte list \<Rightarrow> Config \<Rightarrow> Config \<times> bool) \<Rightarrow> flags \<Rightarrow> LoadError + Config" where
  "configure read_file unmarshal fl =
    (if fl_configFile fl \<noteq> [] then
       (case LoadFile read_file unmarshal (fl_configFile fl) of
          (cfg, Some err) \<Rightarrow> Inl err
        | (cfg, None) \<Rightarrow> Inr (applyFlags fl cfg))
     else Inr (applyFlags fl Default))"

section \<open>Construction\<close>

record server =
  sv_telemetry :: "TelemetryEvent chan"
  sv_manager :: Manager
  sv_hub :: Hub
  sv_listener :: UDPListener
  sv_ws :: WebSocketServer

text \<open>
  The channels and the core components.  The listener gets the telemetry channel as its output; how the
  goroutines share that channel is the subject of the relay below.
\<close>

definition newServer :: "(string \<Rightarrow> IP option) \<Rightarrow> Config \<Rightarrow> server go" where
  "newServer parse_v6 cfg =
    go_bind (make_chan 1000) (\<lambda>telemetryChan.
    go_bind (make_chan 256) (\<lambda>updateChan.
    let droneManager = NewManager (cfg_Drone cfg) (Some updateChan);
        udpListener = NewUDPListener parse_v6 (cfg_UDP cfg) (cfg_Workers cfg) (cfg_Drone cfg) telemetryChan;
        (r, hub) = NewWebSocketServer (cfg_WebSocket cfg) (NewHub (cfg_PubSub cfg))
    in go_bind r (\<lambda>ws.
       Val \<lparr>sv_telemetry = telemetryChan, sv_manager = droneManager, sv_hub = hub, sv_listener = udpListener, sv_ws = ws\<rparr>)))"

definition registerExpandedHealth :: "(WebSocketServer, unit) act" where
  "registerExpandedHealth = RegisterHandler ''/api/health''"

text \<open>The main goroutine up to the wait for a signal; the goroutines it starts run beside it.\<close>

definition serverStartup :: "(string \<Rightarrow> IP option) \<Rightarrow> Config \<Rightarrow> server go" where
  "serverStartup parse_v6 cfg =
    go_bind (newServer parse_v6 cfg) (\<lambda>sv.
    case registerExpandedHealth (sv_ws sv) of (r, ws) \<Rightarrow> go_bind r (\<lambda>_. Val (sv\<lparr>sv_ws := ws\<rparr>)))"

section \<open>The event processor\<close>

definition eventProcessor :: "TelemetryEvent selected list \<Rightarrow> Manager \<Rightarrow> Manager" where
  "eventProcessor = supervised ProcessEvent"

section \<open>Health\<close>

record udpHealth =
  uh_PacketsReceived :: uint64
  uh_PacketsDropped :: uint64
  uh_ParseErrors :: uint64

record droneHealth =
  dh_Total :: int
  dh_Connected :: int
  dh_Armed :: int
  dh_Messages :: uint64

record pubSubHealth =
  ph_Subscribers :: int
  ph_EventsReceived :: uint64
  ph_EventsBroadcast :: uint64
  ph_EventsDropped :: uint64

record systemHealth =
  sh_Goroutines :: int
  sh_HeapAllocMB :: f64
  sh_TelemetryChanUtil :: f64

record expandedHealthResponse =
  eh_Status :: string
  eh_Version :: string
  eh_Timestamp :: int
  eh_Uptime :: f64
  eh_UDP :: udpHealth
  eh_Drones :: droneHealth
  eh_PubSub :: pubSubHealth
  eh_Clients :: int
  eh_System :: systemHealth

text \<open>What the handler reads of the run-time system and the clock, and the orders of the maps.\<close>

record health_env =
  hv_version :: string
  hv_now :: instant
  hv_uptime :: f64
  hv_goroutines :: int
  hv_heapAlloc :: uint64
  hv_drones :: "DroneID list"
  hv_subscribers :: "string list"
  hv_clients :: "uint64 list"

definition expandedHealth ::
    "health_env \<Rightarrow> Manager \<Rightarrow> Hub \<Rightarrow> UDPListener \<Rightarrow> WebSocketServer \<Rightarrow> TelemetryEvent chan \<Rightarrow> expandedHealthResponse" where
  "expandedHealth hv mgr hub listener ws telemetryChan =
    (let stats = Manager_Stats (hv_drones hv) mgr;
         hubStats = Hub_Stats (hv_subscribers hv) hub;
         listenerStats = UDPListener_Stats listener
     in \<lparr>eh_Status = ''ok'', eh_Version = hv_version hv, eh_Timestamp = unix_milli (hv_now hv), eh_Uptime = hv_uptime hv,
         eh_UDP = \<lparr>uh_PacketsReceived = ls_PacketsReceived listenerStats, uh_PacketsDropped = ls_PacketsDropped listenerStats,
           uh_ParseErrors = ls_ParseErrors listenerStats\<rparr>,
         eh_Drones = \<lparr>dh_Total = ms_TotalDrones stats, dh_Connected = ms_ConnectedDrones stats,
           dh_Armed = ms_ArmedDrones stats, dh_Messages = ms_TotalMessages stats\<rparr>,
         eh_PubSub = \<lparr>ph_Subscribers = hs_Subscribers hubStats, ph_EventsReceived = hs_EventsReceived hubStats,
           ph_EventsBroadcast = hs_EventsBroadcast hubStats, ph_EventsDropped = hs_EventsDropped hubStats\<rparr>,
         eh_Clients = ClientCount (hv_clients hv) ws,
         eh_System = \<lparr>sh_Goroutines = hv_goroutines hv,
           sh_HeapAllocMB = f64_div (f64_of_int (uint (hv_heapAlloc hv))) (f64_of_int (1024 * 1024)),
           sh_TelemetryChanUtil = f64_div (f64_of_int (int (length (ch_buf telemetryChan)))) (f64_of_int (int (ch_cap telemetryChan)))\<rparr>\<rparr>)"

section \<open>The relay of events\<close>

text \<open>
  The telemetry channel has one sender, the workers, and two receivers: the goroutine of the hub and
  the event processor.  A step names the event it moves.
\<close>

record relay =
  rl_chan :: "TelemetryEvent chan"
  rl_manager :: Manager
  rl_hub :: Hub

datatype relay_op =
    RSend TelemetryEvent
  | RHub "string list" TelemetryEvent
  | RProcess TelemetryEvent
  | RStale "DroneID list" instant
  | RTake StateUpdate

inductive relay_step :: "relay \<Rightarrow> relay_op \<Rightarrow> relay \<Rightarrow> bool" where
  relay_send: "try_send ev (rl_chan s) = Val (c, True) \<Longrightarrow> relay_step s (RSend ev) (s\<lparr>rl_chan := c\<rparr>)"
| relay_hub: "recv (rl_chan s) = Some (Some ev, c) \<Longrightarrow>
    relay_step s (RHub ks ev) (s\<lparr>rl_chan := c, rl_hub := snd (recovered (broadcast ks ev) (rl_hub s))\<rparr>)"
| relay_process: "recv (rl_chan s) = Some (Some ev, c) \<Longrightarrow>
    relay_step s (RProcess ev) (s\<lparr>rl_chan := c, rl_manager := snd (recovered (ProcessEvent ev) (rl_manager s))\<rparr>)"
| relay_stale: "distinct ks \<Longrightarrow> set ks = dom (mgr_drones (rl_manager s)) \<Longrightarrow>
    relay_step s (RStale ks now) (s\<lparr>rl_manager := snd (recovered (checkStale ks now) (rl_manager s))\<rparr>)"
| relay_take: "mgr_updates (rl_manager s) = Some c \<Longrightarrow> recv c = Some (Some u, c') \<Longrightarrow>
    relay_step s (RTake u) (s\<lparr>rl_manager := (rl_manager s)\<lparr>mgr_updates := Some c'\<rparr>\<rparr>)"

abbreviation relay_run :: "relay \<Rightarrow> relay_op list \<Rightarrow> relay \<Rightarrow> bool" where
  "relay_run \<equiv> run_of relay_step"

section \<open>Shutdown\<close>

text \<open>
  The goroutine of the web server stops it when the context is cancelled; the main goroutine waits for
  the whole time-out and then stops the web server again, the hub and the manager.
\<close>

definition wsGoroutineStop :: "uint64 list \<Rightarrow> (server, unit) act" where
  "wsGoroutineStop ks sv =
    (case WebSocket_Stop ks (sv_ws sv) of (r, ws) \<Rightarrow> (r, sv\<lparr>sv_ws := ws\<rparr>))"

definition mainShutdown :: "uint64 list \<Rightarrow> string list \<Rightarrow> (server, unit) act" where
  "mainShutdown ks subs =
    act_then (\<lambda>sv. case WebSocket_Stop ks (sv_ws sv) of (r, ws) \<Rightarrow> (r, sv\<lparr>sv_ws := ws\<rparr>)) (
    act_then (\<lambda>sv. case Hub_Stop subs (sv_hub sv) of (r, hub) \<Rightarrow> (r, sv\<lparr>sv_hub := hub\<rparr>))
      (\<lambda>sv. case Manager_Stop (sv_manager sv) of (r, m) \<Rightarrow> (r, sv\<lparr>sv_manager := m\<rparr>)))"

end
