(* ===== verification/Sender.thy ===== *)
theory Sender
  imports Mavlink_Correct
begin

text \<open>
  The frame builders of the traffic generators, \<^verbatim>\<open>buildFrame\<close> of \<^verbatim>\<open>cmd/simulator/main.go\<close> and
  \<^verbatim>\<open>buildSimFrame\<close> of \<^verbatim>\<open>cmd/replay/generate.go\<close>, with the copies of the checksum they carry.  A byte
  slice under construction is written in place with checked accesses.  The locale \<open>frame_sender\<close> is
  what a receiver relies on; both builders are instances, and the server's parser inverts them.
\<close>

section \<open>Writing into a slice\<close>

definition set_at :: "byte list \<Rightarrow> nat \<Rightarrow> byte \<Rightarrow> byte list go" where
  "set_at buf i b = (if i < length buf then Val (buf[i := b]) else Panic IndexOutOfRange)"

text \<open>\<^verbatim>\<open>PutUint16(buf[i:], v)\<close> and the like: the bytes must fit.\<close>

definition write_at :: "byte list \<Rightarrow> nat \<Rightarrow> byte list \<Rightarrow> byte list go" where
  "write_at buf i bs =
    (if i + length bs \<le> length buf then Val (take i buf @ bs @ drop (i + length bs) buf)
     else Panic IndexOutOfRange)"

text \<open>\<^verbatim>\<open>copy(buf[i:], bs)\<close> copies what fits.\<close>

definition copy_at :: "byte list \<Rightarrow> nat \<Rightarrow> byte list \<Rightarrow> byte list go" where
  "copy_at buf i bs =
    (if i \<le> length buf then
       (let n = min (length buf - i) (length bs) in Val (take i buf @ take n bs @ drop (i + n) buf))
     else Panic IndexOutOfRange)"

lemma set_at_Val [go_simps]: "i < length buf \<Longrightarrow> set_at buf i b = Val (buf[i := b])"
  by (simp add: set_at_def)

lemma write_at_Val [go_simps]:
  "i + length bs \<le> length buf \<Longrightarrow> write_at buf i bs = Val (take i buf @ bs @ drop (i + length bs) buf)"
  by (simp add: write_at_def)

section \<open>The simulator's builder\<close>

definition sim_crcSeeds :: "uint32 \<Rightarrow> byte option" where
  "sim_crcSeeds m =
    (if m = 0 then Some 50 else if m = 1 then Some 124 else if m = 24 then Some 24
     else if m = 30 then Some 39 else if m = 33 then Some 104 else if m = 147 then Some 154 else None)"

definition sim_crcAccumulate :: "byte \<Rightarrow> uint16 \<Rightarrow> uint16" where
  "sim_crcAccumulate b crc =
    (let tmp = ucast b XOR (crc AND 0xFF);
         tmp = tmp XOR (push_bit 4 tmp AND 0xFF)
     in drop_bit 8 crc XOR push_bit 8 tmp XOR push_bit 3 tmp XOR drop_bit 4 tmp)"

definition sim_crcCalculate :: "byte list \<Rightarrow> byte \<Rightarrow> uint16" where
  "sim_crcCalculate buf seed =
    (let crc = foldl (\<lambda>crc b. sim_crcAccumulate b crc) 0xFFFF buf in sim_crcAccumulate seed crc)"

text \<open>What the builder uses of the simulated vehicle: its identity and the sequence counter.\<close>

record SimLink =
  sl_SystemID :: uint8
  sl_Seq :: uint8

definition buildFrame :: "'a SimLink_scheme \<Rightarrow> uint32 \<Rightarrow> byte list \<Rightarrow> (byte list \<times> 'a SimLink_scheme) go" where
  "buildFrame d msgID payload =
    (let payloadLen = length payload; frameSize = 1 + 9 + payloadLen + 2; buf = replicate frameSize 0 in
     go_bind (set_at buf 0 0xFD) (\<lambda>buf.
     go_bind (set_at buf 1 (of_nat payloadLen)) (\<lambda>buf.
     go_bind (set_at buf 2 0) (\<lambda>buf.
     go_bind (set_at buf 3 0) (\<lambda>buf.
     go_bind (set_at buf 4 (sl_Seq d)) (\<lambda>buf.
     go_bind (set_at buf 5 (sl_SystemID d)) (\<lambda>buf.
     go_bind (set_at buf 6 1) (\<lambda>buf.
     go_bind (set_at buf 7 (ucast msgID)) (\<lambda>buf.
     go_bind (set_at buf 8 (ucast (drop_bit 8 msgID))) (\<lambda>buf.
     go_bind (set_at buf 9 (ucast (drop_bit 16 msgID))) (\<lambda>buf.
     go_bind (copy_at buf 10 payload) (\<lambda>buf.
     go_bind
       (case sim_crcSeeds msgID of
          Some seed \<Rightarrow>
            go_bind (slice_of buf 1 (10 + payloadLen)) (\<lambda>covered.
            write_at buf (10 + payloadLen) (put_uint16 (sim_crcCalculate covered seed)))
        | None \<Rightarrow> Val buf) (\<lambda>buf.
     Val (buf, d\<lparr>sl_Seq := sl_Seq d + 1\<rparr>))))))))))))))"

section \<open>The builder of the capture generator\<close>

definition gen_crcSeeds :: "uint32 \<Rightarrow> byte option" where
  "gen_crcSeeds m =
    (if m = 0 then Some 50 else if m = 1 then Some 124 else if m = 24 then Some 24
     else if m = 30 then Some 39 else if m = 33 then Some 104 else if m = 147 then Some 154 else None)"

definition crcAcc :: "byte \<Rightarrow> uint16 \<Rightarrow> uint16" where
  "crcAcc b crc =
    (let tmp = ucast b XOR (crc AND 0xFF);
         tmp = tmp XOR (push_bit 4 tmp AND 0xFF)
     in drop_bit 8 crc XOR push_bit 8 tmp XOR push_bit 3 tmp XOR drop_bit 4 tmp)"

definition crcCalc :: "byte list \<Rightarrow> byte \<Rightarrow> uint16" where
  "crcCalc buf seed = (let crc = foldl (\<lambda>crc b. crcAcc b crc) 0xFFFF buf in crcAcc seed crc)"

text \<open>The counter behind the pointer argument is returned updated.\<close>

definition buildSimFrame :: "uint8 \<Rightarrow> uint32 \<Rightarrow> byte list \<Rightarrow> (byte list \<times> uint8) go" where
  "buildSimFrame seq msgID payload =
    (let frameSize = 1 + 9 + length payload + 2; buf = replicate frameSize 0 in
     go_bind (set_at buf 0 0xFD) (\<lambda>buf.
     go_bind (set_at buf 1 (of_nat (length payload))) (\<lambda>buf.
     go_bind (set_at buf 4 seq) (\<lambda>buf.
     go_bind (set_at buf 5 1) (\<lambda>buf.
     go_bind (set_at buf 6 1) (\<lambda>buf.
     go_bind (set_at buf 7 (ucast msgID)) (\<lambda>buf.
     go_bind (set_at buf 8 (ucast (drop_bit 8 msgID))) (\<lambda>buf.
     go_bind (set_at buf 9 (ucast (drop_bit 16 msgID))) (\<lambda>buf.
     go_bind (copy_at buf 10 payload) (\<lambda>buf.
     go_bind
       (case gen_crcSeeds msgID of
          Some seed \<Rightarrow>
            go_bind (slice_of buf 1 (10 + length payload)) (\<lambda>covered.
            write_at buf (10 + length payload) (put_uint16 (crcCalc covered seed)))
        | None \<Rightarrow> Val buf) (\<lambda>buf.
     Val (buf, seq + 1))))))))))))"

section \<open>The bytes of a frame\<close>

definition body_bytes :: "uint8 \<Rightarrow> uint8 \<Rightarrow> uint32 \<Rightarrow> byte list \<Rightarrow> byte list" where
  "body_bytes seq sysid msgID payload =
    [of_nat (length payload), 0, 0, seq, sysid, 1, ucast msgID, ucast (drop_bit 8 msgID),
     ucast (drop_bit 16 msgID)] @ payload"

definition frame_bytes :: "uint8 \<Rightarrow> uint8 \<Rightarrow> uint32 \<Rightarrow> byte list \<Rightarrow> byte list" where
  "frame_bytes seq sysid msgID payload =
    MagicV2 # body_bytes seq sysid msgID payload @
      (case sim_crcSeeds msgID of
         None \<Rightarrow> [0, 0]
       | Some seed \<Rightarrow> put_uint16 (crcCalculate (body_bytes seq sysid msgID payload) seed))"

lemma crcLoop_foldl: "crcLoop buf crc = foldl (\<lambda>crc b. crcAccumulate b crc) crc buf"
  by (induction buf arbitrary: crc) simp_all

text \<open>The three copies of the checksum agree.\<close>

lemma checksum_copies:
  "sim_crcCalculate buf seed = crcCalculate buf seed" "crcCalc buf seed = crcCalculate buf seed"
  "gen_crcSeeds m = sim_crcSeeds m"
proof -
  have "sim_crcAccumulate = crcAccumulate" "crcAcc = crcAccumulate"
    by (simp_all add: fun_eq_iff sim_crcAccumulate_def crcAcc_def crcAccumulate_def)
  then show "sim_crcCalculate buf seed = crcCalculate buf seed" "crcCalc buf seed = crcCalculate buf seed"
    by (simp_all add: sim_crcCalculate_def crcCalc_def crcCalculate_def crcLoop_foldl)
qed (simp add: gen_crcSeeds_def sim_crcSeeds_def)

lemma replicate_frame: "replicate (12 + n) x = [x, x, x, x, x, x, x, x, x, x] @ replicate n x @ [x, x]"
  by (simp add: eval_nat_numeral replicate_append_same replicate_app_Cons_same)

lemma copy_payload:
  "length h = 10 \<Longrightarrow> copy_at (h @ replicate (length payload) 0 @ [0, 0]) 10 payload = Val (h @ payload @ [0, 0])"
  by (simp add: copy_at_def Let_def)

lemma crc_of_body:
  "length h = 9 \<Longrightarrow> slice_of (0xFD # h @ payload @ [0, 0]) 1 (10 + length payload) = Val (h @ payload)"
  by (simp add: slice_of_def)

lemma write_crc:
  "length h = 10 \<Longrightarrow> length w = 2 \<Longrightarrow>
     write_at (h @ payload @ [0, 0]) (10 + length payload) w = Val (h @ payload @ w)"
  by (simp add: write_at_def)

lemmas frame_writes =
  copy_payload [of "[a, b, c, d, e, f, g, h, i, j]" for a b c d e f g h i j, simplified]
  crc_of_body [of "[b, c, d, e, f, g, h, i, j]" for b c d e f g h i j, simplified]
  write_crc [of "[a, b, c, d, e, f, g, h, i, j]" for a b c d e f g h i j, simplified]

lemma buildFrame_eq:
  "buildFrame d m payload = Val (frame_bytes (sl_Seq d) (sl_SystemID d) m payload, d\<lparr>sl_Seq := sl_Seq d + 1\<rparr>)"
proof -
  have sz: "1 + 9 + length payload + 2 = 12 + length payload" by simp
  show ?thesis
    unfolding buildFrame_def Let_def sz replicate_frame
    by (simp add: set_at_Val frame_writes frame_bytes_def
        body_bytes_def MagicV2_def checksum_copies split: option.split)
qed

lemma buildSimFrame_eq: "buildSimFrame seq m payload = Val (frame_bytes seq 1 m payload, seq + 1)"
proof -
  have sz: "1 + 9 + length payload + 2 = 12 + length payload" by simp
  show ?thesis
    unfolding buildSimFrame_def Let_def sz replicate_frame
    by (simp add: set_at_Val frame_writes frame_bytes_def
        body_bytes_def MagicV2_def checksum_copies split: option.split)
qed

section \<open>What the receiver reads\<close>

definition sent_frame :: "uint8 \<Rightarrow> uint8 \<Rightarrow> uint32 \<Rightarrow> byte list \<Rightarrow> Frame" where
  "sent_frame seq sysid msgID payload =
    \<lparr>fr_PayloadLength = of_nat (length payload), fr_IncompatFlags = 0, fr_CompatFlags = 0,
     fr_Sequence = seq, fr_SystemID = sysid, fr_ComponentID = 1, fr_MessageID = msgID,
     fr_Payload = payload,
     fr_Checksum = (case sim_crcSeeds msgID of
        None \<Rightarrow> 0 | Some seed \<Rightarrow> crcCalculate (body_bytes seq sysid msgID payload) seed)\<rparr>"

lemma bit_below_24:
  assumes "m < 2 ^ 24" "bit (m :: uint32) n"
  shows "n < 24"
proof -
  have "uint m < 2 ^ 24" using assms(1) by (simp add: word_less_def)
  then have "take_bit 24 (uint m) = uint m" by (simp add: take_bit_int_eq_self_iff)
  moreover have "bit (uint m) n" using assms(2) bit_imp_le_length [OF assms(2)] by (simp add: bit_uint_iff)
  ultimately have "bit (take_bit 24 (uint m)) n" by simp
  then show ?thesis by (simp add: bit_take_bit_iff)
qed

lemma msg_id_bytes:
  assumes "m < 2 ^ 24"
  shows "msg_id_of (ucast m) (ucast (drop_bit 8 m)) (ucast (drop_bit 16 m)) = m"
  unfolding msg_id_of_def
  by (rule bit_eqI)
    (use bit_below_24 [OF assms] in \<open>auto simp: bit_simps not_le not_less less_diff_conv2 le_add_diff_inverse intro: ccontr\<close>)

lemma sim_seed: "m \<noteq> 245 \<Longrightarrow> crcSeed m = sim_crcSeeds m"
  by (simp add: crcSeed_def sim_crcSeeds_def)

lemma length_frame_bytes [simp]: "length (frame_bytes seq sysid m payload) = 12 + length payload"
  by (simp add: frame_bytes_def body_bytes_def split: option.split)

lemma u16_of_0: "u16_of 0 0 = 0"
  by (simp add: u16_of_def)

lemma frame_at_sent:
  assumes "length payload \<le> 255" "m < 2 ^ 24"
  shows "frame_at (frame_bytes seq sysid m payload @ rest) = sent_frame seq sysid m payload"
    "frame_size (frame_bytes seq sysid m payload @ rest) = 12 + length payload"
proof -
  have n: "unat (of_nat (length payload) :: byte) = length payload" using assms(1) by (simp add: unsigned_of_nat take_bit_nat_eq_self)
  show "frame_size (frame_bytes seq sysid m payload @ rest) = 12 + length payload"
    by (simp add: frame_size_def frame_bytes_def body_bytes_def n)
  have crc: "u16_of ((frame_bytes seq sysid m payload @ rest) ! (10 + length payload))
      ((frame_bytes seq sysid m payload @ rest) ! (11 + length payload)) = fr_Checksum (sent_frame seq sysid m payload)"
    by (simp add: frame_bytes_def body_bytes_def nth_append nth_Cons' sent_frame_def put_uint16_def u16_of_put
        u16_of_0 split: option.split)
  then show "frame_at (frame_bytes seq sysid m payload @ rest) = sent_frame seq sysid m payload"
    using n msg_id_bytes [OF assms(2)]
    by (simp add: frame_at_def sent_frame_def Let_def frame_bytes_def body_bytes_def)
qed

text \<open>The frames of successive messages.\<close>

fun frames_from :: "uint8 \<Rightarrow> uint8 \<Rightarrow> (uint32 \<times> byte list) list \<Rightarrow> byte list list" where
  "frames_from seq sysid [] = []"
| "frames_from seq sysid ((m, payload) # ms) = frame_bytes seq sysid m payload # frames_from (seq + 1) sysid ms"

text \<open>
  A builder of frames: whatever it keeps in its state, it emits the bytes of a frame from its vehicle
  under the next sequence number.
\<close>

locale frame_sender =
  fixes build :: "'s \<Rightarrow> uint32 \<Rightarrow> byte list \<Rightarrow> (byte list \<times> 's) go"
    and seq_of :: "'s \<Rightarrow> uint8" and sys_of :: "'s \<Rightarrow> uint8"
  assumes builds: "\<exists>s'. build s m payload = Val (frame_bytes (seq_of s) (sys_of s) m payload, s') \<and>
      seq_of s' = seq_of s + 1 \<and> sys_of s' = sys_of s"
begin

text \<open>The parser inverts the builder, and leaves what follows the frame alone.\<close>

lemma sent_parses:
  assumes "build s m payload = Val (bytes, s')" "length payload \<le> 255" "m < 2 ^ 24" "m \<noteq> 245"
  shows "ParseFrame p (bytes @ rest) =
    Val (Inr (sent_frame (seq_of s) (sys_of s) m payload, length bytes))"
proof -
  let ?f = "frame_bytes (seq_of s) (sys_of s) m payload"
  have bytes: "bytes = ?f" using builds [of s m payload] assms(1) by auto
  note at = frame_at_sent [OF assms(2,3), of "seq_of s" "sys_of s" rest]
  have n: "unat (of_nat (length payload) :: byte) = length payload"
    using assms(2) by (simp add: unsigned_of_nat take_bit_nat_eq_self)
  have "(?f @ rest) ! 1 = of_nat (length payload)" by (simp add: frame_bytes_def body_bytes_def)
  moreover have "length (body_bytes (seq_of s) (sys_of s) m payload) = 9 + length payload"
    by (simp add: body_bytes_def)
  ultimately have "take (9 + unat ((?f @ rest) ! 1)) (drop 1 (?f @ rest)) = body_bytes (seq_of s) (sys_of s) m payload"
    by (simp add: frame_bytes_def n)
  then have "crc_ok (?f @ rest)"
    unfolding crc_ok_def at(1) using sim_seed [OF assms(4)]
    by (simp add: sent_frame_def split: option.split)
  moreover have "(?f @ rest) ! 0 = MagicV2" by (simp add: frame_bytes_def)
  ultimately show ?thesis by (simp add: ParseFrame_Inr_iff bytes at)
qed

text \<open>The numbers of successive frames count up, wrapping at the byte.\<close>

fun send_all :: "'s \<Rightarrow> (uint32 \<times> byte list) list \<Rightarrow> byte list list go" where
  "send_all s [] = Val []"
| "send_all s ((m, payload) # ms) =
    go_bind (build s m payload) (\<lambda>(bytes, s). go_bind (send_all s ms) (\<lambda>fs. Val (bytes # fs)))"

lemma send_all_numbered: "send_all s ms = Val (frames_from (seq_of s) (sys_of s) ms)"
proof (induction ms arbitrary: s)
  case (Cons x ms)
  obtain m payload where x: "x = (m, payload)" by (cases x)
  obtain s' where "build s m payload = Val (frame_bytes (seq_of s) (sys_of s) m payload, s')"
    "seq_of s' = seq_of s + 1" "sys_of s' = sys_of s" using builds by blast
  then show ?case using Cons.IH [of s'] by (simp add: x)
qed simp

text \<open>
  A message whose payload is long enough and in range is an event of the sender's vehicle for the
  server.
\<close>

lemma sent_decodes:
  assumes "build s m payload = Val (bytes, s')" "length payload \<le> 255" "m < 2 ^ 24" "m \<noteq> 245"
    "ValidateSystemID (sys_of s)" "checked_payload (sent_frame (seq_of s) (sys_of s) m payload) = Some v"
  shows "DecodePacket d now (bytes @ rest) addr =
    Val (Inr \<lparr>ev_DroneID = \<lparr>SystemID = sys_of s, ComponentID = 1\<rparr>, ev_MessageID = m, ev_Timestamp = now,
      ev_SourceAddr = addr, ev_Payload = v\<rparr>)"
proof -
  let ?f = "sent_frame (seq_of s) (sys_of s) m payload"
  have sys: "fr_SystemID ?f = sys_of s" "fr_ComponentID ?f = 1" "fr_MessageID ?f = m"
    by (simp_all add: sent_frame_def)
  show ?thesis
    using sent_parses [OF assms(1-4)] assms(5,6) sys by (simp add: DecodePacket_eq)
qed

end

interpretation simulator: frame_sender buildFrame sl_Seq sl_SystemID
  by unfold_locales (simp add: buildFrame_eq)

interpretation generator: frame_sender buildSimFrame "\<lambda>seq. seq" "\<lambda>seq. 1"
  by unfold_locales (simp add: buildSimFrame_eq)

end
