(* ===== verification/Convert.thy ===== *)
theory Convert
  imports Rate_Limit
begin

text \<open>
  Conversions of a float64 to an integer and to the bits of a float32, as the traffic generators use
  them to put measurements on the wire, and how much of a measurement survives the way there and
  back.  What Go leaves open, the result of converting a value the integer type does not hold, is an
  argument of the conversion.
\<close>

section \<open>To an integer\<close>

definition trunc_rat :: "rat \<Rightarrow> int" where
  "trunc_rat q = (if 0 \<le> q then \<lfloor>q\<rfloor> else \<lceil>q\<rceil>)"

definition f64_to_int :: "(f64 \<Rightarrow> int) \<Rightarrow> int \<Rightarrow> int \<Rightarrow> f64 \<Rightarrow> int" where
  "f64_to_int wild lo hi x =
    (case x of
       Fin q \<Rightarrow> if lo \<le> trunc_rat q \<and> trunc_rat q \<le> hi then trunc_rat q else wild x
     | NZero \<Rightarrow> 0
     | _ \<Rightarrow> wild x)"

definition f64_to_s32 :: "(f64 \<Rightarrow> int) \<Rightarrow> f64 \<Rightarrow> uint32" where
  "f64_to_s32 wild x = word_of_int (f64_to_int wild (- (2 ^ 31)) (2 ^ 31 - 1) x)"

definition f64_to_s16 :: "(f64 \<Rightarrow> int) \<Rightarrow> f64 \<Rightarrow> uint16" where
  "f64_to_s16 wild x = word_of_int (f64_to_int wild (- (2 ^ 15)) (2 ^ 15 - 1) x)"

definition f64_to_u16 :: "(f64 \<Rightarrow> int) \<Rightarrow> f64 \<Rightarrow> uint16" where
  "f64_to_u16 wild x = word_of_int (f64_to_int wild 0 (2 ^ 16 - 1) x)"

lemma trunc_rat_error: "\<bar>of_int (trunc_rat q) - q\<bar> < 1"
  unfolding trunc_rat_def using floor_correct [of q] ceiling_correct [of q] by (auto simp: abs_less_iff) linarith+

lemma trunc_rat_0 [simp]: "trunc_rat 0 = 0"
  by (simp add: trunc_rat_def)

lemma trunc_rat_le: "q \<le> of_int n \<Longrightarrow> 0 \<le> n \<Longrightarrow> trunc_rat q \<le> n"
  by (auto simp: trunc_rat_def floor_le_iff ceiling_le_iff le_less_trans)

lemma trunc_rat_ge: "- of_int n \<le> q \<Longrightarrow> 0 \<le> n \<Longrightarrow> - n \<le> trunc_rat q"
  by (auto simp: trunc_rat_def le_floor_iff le_ceiling_iff)

lemma sint_word_of_int_32: "- (2 ^ 31) \<le> n \<Longrightarrow> n < 2 ^ 31 \<Longrightarrow> sint (word_of_int n :: 32 word) = n"
  by (simp add: sint_sbintrunc' signed_take_bit_int_eq_self_iff)

section \<open>A scaled measurement there and back\<close>

text \<open>\<^verbatim>\<open>uint32(int32(x * scale))\<close>\<close>

definition scale_s32 :: "(f64 \<Rightarrow> int) \<Rightarrow> f64 \<Rightarrow> rat \<Rightarrow> uint32" where
  "scale_s32 wild x scale = f64_to_s32 wild (f64_mul x (f64_lit scale))"

lemma f64_mul_scale:
  assumes "\<bar>q\<bar> \<le> of_int b" "1 \<le> c" "c < 2 ^ 53" "b * c < 2 ^ 53"
  shows "f64_mul (Fin q) (f64_lit (of_int c)) \<in> {Fin (fround (q * of_int c)), NZero} \<and>
    (f64_mul (Fin q) (f64_lit (of_int c)) = NZero \<longrightarrow> fround (q * of_int c) = 0)"
proof -
  have "\<bar>q * of_int c\<bar> \<le> of_int (b * c)" using assms by (simp add: abs_mult mult_right_mono)
  then show ?thesis
    using assms pack_bounded [of "q * of_int c" "b * c" "q < 0"] f64_lit_int [of c]
    by (auto simp: f64_mul_def)
qed

lemma scale_s32_value:
  assumes "\<bar>q\<bar> \<le> of_int b" "0 \<le> b" "1 \<le> c" "b * c < 2 ^ 31" "c < 2 ^ 53"
  shows "sint (scale_s32 wild (Fin q) (of_int c)) = trunc_rat (fround (q * of_int c))"
    and "\<bar>trunc_rat (fround (q * of_int c))\<bar> \<le> b * c"
proof -
  let ?x = "q * of_int c" and ?n = "trunc_rat (fround (q * of_int c))"
  have x: "\<bar>?x\<bar> \<le> of_int (b * c)" using assms by (simp add: abs_mult mult_right_mono)
  have "\<bar>fround ?x\<bar> \<le> of_int (b * c)" using x assms(4) by (intro fround_abs_le) auto
  then have n: "- (b * c) \<le> ?n" "?n \<le> b * c"
    using trunc_rat_le [of "fround ?x" "b * c"] trunc_rat_ge [of "b * c" "fround ?x"] assms(2,3)
    by (simp_all only: abs_le_iff) auto
  then show "\<bar>?n\<bar> \<le> b * c" by simp
  show "sint (scale_s32 wild (Fin q) (of_int c)) = ?n"
  proof -
    have rng: "- (2 ^ 31) \<le> ?n" "?n \<le> 2 ^ 31 - 1" using n assms(4) by linarith+
    have "f64_to_int wild (- (2 ^ 31)) (2 ^ 31 - 1) (f64_mul (Fin q) (f64_lit (of_int c))) = ?n"
      using f64_mul_scale [OF assms(1,3,5) less_trans [OF assms(4)]] rng by (auto simp: f64_to_int_def)
    then show ?thesis
      using n assms(4) by (simp add: scale_s32_def f64_to_s32_def sint_word_of_int_32)
  qed
qed

lemma scale_s32_finite:
  assumes "is_finite x" "\<bar>fval x\<bar> \<le> of_int b" "0 \<le> b" "1 \<le> c" "b * c < 2 ^ 31" "c < 2 ^ 53"
  shows "sint (scale_s32 wild x (of_int c)) = trunc_rat (fround (fval x * of_int c)) \<and>
    \<bar>sint (scale_s32 wild x (of_int c))\<bar> \<le> b * c"
proof (cases x)
  case (Fin q)
  then show ?thesis using scale_s32_value [of q b c] assms by simp
next
  case NZero
  then show ?thesis
    using assms f64_lit_int [of c]
    by (simp add: scale_s32_def f64_to_s32_def f64_mul_def pack_def f64_to_int_def)
qed (use assms in simp_all)

lemma scale_there_and_back:
  assumes "\<bar>q\<bar> \<le> of_int b" "0 \<le> b" "1 \<le> c" "b * c < 2 ^ 31" "c \<le> 2 ^ 30"
  shows "\<bar>fround (of_int (trunc_rat (fround (q * of_int c))) / of_int c) - q\<bar> \<le> (1 + 1 / 100000) / of_int c"
proof -
  let ?c = "of_int c :: rat"
  define x f n where "x = q * ?c" and "f = fround x" and "n = (of_int (trunc_rat f) :: rat)"
  have c: "0 < ?c" "?c \<le> 2 ^ 30" using assms(3,5) of_int_le_iff [of c "2 ^ 30", where 'a = rat] by simp_all
  have bc: "(of_int (b * c) :: rat) \<le> of_int (2 ^ 31)" using assms(4) by (simp only: of_int_le_iff)
  have "\<bar>x\<bar> \<le> of_int (b * c)" using assms by (simp add: x_def abs_mult mult_right_mono)
  then have x: "\<bar>x\<bar> \<le> 2 ^ 31" using bc by simp
  have "\<bar>f - x\<bar> \<le> \<bar>x\<bar> / 2 ^ 53 + 2 powi (- 1075)" unfolding f_def by (rule fround_rel_error)
  also have "\<dots> \<le> 2 ^ 31 / 2 ^ 53 + 1 / 2 ^ 53" using x tiny_le by (intro add_mono divide_right_mono) simp_all
  finally have f: "\<bar>f - x\<bar> \<le> 1 / 2 ^ 21" by simp
  have "\<bar>n - f\<bar> < 1" unfolding n_def by (rule trunc_rat_error)
  then have nx: "\<bar>n - x\<bar> \<le> 1 + 1 / 2 ^ 21" using f by linarith
  have "\<bar>n\<bar> \<le> \<bar>n - x\<bar> + \<bar>x\<bar>" by linarith
  also have "\<dots> \<le> (1 + 1 / 2 ^ 21) + 2 ^ 31" using nx x by (rule add_mono)
  finally have n: "\<bar>n\<bar> \<le> 2 ^ 32" by simp
  have y: "\<bar>n / ?c - q\<bar> = \<bar>n - x\<bar> / ?c" using c(1) by (simp add: x_def field_simps abs_divide)
  have "\<bar>fround (n / ?c) - n / ?c\<bar> \<le> \<bar>n / ?c\<bar> / 2 ^ 53 + 2 powi (- 1075)" by (rule fround_rel_error)
  also have "\<dots> \<le> (2 ^ 32 / ?c) / 2 ^ 53 + (1 / 2 ^ 23) / ?c"
  proof (rule add_mono)
    show "\<bar>n / ?c\<bar> / 2 ^ 53 \<le> (2 ^ 32 / ?c) / 2 ^ 53"
      using n c(1) by (intro divide_right_mono) (simp_all add: abs_divide divide_right_mono)
    have "(1 / 2 ^ 23) / 2 ^ 30 \<le> (1 / 2 ^ 23) / ?c" using c by (intro divide_left_mono) simp_all
    then show "2 powi (- 1075) \<le> (1 / 2 ^ 23) / ?c" using tiny_le by simp
  qed
  finally have "\<bar>fround (n / ?c) - n / ?c\<bar> \<le> (5 / 2 ^ 23) / ?c" using c(1) by (simp add: field_simps)
  moreover have "\<bar>n / ?c - q\<bar> \<le> (1 + 1 / 2 ^ 21) / ?c" unfolding y using nx c(1) by (intro divide_right_mono) simp_all
  moreover have "(5 / 2 ^ 23) / ?c + (1 + 1 / 2 ^ 21) / ?c \<le> (1 + 1 / 100000) / ?c"
  proof -
    have "(5 / 2 ^ 23 + (1 + 1 / 2 ^ 21)) / ?c \<le> (1 + 1 / 100000) / ?c" using c(1) by (intro divide_right_mono) simp_all
    then show ?thesis by (simp add: add_divide_distrib)
  qed
  ultimately have "\<bar>fround (n / ?c) - q\<bar> \<le> (1 + 1 / 100000) / ?c" by linarith
  then show ?thesis by (simp add: n_def f_def x_def)
qed

section \<open>To the bits of a float32\<close>

text \<open>\<^verbatim>\<open>math.Float32bits(float32(x))\<close>: rounding to 24 bits, to nearest with ties to even.\<close>

definition f32_ulp :: "rat \<Rightarrow> int" where
  "f32_ulp q = max (lead_exp \<bar>q\<bar> - 23) (- 149)"

definition f32_mantissa :: "rat \<Rightarrow> int" where
  "f32_mantissa q = round_even (\<bar>q\<bar> / 2 powi f32_ulp q)"

definition f32_magnitude :: "rat \<Rightarrow> int" where
  "f32_magnitude q = min ((f32_ulp q + 149) * 2 ^ 23 + f32_mantissa q) (255 * 2 ^ 23)"

definition f32_bits :: "f64 \<Rightarrow> uint32" where
  "f32_bits x =
    (case x of
       NaN \<Rightarrow> 0x7FC00000
     | PInf \<Rightarrow> 0x7F800000
     | NInf \<Rightarrow> 0xFF800000
     | NZero \<Rightarrow> 0x80000000
     | Fin q \<Rightarrow>
         if q = 0 then 0
         else word_of_int (f32_magnitude q + (if q < 0 then 2 ^ 31 else 0)))"

lemma f32_mantissa_bounds:
  assumes "q \<noteq> 0"
  shows "0 \<le> f32_mantissa q" "f32_mantissa q \<le> 2 ^ 24" "- 149 < f32_ulp q \<Longrightarrow> 2 ^ 23 \<le> f32_mantissa q"
proof -
  let ?q = "\<bar>q\<bar>" and ?u = "f32_ulp q" and ?k = "lead_exp \<bar>q\<bar>"
  have q: "0 < ?q" using assms by simp
  have "round_even 0 \<le> f32_mantissa q" unfolding f32_mantissa_def by (intro round_even_mono) simp
  then show "0 \<le> f32_mantissa q" using round_even_of_int [of 0] by simp
  have "?q / 2 powi ?u \<le> of_int (2 ^ 24)"
  proof -
    have "?q \<le> 2 powi (?k + 1)" using lead_exp_bounds(2) [OF q] by simp
    also have "\<dots> \<le> 2 powi (24 + ?u)" by (intro power_int_increasing) (simp_all add: f32_ulp_def)
    also have "\<dots> = 2 ^ 24 * 2 powi ?u" by (simp add: power_int_add)
    finally show ?thesis by (simp add: divide_le_eq)
  qed
  then show "f32_mantissa q \<le> 2 ^ 24"
    unfolding f32_mantissa_def using round_even_mono round_even_of_int [of "2 ^ 24"] by metis
  assume "- 149 < ?u"
  then have u: "?u = ?k - 23" by (simp add: f32_ulp_def max_def split: if_splits)
  have "of_int (2 ^ 23) \<le> ?q / 2 powi ?u"
  proof -
    have "2 ^ 23 * 2 powi ?u = (2 :: rat) powi ?k" by (simp add: u power_int_diff)
    also have "\<dots> \<le> ?q" by (rule lead_exp_bounds(1) [OF q])
    finally show ?thesis by (simp add: le_divide_eq)
  qed
  then show "2 ^ 23 \<le> f32_mantissa q"
    unfolding f32_mantissa_def using round_even_mono round_even_of_int [of "2 ^ 23"] by metis
qed

text \<open>The float32 nearest to a value, as a float64, and its distance.\<close>

definition f32_round :: "rat \<Rightarrow> rat" where
  "f32_round q = sgn q * of_int (f32_mantissa q) * 2 powi f32_ulp q"

lemma f32_round_error: "\<bar>f32_round q - q\<bar> \<le> \<bar>q\<bar> / 2 ^ 24 + 2 powi (- 150)"
proof (cases "q = 0")
  case False
  let ?u = "(2 :: rat) powi f32_ulp q"
  have "f32_round q - q = sgn q * (of_int (f32_mantissa q) - \<bar>q\<bar> / ?u) * ?u"
    by (simp add: f32_round_def right_diff_distrib left_diff_distrib sgn_if abs_if)
  then have "\<bar>f32_round q - q\<bar> = \<bar>of_int (f32_mantissa q) - \<bar>q\<bar> / ?u\<bar> * ?u"
    using False by (simp add: abs_mult abs_sgn_eq)
  also have "\<dots> \<le> 1 / 2 * ?u"
    unfolding f32_mantissa_def by (intro mult_right_mono round_even_error) simp
  also have "\<dots> \<le> \<bar>q\<bar> / 2 ^ 24 + 2 powi (- 150)"
  proof (cases "lead_exp \<bar>q\<bar> - 23 \<le> - 149")
    case True
    then have "f32_ulp q = - 149" by (simp add: f32_ulp_def)
    then show ?thesis by (simp add: power_int_minus)
  next
    case nrm: False
    then have "f32_ulp q = lead_exp \<bar>q\<bar> - 23" by (simp add: f32_ulp_def)
    then have "1 / 2 * ?u = 2 powi lead_exp \<bar>q\<bar> / 2 ^ 24" by (simp add: power_int_diff)
    also have "\<dots> \<le> \<bar>q\<bar> / 2 ^ 24" using False by (intro divide_right_mono lead_exp_bounds(1)) simp_all
    finally show ?thesis by (simp add: add_increasing2)
  qed
  finally show ?thesis .
qed (simp add: f32_round_def)

lemma word_fields:
  assumes "0 \<le> v" "v < 2 ^ 32"
  shows "bit (word_of_int v :: uint32) 31 \<longleftrightarrow> 2 ^ 31 \<le> v"
    "uint (take_bit 8 (drop_bit 23 (word_of_int v :: uint32))) = v div 2 ^ 23 mod 256"
    "uint (take_bit 23 (word_of_int v :: uint32)) = v mod 2 ^ 23"
proof -
  have u: "uint (word_of_int v :: uint32) = v"
    using assms by (simp add: unsigned_of_int take_bit_int_eq_self_iff)
  have "bit (word_of_int v :: uint32) 31 \<longleftrightarrow> bit (uint (word_of_int v :: uint32)) 31"
    by (simp only: bit_uint_iff) simp
  then have "bit (word_of_int v :: uint32) 31 \<longleftrightarrow> odd (v div 2 ^ 31)" unfolding u by (simp only: bit_iff_odd)
  moreover have "v div 2 ^ 31 \<in> {0, 1}"
  proof -
    have "0 \<le> v div 2 ^ 31" "v div 2 ^ 31 < 2" using assms by auto
    then show ?thesis by auto
  qed
  moreover have "v div 2 ^ 31 = 0 \<longleftrightarrow> v < 2 ^ 31" using assms(1) by (auto simp: zdiv_eq_0_iff)
  ultimately show "bit (word_of_int v :: uint32) 31 \<longleftrightarrow> 2 ^ 31 \<le> v" by auto
  show "uint (take_bit 8 (drop_bit 23 (word_of_int v :: uint32))) = v div 2 ^ 23 mod 256"
    unfolding unsigned_take_bit_eq unsigned_drop_bit_eq u using assms
    by (simp add: take_bit_eq_mod drop_bit_eq_div)
  show "uint (take_bit 23 (word_of_int v :: uint32)) = v mod 2 ^ 23"
    unfolding unsigned_take_bit_eq u by (simp add: take_bit_eq_mod)
qed

text \<open>The fields of a magnitude spell the rounded value.\<close>

definition fields_value :: "int \<Rightarrow> rat" where
  "fields_value m =
    (if m div 2 ^ 23 = 0 then of_int (m mod 2 ^ 23) * 2 powi (- 149)
     else of_int (2 ^ 23 + m mod 2 ^ 23) * 2 powi (m div 2 ^ 23 - 150))"

lemma fields_value_sum:
  assumes "0 \<le> m" "m \<le> 2 ^ 24" "- 149 \<le> u" "- 149 < u \<Longrightarrow> 2 ^ 23 \<le> m"
  shows "fields_value ((u + 149) * 2 ^ 23 + m) = of_int m * 2 powi u"
proof -
  have dm: "((u + 149) * 2 ^ 23 + m) div 2 ^ 23 = u + 149 + m div 2 ^ 23" "((u + 149) * 2 ^ 23 + m) mod 2 ^ 23 = m mod 2 ^ 23"
    by (simp_all only: div_mult_self3 mod_mult_self3) simp_all
  consider "m < 2 ^ 23" | "2 ^ 23 \<le> m" "m < 2 ^ 24" | "m = 2 ^ 24" using assms(2) by linarith
  then show ?thesis
  proof cases
    case 1
    then have "u = - 149" using assms(3,4) by force
    then show ?thesis using 1 assms(1) by (simp add: fields_value_def)
  next
    case 2
    define r where "r = m - 2 ^ 23"
    have r: "0 \<le> r" "r < 2 ^ 23" "m = r + 2 ^ 23" using 2 by (simp_all add: r_def)
    then have d: "m div 2 ^ 23 = 1" "m mod 2 ^ 23 = r" by simp_all
    show ?thesis unfolding fields_value_def dm d using assms(3) r by (simp add: algebra_simps)
  next
    case 3
    then show ?thesis using assms(3) by (simp add: fields_value_def power_int_add)
  qed
qed

lemma f32_fields_decode:
  assumes "bit w 31 = neg" "uint (take_bit 8 (drop_bit 23 w)) = v div 2 ^ 23" "uint (take_bit 23 w) = v mod 2 ^ 23"
    "v div 2 ^ 23 < 255" "fields_value v = 0 \<longleftrightarrow> v = 0"
  shows "f64_of_f32_bits w =
    (if neg then if fields_value v = 0 then NZero else Fin (- fields_value v) else Fin (fields_value v))"
proof (cases "v = 0")
  case True
  then show ?thesis using assms by (simp add: f64_of_f32_bits_def Let_def)
next
  case False
  then have "\<not> (v div 2 ^ 23 = 0 \<and> v mod 2 ^ 23 = 0)" using div_mult_mod_eq [of v "2 ^ 23"] by fastforce
  then show ?thesis
    using assms False unfolding f64_of_f32_bits_def Let_def assms(1-3) by (simp add: fields_value_def)
qed

lemma f32_bits_value:
  assumes "q \<noteq> 0" "\<bar>q\<bar> < 2 ^ 127"
  shows "f64_of_f32_bits (f32_bits (Fin q)) = (if q < 0 \<and> f32_round q = 0 then NZero else Fin (f32_round q))"
proof -
  let ?m = "f32_mantissa q" and ?u = "f32_ulp q"
  define v where "v = (?u + 149) * 2 ^ 23 + ?m"
  note mb = f32_mantissa_bounds [OF assms(1)]
  have u: "- 149 \<le> ?u" by (simp add: f32_ulp_def)
  have "lead_exp \<bar>q\<bar> < 127"
  proof -
    have "2 powi lead_exp \<bar>q\<bar> < (2 :: rat) powi 127" using lead_exp_bounds(1) [of "\<bar>q\<bar>"] assms by simp
    then show ?thesis by (simp only: powi_less_cancel)
  qed
  then have u2: "?u \<le> 103" by (simp add: f32_ulp_def)
  have "(?u + 149) * 2 ^ 23 \<le> 252 * 2 ^ 23" using u2 by (intro mult_right_mono) simp_all
  moreover have "0 \<le> (?u + 149) * 2 ^ 23" using u by simp
  ultimately have v: "0 \<le> v" "v \<le> 254 * 2 ^ 23" using mb(1,2) by (simp_all add: v_def)
  have "f32_magnitude q = min v (255 * 2 ^ 23)" by (simp only: f32_magnitude_def v_def)
  then have mag: "f32_magnitude q = v" using v(2) by simp
  have fv: "fields_value v = of_int ?m * 2 powi ?u"
    unfolding v_def by (rule fields_value_sum) (use mb u in auto)
  have z: "fields_value v = 0 \<longleftrightarrow> v = 0"
    using v(1) by (auto simp: fields_value_def zdiv_eq_0_iff)
  have ex: "v div 2 ^ 23 < 255" "v div 2 ^ 23 mod 256 = v div 2 ^ 23" "0 \<le> v div 2 ^ 23" using v by auto
  show ?thesis
  proof (cases "q < 0")
    case False
    define w :: uint32 where "w = word_of_int v"
    have w: "bit w 31 \<longleftrightarrow> False" "uint (take_bit 8 (drop_bit 23 w)) = v div 2 ^ 23"
      "uint (take_bit 23 w) = v mod 2 ^ 23"
      unfolding w_def using word_fields [of v] v ex by simp_all
    have "f32_bits (Fin q) = w" using False assms(1) by (simp add: f32_bits_def mag w_def)
    moreover have "f32_round q = fields_value v" using False assms(1) by (simp add: f32_round_def fv)
    ultimately show ?thesis using False ex w z by (auto simp: f32_fields_decode)
  next
    case True
    have sh: "(v + 2 ^ 31) div 2 ^ 23 = v div 2 ^ 23 + 256" "(v + 2 ^ 31) mod 2 ^ 23 = v mod 2 ^ 23"
    proof -
      have e: "v + 2 ^ 31 = v + 256 * 2 ^ 23" by simp
      show "(v + 2 ^ 31) div 2 ^ 23 = v div 2 ^ 23 + 256" "(v + 2 ^ 31) mod 2 ^ 23 = v mod 2 ^ 23"
        unfolding e by (simp_all only: div_mult_self1 mod_mult_self1) simp_all
    qed
    define w :: uint32 where "w = word_of_int (v + 2 ^ 31)"
    have w: "bit w 31 \<longleftrightarrow> True" "uint (take_bit 8 (drop_bit 23 w)) = v div 2 ^ 23"
      "uint (take_bit 23 w) = v mod 2 ^ 23"
      unfolding w_def using word_fields [of "v + 2 ^ 31"] v ex sh by simp_all
    have "f32_bits (Fin q) = w" using True by (simp add: f32_bits_def mag w_def)
    moreover have "f32_round q = - fields_value v" using True by (simp add: f32_round_def fv)
    ultimately show ?thesis using True ex w z by (auto simp: f32_fields_decode)
  qed
qed

end
