(* ===== verification/Simulator.thy ===== *)
theory Simulator
  imports Sender Convert History
begin

text \<open>
  The traffic simulator, \<^verbatim>\<open>cmd/simulator/main.go\<close>: the simulated vehicle with its flight phases, the
  payload builders, and a tick of the main loop.  The random draws, the clock and the functions of the
  \<^verbatim>\<open>math\<close> package whose results Go does not fix bit for bit (the trigonometric ones) are arguments.
\<close>

section \<open>The vehicle\<close>

record mathlib =
  m_cos :: "f64 \<Rightarrow> f64"
  m_sin :: "f64 \<Rightarrow> f64"
  m_sqrt :: "f64 \<Rightarrow> f64"
  m_atan2 :: "f64 \<Rightarrow> f64 \<Rightarrow> f64"
  m_mod :: "f64 \<Rightarrow> f64 \<Rightarrow> f64"

definition Pi :: rat where
  "Pi = 314159265358979323846264338327950288419716939937510582097494459 / 10 ^ 62"

record Waypoint =
  wp_Lat :: f64
  wp_Lon :: f64
  wp_Alt :: f64

datatype flightPhase =
    phasePrearm | phaseTakeoff | phaseClimb | phaseCruise | phaseDescend | phaseLand | phaseDisarmed

record SimDrone = SimLink +
  sd_Lat :: f64
  sd_Lon :: f64
  sd_Alt :: f64
  sd_HomeAlt :: f64
  sd_Heading :: f64
  sd_Roll :: f64
  sd_Pitch :: f64
  sd_Yaw :: f64
  sd_Battery :: int8
  sd_BatteryV :: f64
  sd_Armed :: bool
  sd_FlightMode :: uint8
  sd_Waypoints :: "Waypoint list"
  sd_CurrentWP :: int
  sd_Phase :: flightPhase
  sd_PhaseTimer :: int

text \<open>The draws of one vehicle: the angle, two per waypoint, two for the place.\<close>

record init_draws =
  id_angle :: f64
  id_waypoints :: "(f64 \<times> f64) list"
  id_lat :: f64
  id_lon :: f64

definition newWaypoint :: "mathlib \<Rightarrow> f64 \<Rightarrow> f64 \<Rightarrow> f64 \<Rightarrow> f64 \<Rightarrow> int \<Rightarrow> nat \<Rightarrow> f64 \<times> f64 \<Rightarrow> Waypoint" where
  "newWaypoint mt baseLat baseLon spread angle numWP i draws =
    (let wpAngle = f64_add angle
           (f64_div (f64_mul (f64_mul (f64_of_int (int i)) (f64_lit 2)) (f64_lit Pi)) (f64_of_int numWP));
         radius = f64_mul spread (f64_add (f64_lit (1 / 2)) (f64_mul (fst draws) (f64_lit (1 / 2))))
     in \<lparr>wp_Lat = f64_add baseLat (f64_mul radius (m_cos mt wpAngle)),
         wp_Lon = f64_add baseLon (f64_mul radius (m_sin mt wpAngle)),
         wp_Alt = f64_add (f64_lit 30) (f64_mul (snd draws) (f64_lit 70))\<rparr>)"

text \<open>The number of waypoints is drawn first: it is the number of waypoint draws.\<close>

definition newSimDrone :: "mathlib \<Rightarrow> init_draws \<Rightarrow> uint8 \<Rightarrow> f64 \<Rightarrow> f64 \<Rightarrow> f64 \<Rightarrow> SimDrone" where
  "newSimDrone mt dr sysid baseLat baseLon spread =
    (let numWP = length (id_waypoints dr);
         angle = f64_mul (f64_mul (id_angle dr) (f64_lit 2)) (f64_lit Pi);
         waypoints = map (\<lambda>(i, draws). newWaypoint mt baseLat baseLon spread angle (int numWP) i draws)
           (enumerate 0 (id_waypoints dr));
         around = (\<lambda>base draw. f64_add base
           (f64_mul (f64_mul (f64_sub draw (f64_lit (1 / 2))) spread) (f64_lit (1 / 10))));
         homeAlt = f64_lit 10
     in \<lparr>sl_SystemID = sysid, sl_Seq = 0,
         sd_Lat = around baseLat (id_lat dr), sd_Lon = around baseLon (id_lon dr), sd_Alt = homeAlt,
         sd_HomeAlt = homeAlt, sd_Heading = Fin 0, sd_Roll = Fin 0, sd_Pitch = Fin 0, sd_Yaw = Fin 0,
         sd_Battery = 100, sd_BatteryV = f64_lit (168 / 10), sd_Armed = False, sd_FlightMode = 0,
         sd_Waypoints = waypoints, sd_CurrentWP = 0, sd_Phase = phasePrearm, sd_PhaseTimer = 0\<rparr>)"

text \<open>
  The fleet: one vehicle per element of \<open>draws\<close>.  The system id is the index plus one at eight bits.
\<close>

definition newFleet :: "mathlib \<Rightarrow> f64 \<Rightarrow> f64 \<Rightarrow> f64 \<Rightarrow> init_draws list \<Rightarrow> SimDrone list" where
  "newFleet mt baseLat baseLon spread draws =
    map (\<lambda>(i, dr). newSimDrone mt dr (of_nat (i + 1)) baseLat baseLon spread) (enumerate 0 draws)"

section \<open>Flight\<close>

definition f64_abs :: "f64 \<Rightarrow> f64" where
  "f64_abs x = (if is_neg x then f64_neg x else x)"

text \<open>\<^verbatim>\<open>math.Min\<close> and \<^verbatim>\<open>math.Max\<close>\<close>

definition f64_min :: "f64 \<Rightarrow> f64 \<Rightarrow> f64" where
  "f64_min x y =
    (if x = NInf \<or> y = NInf then NInf else if x = NaN \<or> y = NaN then NaN
     else if x = NZero \<and> y = Fin 0 \<or> y = NZero \<and> x = Fin 0 then NZero
     else if f64_lt x y then x else y)"

definition f64_max :: "f64 \<Rightarrow> f64 \<Rightarrow> f64" where
  "f64_max x y =
    (if x = PInf \<or> y = PInf then PInf else if x = NaN \<or> y = NaN then NaN
     else if x = NZero \<and> y = Fin 0 \<or> y = NZero \<and> x = Fin 0 then Fin 0
     else if f64_lt y x then x else y)"

text \<open>The horizontal move and the altitude adjustment; the distance returned is the one before.\<close>

definition flyTo :: "mathlib \<Rightarrow> f64 \<Rightarrow> f64 \<Rightarrow> f64 \<Rightarrow> f64 \<Rightarrow> SimDrone \<Rightarrow> SimDrone" where
  "flyTo mt dlat dlon distance speed d =
    (if f64_lt (f64_lit (1 / 100000)) distance then
       (let step = f64_mul speed (f64_lit (1 / 100000));
            step = (if f64_lt distance step then distance else step);
            d = d\<lparr>sd_Lat := f64_add (sd_Lat d) (f64_mul (f64_div dlat distance) step)\<rparr>;
            d = d\<lparr>sd_Lon := f64_add (sd_Lon d) (f64_mul (f64_div dlon distance) step)\<rparr>;
            d = d\<lparr>sd_Heading := m_mod mt (f64_add (f64_div (f64_mul (m_atan2 mt dlon dlat) (f64_lit 180)) (f64_lit Pi))
              (f64_lit 360)) (f64_lit 360)\<rparr>;
            targetYaw = f64_div (f64_mul (sd_Heading d) (f64_lit Pi)) (f64_lit 180);
            d = d\<lparr>sd_Roll := f64_mul (m_sin mt (f64_sub targetYaw (sd_Yaw d))) (f64_lit (3 / 10))\<rparr>
        in d\<lparr>sd_Yaw := targetYaw\<rparr>)
     else d)"

definition adjustAlt :: "f64 \<Rightarrow> SimDrone \<Rightarrow> SimDrone" where
  "adjustAlt dalt d =
    (if f64_lt (f64_lit (1 / 10)) (f64_abs dalt) then
       (let d = (if f64_lt (Fin 0) dalt then d\<lparr>sd_Alt := f64_add (sd_Alt d) (f64_min (f64_lit (3 / 10)) dalt)\<rparr>
                 else d\<lparr>sd_Alt := f64_add (sd_Alt d) (f64_max (f64_lit (- 3 / 10)) dalt)\<rparr>)
        in d\<lparr>sd_Pitch := f64_mul (f64_neg dalt) (f64_lit (1 / 100))\<rparr>)
     else d\<lparr>sd_Pitch := f64_mul (sd_Pitch d) (f64_lit (9 / 10))\<rparr>)"

definition moveToward :: "mathlib \<Rightarrow> f64 \<Rightarrow> f64 \<Rightarrow> f64 \<Rightarrow> f64 \<Rightarrow> SimDrone \<Rightarrow> f64 \<times> SimDrone" where
  "moveToward mt lat lon alt speed d =
    (let dlat = f64_sub lat (sd_Lat d); dlon = f64_sub lon (sd_Lon d); dalt = f64_sub alt (sd_Alt d);
         distance = m_sqrt mt (f64_add (f64_mul dlat dlat) (f64_mul dlon dlon))
     in (distance, adjustAlt dalt (flyTo mt dlat dlon distance speed d)))"

definition enterPhase :: "flightPhase \<Rightarrow> SimDrone \<Rightarrow> SimDrone" where
  "enterPhase ph d = d\<lparr>sd_Phase := ph, sd_PhaseTimer := 0\<rparr>"

text \<open>The switch on the phase.\<close>

definition phaseStep :: "mathlib \<Rightarrow> SimDrone \<Rightarrow> SimDrone go" where
  "phaseStep mt d =
    (case sd_Phase d of
       phasePrearm \<Rightarrow>
         Val (if 30 < sd_PhaseTimer d
              then enterPhase phaseTakeoff (d\<lparr>sd_Armed := True, sd_FlightMode := 4\<rparr>) else d)
     | phaseTakeoff \<Rightarrow>
         (let targetAlt = f64_add (sd_HomeAlt d) (f64_lit 10);
              d = d\<lparr>sd_Alt := f64_add (sd_Alt d) (f64_lit (1 / 2)), sd_Pitch := f64_lit (- 1 / 10)\<rparr>
          in Val (if f64_le targetAlt (sd_Alt d) then enterPhase phaseClimb d else d))
     | phaseClimb \<Rightarrow>
         go_bind (get_int (sd_Waypoints d) (sd_CurrentWP d)) (\<lambda>wp.
         let (_, d) = moveToward mt (wp_Lat wp) (wp_Lon wp) (f64_add (sd_HomeAlt d) (wp_Alt wp)) (f64_lit (3 / 10)) d
         in Val (if f64_le (f64_sub (f64_add (sd_HomeAlt d) (wp_Alt wp)) (f64_lit 1)) (sd_Alt d)
                 then enterPhase phaseCruise d else d))
     | phaseCruise \<Rightarrow>
         go_bind (get_int (sd_Waypoints d) (sd_CurrentWP d)) (\<lambda>wp.
         let (distance, d) = moveToward mt (wp_Lat wp) (wp_Lon wp) (f64_add (sd_HomeAlt d) (wp_Alt wp)) (f64_lit (1 / 2)) d
         in if f64_lt distance (f64_lit (1 / 10000)) then
              go_bind (go_rem (sd_CurrentWP d + 1) (int (length (sd_Waypoints d)))) (\<lambda>next.
              let d = d\<lparr>sd_CurrentWP := next\<rparr>
              in Val (if sd_CurrentWP d = 0 \<and> sint (sd_Battery d) < 30 then enterPhase phaseDescend d else d))
            else Val d)
     | phaseDescend \<Rightarrow>
         (let d = d\<lparr>sd_Alt := f64_sub (sd_Alt d) (f64_lit (3 / 10)), sd_Pitch := f64_lit (5 / 100)\<rparr>
          in Val (if f64_le (sd_Alt d) (f64_add (sd_HomeAlt d) (f64_lit 5)) then enterPhase phaseLand d else d))
     | phaseLand \<Rightarrow>
         (let d = d\<lparr>sd_Alt := f64_sub (sd_Alt d) (f64_lit (1 / 10))\<rparr>
          in Val (if f64_le (sd_Alt d) (f64_add (sd_HomeAlt d) (f64_lit (1 / 2)))
                  then enterPhase phaseDisarmed (d\<lparr>sd_Alt := sd_HomeAlt d, sd_Armed := False, sd_FlightMode := 0\<rparr>)
                  else d))
     | phaseDisarmed \<Rightarrow>
         Val (if 100 < sd_PhaseTimer d
              then enterPhase phasePrearm (d\<lparr>sd_Battery := 100, sd_BatteryV := f64_lit (168 / 10)\<rparr>) else d))"

definition drainBattery :: "f64 \<Rightarrow> SimDrone \<Rightarrow> SimDrone go" where
  "drainBattery draw d =
    (if sd_Armed d then
       (let drain = f64_add (f64_lit (2 / 100)) (f64_mul draw (f64_lit (1 / 100)));
            d = d\<lparr>sd_BatteryV := f64_sub (sd_BatteryV d) (f64_mul drain (f64_lit (1 / 100)))\<rparr>
        in go_bind (go_rem (sd_PhaseTimer d) 10) (\<lambda>r.
           Val (if r = 0 \<and> 0 < sint (sd_Battery d) then d\<lparr>sd_Battery := sd_Battery d - 1\<rparr> else d)))
     else Val d)"

record step_draws =
  dr_drain :: f64
  dr_lat :: f64
  dr_lon :: f64

definition gps_noise :: "f64 \<Rightarrow> f64" where
  "gps_noise draw = f64_mul (f64_sub draw (f64_lit (1 / 2))) (f64_lit (5 / 10000000))"

definition step :: "mathlib \<Rightarrow> step_draws \<Rightarrow> SimDrone \<Rightarrow> SimDrone go" where
  "step mt dr d =
    go_bind (phaseStep mt (d\<lparr>sd_PhaseTimer := sd_PhaseTimer d + 1\<rparr>)) (\<lambda>d.
    go_bind (drainBattery (dr_drain dr) d) (\<lambda>d.
    Val (d\<lparr>sd_Lat := f64_add (sd_Lat d) (gps_noise (dr_lat dr)), sd_Lon := f64_add (sd_Lon d) (gps_noise (dr_lon dr))\<rparr>)))"

section \<open>Payloads\<close>

definition put_uint64 :: "uint64 \<Rightarrow> byte list" where
  "put_uint64 w = map (\<lambda>i. ucast (drop_bit (8 * i) w)) [0..<8]"

definition unix_micro :: "instant \<Rightarrow> int" where
  "unix_micro t = t div 1000"

definition hb_payload :: "SimDrone \<Rightarrow> byte list go" where
  "hb_payload d =
    (let payload = replicate 9 0;
         customMode = push_bit 16 (ucast (sd_FlightMode d)) OR push_bit 24 4;
         baseMode = 0x01;
         baseMode = (if sd_Armed d then baseMode OR 0x80 else baseMode)
     in
     go_bind (write_at payload 0 (put_uint32 customMode)) (\<lambda>payload.
     go_bind (set_at payload 4 2) (\<lambda>payload.
     go_bind (set_at payload 5 12) (\<lambda>payload.
     go_bind (set_at payload 6 baseMode) (\<lambda>payload.
     go_bind (set_at payload 7 4) (\<lambda>payload.
     set_at payload 8 3))))))"

definition buildHeartbeat :: "SimDrone \<Rightarrow> (byte list \<times> SimDrone) go" where
  "buildHeartbeat d = go_bind (hb_payload d) (buildFrame d 0)"

definition gp_payload :: "mathlib \<Rightarrow> (f64 \<Rightarrow> int) \<Rightarrow> instant \<Rightarrow> SimDrone \<Rightarrow> byte list go" where
  "gp_payload mt wild now d =
    (let payload = replicate 28 0;
         speed = (if sd_Phase d = phaseCruise then f64_lit 10 else f64_lit 5);
         rad = f64_div (f64_mul (sd_Heading d) (f64_lit Pi)) (f64_lit 180);
         vx = f64_to_s16 wild (f64_mul (f64_mul speed (m_cos mt rad)) (f64_lit 100));
         vy = f64_to_s16 wild (f64_mul (f64_mul speed (m_sin mt rad)) (f64_lit 100))
     in
     go_bind (write_at payload 0 (put_uint32 (word_of_int (unix_milli now)))) (\<lambda>payload.
     go_bind (write_at payload 4 (put_uint32 (scale_s32 wild (sd_Lat d) 10000000))) (\<lambda>payload.
     go_bind (write_at payload 8 (put_uint32 (scale_s32 wild (sd_Lon d) 10000000))) (\<lambda>payload.
     go_bind (write_at payload 12 (put_uint32 (scale_s32 wild (sd_Alt d) 1000))) (\<lambda>payload.
     go_bind (write_at payload 16 (put_uint32 (scale_s32 wild (f64_sub (sd_Alt d) (sd_HomeAlt d)) 1000))) (\<lambda>payload.
     go_bind (write_at payload 20 (put_uint16 vx)) (\<lambda>payload.
     go_bind (write_at payload 22 (put_uint16 vy)) (\<lambda>payload.
     go_bind (write_at payload 24 (put_uint16 0)) (\<lambda>payload.
     write_at payload 26 (put_uint16 (f64_to_u16 wild (f64_mul (sd_Heading d) (f64_lit 100)))))))))))))"

definition buildGlobalPosition :: "mathlib \<Rightarrow> (f64 \<Rightarrow> int) \<Rightarrow> instant \<Rightarrow> SimDrone \<Rightarrow> (byte list \<times> SimDrone) go" where
  "buildGlobalPosition mt wild now d = go_bind (gp_payload mt wild now d) (buildFrame d 33)"

definition raw_payload :: "(f64 \<Rightarrow> int) \<Rightarrow> instant \<Rightarrow> SimDrone \<Rightarrow> byte list go" where
  "raw_payload wild now d =
    go_bind (write_at (replicate 30 0) 0 (put_uint64 (word_of_int (unix_micro now)))) (\<lambda>payload.
    go_bind (set_at payload 7 3) (\<lambda>payload.
    go_bind (write_at payload 8 (put_uint32 (scale_s32 wild (sd_Lat d) 10000000))) (\<lambda>payload.
    go_bind (write_at payload 12 (put_uint32 (scale_s32 wild (sd_Lon d) 10000000))) (\<lambda>payload.
    go_bind (write_at payload 16 (put_uint32 (scale_s32 wild (sd_Alt d) 1000))) (\<lambda>payload.
    go_bind (write_at payload 20 (put_uint16 120)) (\<lambda>payload.
    go_bind (write_at payload 22 (put_uint16 150)) (\<lambda>payload.
    go_bind (write_at payload 24 (put_uint16 500)) (\<lambda>payload.
    go_bind (write_at payload 26 (put_uint16 (f64_to_u16 wild (f64_mul (sd_Heading d) (f64_lit 100))))) (\<lambda>payload.
    set_at payload 29 12)))))))))"

definition buildGPSRaw :: "(f64 \<Rightarrow> int) \<Rightarrow> instant \<Rightarrow> SimDrone \<Rightarrow> (byte list \<times> SimDrone) go" where
  "buildGPSRaw wild now d = go_bind (raw_payload wild now d) (buildFrame d 24)"

definition att_payload :: "instant \<Rightarrow> SimDrone \<Rightarrow> byte list go" where
  "att_payload now d =
    go_bind (write_at (replicate 28 0) 0 (put_uint32 (word_of_int (unix_milli now)))) (\<lambda>payload.
    go_bind (write_at payload 4 (put_uint32 (f32_bits (sd_Roll d)))) (\<lambda>payload.
    go_bind (write_at payload 8 (put_uint32 (f32_bits (sd_Pitch d)))) (\<lambda>payload.
    go_bind (write_at payload 12 (put_uint32 (f32_bits (sd_Yaw d)))) (\<lambda>payload.
    go_bind (write_at payload 16 (put_uint32 (f32_bits (Fin (1 / 100))))) (\<lambda>payload.
    go_bind (write_at payload 20 (put_uint32 (f32_bits (Fin (5 / 1000))))) (\<lambda>payload.
    write_at payload 24 (put_uint32 (f32_bits (Fin (2 / 100))))))))))"

definition buildAttitude :: "instant \<Rightarrow> SimDrone \<Rightarrow> (byte list \<times> SimDrone) go" where
  "buildAttitude now d = go_bind (att_payload now d) (buildFrame d 30)"

text \<open>The two cell loops: one value at each of a list of cells.\<close>

fun putCells :: "uint16 \<Rightarrow> nat list \<Rightarrow> byte list \<Rightarrow> byte list go" where
  "putCells v [] payload = Val payload"
| "putCells v (i # is) payload =
    go_bind (write_at payload (10 + i * 2) (put_uint16 v)) (putCells v is)"

text \<open>\<^verbatim>\<open>rand.IntN(500)\<close> is the argument \<open>draw\<close>.\<close>

definition bat_payload :: "(f64 \<Rightarrow> int) \<Rightarrow> int \<Rightarrow> SimDrone \<Rightarrow> byte list go" where
  "bat_payload wild draw d =
    (let cellV = f64_to_u16 wild (f64_mul (f64_div (sd_BatteryV d) (f64_lit 4)) (f64_lit 1000));
         current = word_of_int (1500 + draw);
         current = (if \<not> sd_Armed d then 50 else current)
     in
     go_bind (putCells cellV [0..<4] (replicate 36 0)) (\<lambda>payload.
     go_bind (putCells 0xFFFF [4..<10] payload) (\<lambda>payload.
     go_bind (write_at payload 30 (put_uint16 current)) (\<lambda>payload.
     set_at payload 35 (sd_Battery d)))))"

definition buildBatteryStatus :: "(f64 \<Rightarrow> int) \<Rightarrow> int \<Rightarrow> SimDrone \<Rightarrow> (byte list \<times> SimDrone) go" where
  "buildBatteryStatus wild draw d = go_bind (bat_payload wild draw d) (buildFrame d 147)"

section \<open>A tick of the main loop\<close>

record tick_env =
  te_math :: mathlib
  te_wild :: "f64 \<Rightarrow> int"
  te_now :: instant
  te_draws :: "step_draws list"
  te_current :: int

text \<open>The message of a vehicle in this tick; no case of the switch leaves the buffer nil.\<close>

definition buildMessage :: "tick_env \<Rightarrow> int \<Rightarrow> SimDrone \<Rightarrow> (byte list \<times> SimDrone) go" where
  "buildMessage te kind d =
    (if kind = 0 then buildHeartbeat d
     else if kind = 1 then buildGlobalPosition (te_math te) (te_wild te) (te_now te) d
     else if kind = 2 then buildAttitude (te_now te) d
     else if kind = 3 then buildBatteryStatus (te_wild te) (te_current te) d
     else if kind = 4 then buildGPSRaw (te_wild te) (te_now te) d
     else Val ([], d))"

text \<open>The loop over the vehicles: the datagrams written and the vehicles after the tick.\<close>

fun tickLoop :: "tick_env \<Rightarrow> int \<Rightarrow> (step_draws \<times> SimDrone) list \<Rightarrow> (byte list list \<times> SimDrone list) go" where
  "tickLoop te kind [] = Val ([], [])"
| "tickLoop te kind ((dr, d) # ds) =
    go_bind (step (te_math te) dr d) (\<lambda>d.
    go_bind (buildMessage te kind d) (\<lambda>(buf, d).
    go_bind (tickLoop te kind ds) (\<lambda>(bufs, ds). Val (buf # bufs, d # ds))))"

text \<open>
  A tick: the datagrams, the vehicles, and the total; the progress line divides by the fleet times a
  hundred, at 64 bits.
\<close>

definition simTick :: "tick_env \<Rightarrow> int \<Rightarrow> uint64 \<Rightarrow> SimDrone list \<Rightarrow> (byte list list \<times> SimDrone list \<times> uint64) go" where
  "simTick te msgCycle totalSent sims =
    go_bind (go_rem msgCycle 5) (\<lambda>kind.
    go_bind (tickLoop te kind (zip (te_draws te) sims)) (\<lambda>(bufs, sims').
    let totalSent = totalSent + of_nat (length bufs) in
    if of_nat (length sims) * 100 = (0 :: uint64) then Panic IntegerDivideByZero
    else Val (bufs, sims', totalSent)))"

section \<open>The program\<close>

record sim_flags =
  sf_drones :: int
  sf_rate :: int
  sf_baseLat :: f64
  sf_baseLon :: f64
  sf_spread :: f64

datatype sim_event = Interrupt | Tick tick_env

text \<open>
  The select loop, over the outcomes of its select: the datagrams of every tick, the fleet and the
  total when the signal comes, or so far.
\<close>

fun simLoop :: "sim_event list \<Rightarrow> int \<Rightarrow> uint64 \<Rightarrow> SimDrone list \<Rightarrow> (byte list list list \<times> SimDrone list \<times> uint64) go" where
  "simLoop [] msgCycle totalSent sims = Val ([], sims, totalSent)"
| "simLoop (Interrupt # es) msgCycle totalSent sims = Val ([], sims, totalSent)"
| "simLoop (Tick te # es) msgCycle totalSent sims =
    go_bind (simTick te msgCycle totalSent sims) (\<lambda>(bufs, sims, totalSent).
    go_bind (simLoop es (wrap64 (msgCycle + 1)) totalSent sims) (\<lambda>(sent, result).
    Val (bufs # sent, result)))"

text \<open>
  \<^verbatim>\<open>main\<close> after the socket is open: \<open>draws i\<close> are the random numbers of vehicle \<open>i\<close>.  A rate of 0
  divides by zero, and \<^verbatim>\<open>time.NewTicker\<close> panics on a period that is not positive.
\<close>

definition simulate ::
    "mathlib \<Rightarrow> (nat \<Rightarrow> init_draws) \<Rightarrow> sim_flags \<Rightarrow> sim_event list \<Rightarrow> (byte list list list \<times> SimDrone list \<times> uint64) go" where
  "simulate mt draws fl es =
    (if sf_drones fl < 0 then Panic MakesliceLenOutOfRange
     else
       (let sims = newFleet mt (sf_baseLat fl) (sf_baseLon fl) (sf_spread fl) (map draws [0..<nat (sf_drones fl)]) in
        if sf_rate fl = 0 then Panic IntegerDivideByZero
        else if trunc_div second (sf_rate fl) \<le> 0 then Panic NonPositiveTicker
        else simLoop es 0 0 sims))"

end
