(* ===== verification/Simulator_Theorems.thy ===== *)
theory Simulator_Theorems
  imports Simulator
begin

text \<open>
  The simulator keeps its vehicles consistent through every flight, and what it sends is telemetry
  for the server: every datagram parses, is attributed to its vehicle, and carries the position, the
  attitude, the battery charge and the armed flag up to the resolution of the wire format.
\<close>

section \<open>Flights\<close>

definition airborne :: "flightPhase \<Rightarrow> bool" where
  "airborne ph \<longleftrightarrow> ph \<in> {phaseTakeoff, phaseClimb, phaseCruise, phaseDescend, phaseLand}"

text \<open>Armed and in automatic mode exactly in the phases in the air; the waypoint index is valid.\<close>

definition sim_ok :: "SimDrone \<Rightarrow> bool" where
  "sim_ok d \<longleftrightarrow>
     (sd_Armed d \<longleftrightarrow> airborne (sd_Phase d)) \<and> sd_FlightMode d = (if sd_Armed d then 4 else 0) \<and>
     0 \<le> sd_CurrentWP d \<and> sd_CurrentWP d < int (length (sd_Waypoints d)) \<and>
     0 \<le> sint (sd_Battery d) \<and> sint (sd_Battery d) \<le> 100"

text \<open>What flying leaves alone.\<close>

definition same_plan :: "SimDrone \<Rightarrow> SimDrone \<Rightarrow> bool" where
  "same_plan d d' \<longleftrightarrow>
     sd_Armed d' = sd_Armed d \<and> sd_FlightMode d' = sd_FlightMode d \<and> sd_Waypoints d' = sd_Waypoints d \<and>
     sd_CurrentWP d' = sd_CurrentWP d \<and> sd_Phase d' = sd_Phase d \<and> sd_Battery d' = sd_Battery d \<and>
     sl_SystemID d' = sl_SystemID d \<and> sl_Seq d' = sl_Seq d"

lemma moveToward_same: "moveToward mt lat lon alt speed d = (q, d') \<Longrightarrow> same_plan d d'"
  by (auto simp: moveToward_def flyTo_def adjustAlt_def Let_def same_plan_def split: if_splits)

lemma sint_minus_1:
  assumes "0 < sint (w :: 8 word)"
  shows "sint (w - 1) = sint w - 1"
proof -
  have "sint w < 128" using sint_range_size [of w] by (simp add: word_size)
  then have "signed_take_bit 7 (sint w - 1) = sint w - 1" using assms by (simp add: signed_take_bit_int_eq_self_iff)
  then show ?thesis by (simp add: sint_word_diff)
qed

lemma phaseStep_ok:
  assumes "sim_ok d"
  shows "\<exists>d'. phaseStep mt d = Val d' \<and> sim_ok d' \<and> sl_SystemID d' = sl_SystemID d \<and> sl_Seq d' = sl_Seq d"
proof -
  have wp: "get_int (sd_Waypoints d) (sd_CurrentWP d) = Val (sd_Waypoints d ! nat (sd_CurrentWP d))"
    using assms by (simp add: get_int_def sim_ok_def)
  have rem: "go_rem (sd_CurrentWP d + 1) (int (length (sd_Waypoints d))) =
      Val ((sd_CurrentWP d + 1) mod int (length (sd_Waypoints d)))"
    using assms by (intro go_rem_pos) (auto simp: sim_ok_def)
  show ?thesis
  proof (cases "sd_Phase d")
    case phaseClimb
    obtain q d1 where m: "moveToward mt (wp_Lat (sd_Waypoints d ! nat (sd_CurrentWP d))) (wp_Lon (sd_Waypoints d ! nat (sd_CurrentWP d)))
        (f64_add (sd_HomeAlt d) (wp_Alt (sd_Waypoints d ! nat (sd_CurrentWP d)))) (f64_lit (3 / 10)) d = (q, d1)"
      by fastforce
    show ?thesis
      using moveToward_same [OF m] assms phaseClimb
      by (simp add: phaseStep_def wp m same_plan_def sim_ok_def airborne_def enterPhase_def)
  next
    case phaseCruise
    obtain q d1 where m: "moveToward mt (wp_Lat (sd_Waypoints d ! nat (sd_CurrentWP d))) (wp_Lon (sd_Waypoints d ! nat (sd_CurrentWP d)))
        (f64_add (sd_HomeAlt d) (wp_Alt (sd_Waypoints d ! nat (sd_CurrentWP d)))) (f64_lit (1 / 2)) d = (q, d1)"
      by fastforce
    have "0 < int (length (sd_Waypoints d))" using assms by (auto simp: sim_ok_def)
    note n = this pos_mod_sign [OF this, of "sd_CurrentWP d + 1"] pos_mod_bound [OF this, of "sd_CurrentWP d + 1"]
    show ?thesis
      using moveToward_same [OF m] assms phaseCruise n
      by (simp add: phaseStep_def wp m rem same_plan_def sim_ok_def airborne_def enterPhase_def Let_def)
  qed (use assms in \<open>simp_all add: phaseStep_def Let_def sim_ok_def airborne_def enterPhase_def\<close>)
qed

lemma drainBattery_ok:
  assumes "sim_ok d"
  shows "\<exists>d'. drainBattery draw d = Val d' \<and> sim_ok d' \<and> sl_SystemID d' = sl_SystemID d \<and> sl_Seq d' = sl_Seq d"
proof (cases "sd_Armed d")
  case True
  obtain r where "go_rem (sd_PhaseTimer d) 10 = Val r" by (simp add: go_rem_def)
  then show ?thesis
    using assms True by (auto simp: drainBattery_def Let_def sim_ok_def sint_minus_1)
qed (use assms in \<open>simp add: drainBattery_def\<close>)

lemma step_ok:
  assumes "sim_ok d"
  shows "\<exists>d'. step mt dr d = Val d' \<and> sim_ok d' \<and> sl_SystemID d' = sl_SystemID d \<and> sl_Seq d' = sl_Seq d"
proof -
  have "sim_ok (d\<lparr>sd_PhaseTimer := sd_PhaseTimer d + 1\<rparr>)" using assms by (simp add: sim_ok_def)
  then obtain d1 where d1: "phaseStep mt (d\<lparr>sd_PhaseTimer := sd_PhaseTimer d + 1\<rparr>) = Val d1" "sim_ok d1"
    "sl_SystemID d1 = sl_SystemID d" "sl_Seq d1 = sl_Seq d"
    using phaseStep_ok [of "d\<lparr>sd_PhaseTimer := sd_PhaseTimer d + 1\<rparr>" mt] by auto
  then obtain d2 where "drainBattery (dr_drain dr) d1 = Val d2" "sim_ok d2" "sl_SystemID d2 = sl_SystemID d"
    "sl_Seq d2 = sl_Seq d"
    using drainBattery_ok [of d1 "dr_drain dr"] by auto
  then show ?thesis using d1 by (simp add: step_def sim_ok_def)
qed

lemma newSimDrone_ok:
  assumes "id_waypoints dr \<noteq> []"
  shows "sim_ok (newSimDrone mt dr sysid lat lon spread)" "sl_SystemID (newSimDrone mt dr sysid lat lon spread) = sysid"
  using assms by (simp_all add: newSimDrone_def Let_def sim_ok_def airborne_def enumerate_eq_zip)

text \<open>A flight: any number of ticks, each with its draws.\<close>

fun fly :: "mathlib \<Rightarrow> step_draws list \<Rightarrow> SimDrone \<Rightarrow> SimDrone go" where
  "fly mt [] d = Val d"
| "fly mt (dr # drs) d = go_bind (step mt dr d) (fly mt drs)"

lemma fly_ok: "sim_ok d \<Longrightarrow> \<exists>d'. fly mt drs d = Val d' \<and> sim_ok d' \<and> sl_SystemID d' = sl_SystemID d"
proof (induction drs arbitrary: d)
  case (Cons dr drs)
  then obtain d1 where "step mt dr d = Val d1" "sim_ok d1" "sl_SystemID d1 = sl_SystemID d"
    using step_ok by blast
  then show ?case using Cons.IH [of d1] by auto
qed simp

text \<open>
  A simulated vehicle with at least one waypoint flies any number of ticks without a panic,
  whatever the draws and the mathematical library: its waypoint index stays valid and its charge
  within 0 to 100 percent, and it is armed and in automatic mode exactly in the phases in the air.
\<close>

theorem flight_invariant:
  assumes "id_waypoints dr \<noteq> []"
  shows "\<exists>d. fly mt drs (newSimDrone mt dr sysid lat lon spread) = Val d \<and> sl_SystemID d = sysid \<and>
    (sd_Armed d \<longleftrightarrow> sd_Phase d \<notin> {phasePrearm, phaseDisarmed}) \<and> sd_FlightMode d = (if sd_Armed d then 4 else 0) \<and>
    0 \<le> sd_CurrentWP d \<and> sd_CurrentWP d < int (length (sd_Waypoints d)) \<and> sint (sd_Battery d) \<in> {0..100}"
proof -
  obtain d where d: "fly mt drs (newSimDrone mt dr sysid lat lon spread) = Val d" "sim_ok d" "sl_SystemID d = sysid"
    using fly_ok [OF newSimDrone_ok(1) [OF assms]] newSimDrone_ok(2) [OF assms] by metis
  then show ?thesis by (cases "sd_Phase d") (auto simp: sim_ok_def airborne_def)
qed

theorem flight_invariant_witness:
  "\<exists>d. fly \<lparr>m_cos = (\<lambda>x. x), m_sin = (\<lambda>x. x), m_sqrt = (\<lambda>x. x), m_atan2 = (\<lambda>x y. x), m_mod = (\<lambda>x y. x)\<rparr>
     [\<lparr>dr_drain = Fin 0, dr_lat = Fin 0, dr_lon = Fin 0\<rparr>]
     (newSimDrone \<lparr>m_cos = (\<lambda>x. x), m_sin = (\<lambda>x. x), m_sqrt = (\<lambda>x. x), m_atan2 = (\<lambda>x y. x), m_mod = (\<lambda>x y. x)\<rparr>
       \<lparr>id_angle = Fin 0, id_waypoints = [(Fin 0, Fin 0)], id_lat = Fin 0, id_lon = Fin 0\<rparr> 3 (Fin 37) (Fin 5) (Fin 1)) = Val d \<and>
   sl_SystemID d = 3"
  using flight_invariant [of "\<lparr>id_angle = Fin 0, id_waypoints = [(Fin 0, Fin 0)], id_lat = Fin 0, id_lon = Fin 0\<rparr>"
      "\<lparr>m_cos = (\<lambda>x. x), m_sin = (\<lambda>x. x), m_sqrt = (\<lambda>x. x), m_atan2 = (\<lambda>x y. x), m_mod = (\<lambda>x y. x)\<rparr>"
      "[\<lparr>dr_drain = Fin 0, dr_lat = Fin 0, dr_lon = Fin 0\<rparr>]" 3 "Fin 37" "Fin 5" "Fin 1"]
  by auto

section \<open>What the server makes of a datagram\<close>

text \<open>The payloads, byte by byte.\<close>

lemma put_uint64_eq: "\<exists>a b c d e f g h. put_uint64 w = [a, b, c, d, e, f, g, h]"
  by (simp add: put_uint64_def upt_rec)

lemma hb_payload_eq:
  "hb_payload d = Val (put_uint32 (push_bit 16 (ucast (sd_FlightMode d)) OR push_bit 24 4) @
     [2, 12, if sd_Armed d then 0x81 else 1, 4, 3])"
  by (simp add: hb_payload_def Let_def write_at_def set_at_def put_uint32_def eval_nat_numeral)

lemma write_first: "length bs \<le> n \<Longrightarrow> write_at (replicate n 0) 0 bs = Val (bs @ replicate (n - length bs) 0)"
  by (simp add: write_at_def)

lemma write_next:
  "length h = i \<Longrightarrow> length bs \<le> n \<Longrightarrow>
     write_at (h @ replicate n 0) i bs = Val ((h @ bs) @ replicate (n - length bs) 0)"
  by (simp add: write_at_def)

lemma gp_payload_eq:
  "\<exists>t rel vx vy. gp_payload mt wild now d =
     Val (put_uint32 t @ put_uint32 (scale_s32 wild (sd_Lat d) 10000000) @
       put_uint32 (scale_s32 wild (sd_Lon d) 10000000) @ put_uint32 (scale_s32 wild (sd_Alt d) 1000) @
       put_uint32 rel @ put_uint16 vx @ put_uint16 vy @ put_uint16 0 @
       put_uint16 (f64_to_u16 wild (f64_mul (sd_Heading d) (f64_lit 100))))"
proof -
  have "\<exists>t rel vx vy. gp_payload mt wild now d =
     Val ((((((((put_uint32 t @ put_uint32 (scale_s32 wild (sd_Lat d) 10000000)) @
       put_uint32 (scale_s32 wild (sd_Lon d) 10000000)) @ put_uint32 (scale_s32 wild (sd_Alt d) 1000)) @
       put_uint32 rel) @ put_uint16 vx) @ put_uint16 vy) @ put_uint16 0) @
       put_uint16 (f64_to_u16 wild (f64_mul (sd_Heading d) (f64_lit 100))))"
    unfolding gp_payload_def Let_def
    by (simp add: write_first write_next del: append_assoc) blast
  then show ?thesis by simp
qed

lemma raw_payload_eq:
  "\<exists>t. length t = 7 \<and> raw_payload wild now d =
     Val (t @ [3] @ put_uint32 (scale_s32 wild (sd_Lat d) 10000000) @
       put_uint32 (scale_s32 wild (sd_Lon d) 10000000) @ put_uint32 (scale_s32 wild (sd_Alt d) 1000) @
       put_uint16 120 @ put_uint16 150 @ put_uint16 500 @
       put_uint16 (f64_to_u16 wild (f64_mul (sd_Heading d) (f64_lit 100))) @ [0, 12])"
proof -
  obtain a b c e f g h i where t: "put_uint64 (word_of_int (unix_micro now)) = [a, b, c, e, f, g, h, i]"
    using put_uint64_eq by blast
  have l: "length (put_uint64 (word_of_int (unix_micro now))) = 8" by (simp add: t)
  have set7: "set_at (put_uint64 (word_of_int (unix_micro now)) @ replicate n 0) 7 3 =
      Val ([a, b, c, e, f, g, h, 3] @ replicate n 0)" for n
    by (simp add: t set_at_def)
  have set29: "length r = 28 \<Longrightarrow> set_at (r @ replicate 2 0) 29 12 = Val (r @ [0, 12])" for r
    by (simp add: set_at_def list_update_append numeral_2_eq_2)
  have "raw_payload wild now d =
     Val ((((((([a, b, c, e, f, g, h, 3] @ put_uint32 (scale_s32 wild (sd_Lat d) 10000000)) @
       put_uint32 (scale_s32 wild (sd_Lon d) 10000000)) @ put_uint32 (scale_s32 wild (sd_Alt d) 1000)) @
       put_uint16 120) @ put_uint16 150) @ put_uint16 500) @
       put_uint16 (f64_to_u16 wild (f64_mul (sd_Heading d) (f64_lit 100))) @ [0, 12])"
    unfolding raw_payload_def
    by (simp add: write_first write_next l set7 set29 del: append_assoc append_Cons)
  then show ?thesis by (intro exI [of _ "[a, b, c, e, f, g, h]"]) simp
qed

lemma att_payload_eq:
  "\<exists>t rest. length rest = 12 \<and> att_payload now d =
     Val (put_uint32 t @ put_uint32 (f32_bits (sd_Roll d)) @ put_uint32 (f32_bits (sd_Pitch d)) @
       put_uint32 (f32_bits (sd_Yaw d)) @ rest)"
proof -
  let ?rest = "put_uint32 (f32_bits (Fin (1 / 100))) @ put_uint32 (f32_bits (Fin (5 / 1000))) @ put_uint32 (f32_bits (Fin (2 / 100)))"
  have "att_payload now d =
     Val ((((((put_uint32 (word_of_int (unix_milli now)) @ put_uint32 (f32_bits (sd_Roll d))) @
       put_uint32 (f32_bits (sd_Pitch d))) @ put_uint32 (f32_bits (sd_Yaw d))) @
       put_uint32 (f32_bits (Fin (1 / 100)))) @ put_uint32 (f32_bits (Fin (5 / 1000)))) @ put_uint32 (f32_bits (Fin (2 / 100))))"
    unfolding att_payload_def
    by (simp add: write_first write_next del: append_assoc)
  then show ?thesis by (intro exI [of _ "word_of_int (unix_milli now)"] exI [of _ ?rest]) simp
qed

lemma length_write_at: "write_at buf i bs = Val buf' \<Longrightarrow> length buf' = length buf"
  by (auto simp: write_at_def split: if_splits)

lemma putCells_Val:
  "\<forall>i\<in>set is. 12 + i * 2 \<le> length p \<Longrightarrow> \<exists>p'. putCells v is p = Val p' \<and> length p' = length p"
proof (induction "is" arbitrary: p)
  case (Cons i "is")
  obtain p1 where p1: "write_at p (10 + i * 2) (put_uint16 v) = Val p1" "length p1 = length p"
    using Cons.prems by (auto simp: write_at_def intro!: that)
  then show ?case using Cons.IH [of p1] Cons.prems by simp
qed simp

lemma bat_payload_eq:
  "\<exists>front. length front = 35 \<and> bat_payload wild draw d = Val (front @ [sd_Battery d])"
proof -
  obtain p1 where p1: "putCells (f64_to_u16 wild (f64_mul (f64_div (sd_BatteryV d) (f64_lit 4)) (f64_lit 1000)))
      [0..<4] (replicate 36 0) = Val p1" "length p1 = 36"
    using putCells_Val [of "[0..<4]" "replicate 36 0"] by (auto simp del: upt_Suc)
  obtain p2 where p2: "putCells 0xFFFF [4..<10] p1 = Val p2" "length p2 = 36"
    using putCells_Val [of "[4..<10]" p1] p1 by auto
  obtain p3 where p3: "write_at p2 30 (put_uint16 (if \<not> sd_Armed d then 50 else word_of_int (1500 + draw))) = Val p3"
    "length p3 = 36"
    using p2 by (simp add: write_at_def)
  have "bat_payload wild draw d = Val (p3[35 := sd_Battery d])"
    unfolding bat_payload_def Let_def p1(1) go_bind.simps p2(1) p3(1) using p3(2) by (simp add: set_at_def)
  moreover have "p3[35 := sd_Battery d] = take 35 p3 @ [sd_Battery d]"
    using p3(2) by (simp add: upd_conv_take_nth_drop)
  ultimately show ?thesis using p3(2) by (intro exI [of _ "take 35 p3"]) simp
qed

text \<open>A vehicle whose state the wire formats can hold, and what arriving intact means.\<close>

definition flyable :: "SimDrone \<Rightarrow> bool" where
  "flyable d \<longleftrightarrow>
     ValidateSystemID (sl_SystemID d) \<and> sint (sd_Battery d) \<le> 100 \<and>
     is_finite (sd_Lat d) \<and> \<bar>fval (sd_Lat d)\<bar> \<le> 90 \<and> is_finite (sd_Lon d) \<and> \<bar>fval (sd_Lon d)\<bar> \<le> 180 \<and>
     is_finite (sd_Alt d) \<and> \<bar>fval (sd_Alt d)\<bar> \<le> 100000 \<and>
     (\<forall>x\<in>{sd_Roll d, sd_Pitch d, sd_Yaw d}. is_finite x \<and> \<bar>fval x\<bar> < 2 ^ 127)"

definition near :: "rat \<Rightarrow> f64 \<Rightarrow> f64 \<Rightarrow> bool" where
  "near e x y \<longleftrightarrow> is_finite y \<and> \<bar>fval y - fval x\<bar> \<le> e"

definition near_angle :: "f64 \<Rightarrow> f64 \<Rightarrow> bool" where
  "near_angle x y \<longleftrightarrow> near (\<bar>fval x\<bar> / 2 ^ 24 + 2 powi (- 150)) x y"

definition tells :: "SimDrone \<Rightarrow> Payload \<Rightarrow> bool" where
  "tells d p \<longleftrightarrow>
    (case p of
       PHeartbeat (Some hb) \<Rightarrow> hb_Armed hb = sd_Armed d \<and> hb_Type hb = 2 \<and> hb_BaseMode hb AND 1 \<noteq> 0 \<and>
         hb_CustomMode hb = push_bit 16 (ucast (sd_FlightMode d)) OR push_bit 24 4
     | PGPS (Some g) \<Rightarrow> near (100001 / 10 ^ 12) (sd_Lat d) (gps_Latitude g) \<and>
         near (100001 / 10 ^ 12) (sd_Lon d) (gps_Longitude g) \<and> near (100001 / 10 ^ 8) (sd_Alt d) (gps_Altitude g)
     | PAttitude (Some a) \<Rightarrow> near_angle (sd_Roll d) (att_Roll a) \<and> near_angle (sd_Pitch d) (att_Pitch a) \<and>
         near_angle (sd_Yaw d) (att_Yaw a)
     | PBattery (Some b) \<Rightarrow> bat_Remaining b = sd_Battery d
     | _ \<Rightarrow> False)"

lemma near_scaled:
  assumes "is_finite x" "\<bar>fval x\<bar> \<le> of_int b" "0 \<le> b" "1 \<le> c" "b * c < 2 ^ 31" "c \<le> 2 ^ 30"
  shows "near ((1 + 1 / 100000) / of_int c) x (Fin (fround (of_int (sint (scale_s32 wild x (of_int c))) / of_int c)))"
  using scale_s32_finite [OF assms(1-5), of wild] scale_there_and_back [OF assms(2-6)] assms(6)
  by (simp add: near_def)

lemma near_f32:
  assumes "is_finite x" "\<bar>fval x\<bar> < 2 ^ 127"
  shows "near_angle x (f64_of_f32_bits (f32_bits x))"
proof (cases x)
  case (Fin q)
  show ?thesis
  proof (cases "q = 0")
    case True
    then show ?thesis using Fin by (simp add: near_angle_def near_def f32_bits_def f64_of_f32_bits_def Let_def)
  next
    case False
    then show ?thesis
      using Fin f32_bits_value [of q] f32_round_error [of q] assms(2) by (auto simp: near_angle_def near_def)
  qed
next
  case NZero
  have "f64_of_f32_bits 0x80000000 = NZero"
    using word_fields [of "2 ^ 31"] by (simp add: f64_of_f32_bits_def Let_def)
  then show ?thesis using NZero by (simp add: near_angle_def near_def f32_bits_def)
qed (use assms in simp_all)

lemmas le_at_simps = le32_at_def le16_at_def put_uint32_def put_uint16_def u32_of_put u16_of_put

lemma position_reported:
  assumes "flyable d" "gps_Latitude g = Fin (fround (of_int (sint (scale_s32 wild (sd_Lat d) 10000000)) / 10000000))"
    "gps_Longitude g = Fin (fround (of_int (sint (scale_s32 wild (sd_Lon d) 10000000)) / 10000000))"
    "gps_Altitude g = Fin (fround (of_int (sint (scale_s32 wild (sd_Alt d) 1000)) / 1000))"
  shows "tells d (PGPS (Some g))"
    "raw_in_range (sint (scale_s32 wild (sd_Lat d) 10000000)) (sint (scale_s32 wild (sd_Lon d) 10000000))
      (sint (scale_s32 wild (sd_Alt d) 1000))"
proof -
  have fin: "is_finite (sd_Lat d)" "\<bar>fval (sd_Lat d)\<bar> \<le> 90" "is_finite (sd_Lon d)" "\<bar>fval (sd_Lon d)\<bar> \<le> 180"
    "is_finite (sd_Alt d)" "\<bar>fval (sd_Alt d)\<bar> \<le> 100000"
    using assms(1) by (simp_all add: flyable_def)
  have "near (100001 / 10 ^ 12) (sd_Lat d) (gps_Latitude g)" "near (100001 / 10 ^ 12) (sd_Lon d) (gps_Longitude g)"
    "near (100001 / 10 ^ 8) (sd_Alt d) (gps_Altitude g)"
    using near_scaled [of "sd_Lat d" 90 10000000 wild] near_scaled [of "sd_Lon d" 180 10000000 wild]
      near_scaled [of "sd_Alt d" 100000 1000 wild] fin
    by (simp_all add: assms(2-4))
  then show "tells d (PGPS (Some g))" by (simp add: tells_def)
  have "\<bar>sint (scale_s32 wild (sd_Lat d) 10000000)\<bar> \<le> 900000000" "\<bar>sint (scale_s32 wild (sd_Lon d) 10000000)\<bar> \<le> 1800000000"
    "\<bar>sint (scale_s32 wild (sd_Alt d) 1000)\<bar> \<le> 100000000"
    using scale_s32_finite [of "sd_Lat d" 90 10000000 wild, THEN conjunct2]
      scale_s32_finite [of "sd_Lon d" 180 10000000 wild, THEN conjunct2]
      scale_s32_finite [of "sd_Alt d" 100000 1000 wild, THEN conjunct2] fin by simp_all
  then show "raw_in_range (sint (scale_s32 wild (sd_Lat d) 10000000)) (sint (scale_s32 wild (sd_Lon d) 10000000))
      (sint (scale_s32 wild (sd_Alt d) 1000))"
    unfolding raw_in_range_def by linarith
qed

text \<open>Each payload, as the server checks and reads it.\<close>

lemma hb_checked:
  assumes "hb_payload d = Val p"
  shows "\<exists>v. checked_payload (sent_frame seq sys 0 p) = Some v \<and> tells d v \<and> length p = 9"
proof -
  define cm :: uint32 where "cm = push_bit 16 (ucast (sd_FlightMode d)) OR push_bit 24 4"
  have p: "p = put_uint32 cm @ [2, 12, if sd_Armed d then 0x81 else 1, 4, 3]"
    using assms by (simp add: hb_payload_eq cm_def)
  then have "le32_at p 0 = cm" "length p = 9" "p ! 4 = 2" "p ! 6 = (if sd_Armed d then 0x81 else 1)"
    by (simp_all add: le_at_simps)
  then show ?thesis
    by (simp add: checked_payload_def payload_of_def sent_frame_def protocol_consts tells_def cm_def)
qed

lemma gp_checked:
  assumes "gp_payload mt wild now d = Val p" "flyable d"
  shows "\<exists>v. checked_payload (sent_frame seq sys 33 p) = Some v \<and> tells d v \<and> length p = 28"
proof -
  obtain t rel vx vy where p: "p = put_uint32 t @ put_uint32 (scale_s32 wild (sd_Lat d) 10000000) @
       put_uint32 (scale_s32 wild (sd_Lon d) 10000000) @ put_uint32 (scale_s32 wild (sd_Alt d) 1000) @
       put_uint32 rel @ put_uint16 vx @ put_uint16 vy @ put_uint16 0 @
       put_uint16 (f64_to_u16 wild (f64_mul (sd_Heading d) (f64_lit 100)))"
    using gp_payload_eq [of mt wild now d] assms(1) by auto
  let ?f = "sent_frame seq sys 33 p"
  have at: "le32_at p 4 = scale_s32 wild (sd_Lat d) 10000000" "le32_at p 8 = scale_s32 wild (sd_Lon d) 10000000"
    "le32_at p 12 = scale_s32 wild (sd_Alt d) 1000" "length p = 28"
    by (simp_all add: p le_at_simps)
  have f: "payload_of ?f = PGPS (Some (gp_position p))" "raw_ok ?f"
    using at position_reported(2) [OF assms(2), of "gp_position p" wild]
    by (simp_all add: payload_of_def sent_frame_def protocol_consts raw_ok_def raw_lla_def gp_position_def)
  then show ?thesis
    using at position_reported(1) [OF assms(2), of "wrapped (gp_position p)" wild]
    by (simp add: checked_payload_def wrapped_def gp_position_def)
qed

lemma raw_checked:
  assumes "raw_payload wild now d = Val p" "flyable d"
  shows "\<exists>v. checked_payload (sent_frame seq sys 24 p) = Some v \<and> tells d v \<and> length p = 30"
proof -
  obtain t where t: "length t = 7" "p = t @ [3] @ put_uint32 (scale_s32 wild (sd_Lat d) 10000000) @
       put_uint32 (scale_s32 wild (sd_Lon d) 10000000) @ put_uint32 (scale_s32 wild (sd_Alt d) 1000) @
       put_uint16 120 @ put_uint16 150 @ put_uint16 500 @
       put_uint16 (f64_to_u16 wild (f64_mul (sd_Heading d) (f64_lit 100))) @ [0, 12]"
    using raw_payload_eq [of wild now d] assms(1) by auto
  let ?f = "sent_frame seq sys 24 p"
  have at: "le32_at p 8 = scale_s32 wild (sd_Lat d) 10000000" "le32_at p 12 = scale_s32 wild (sd_Lon d) 10000000"
    "le32_at p 16 = scale_s32 wild (sd_Alt d) 1000" "length p = 30"
    using t(1) by (simp_all add: t(2) le_at_simps nth_append nth_Cons')
  have f: "payload_of ?f = PGPS (Some (raw_position p))" "raw_ok ?f"
    using at position_reported(2) [OF assms(2), of "raw_position p" wild]
    by (simp_all add: payload_of_def sent_frame_def protocol_consts raw_ok_def raw_lla_def raw_position_def)
  then show ?thesis
    using at position_reported(1) [OF assms(2), of "wrapped (raw_position p)" wild]
    by (simp add: checked_payload_def wrapped_def raw_position_def)
qed

lemma att_checked:
  assumes "att_payload now d = Val p" "flyable d"
  shows "\<exists>v. checked_payload (sent_frame seq sys 30 p) = Some v \<and> tells d v \<and> length p = 28"
proof -
  obtain t rest where p: "length rest = 12" "p = put_uint32 t @ put_uint32 (f32_bits (sd_Roll d)) @
      put_uint32 (f32_bits (sd_Pitch d)) @ put_uint32 (f32_bits (sd_Yaw d)) @ rest"
    using att_payload_eq [of now d] assms(1) by auto
  have at: "le32_at p 4 = f32_bits (sd_Roll d)" "le32_at p 8 = f32_bits (sd_Pitch d)" "le32_at p 12 = f32_bits (sd_Yaw d)"
    "length p = 28"
    using p(1) by (simp_all add: p(2) le_at_simps)
  then show ?thesis
    using near_f32 assms(2)
    by (simp add: checked_payload_def payload_of_def sent_frame_def protocol_consts tells_def attitude_at_def flyable_def)
qed

lemma bat_checked:
  assumes "bat_payload wild draw d = Val p" "flyable d"
  shows "\<exists>v. checked_payload (sent_frame seq sys 147 p) = Some v \<and> tells d v \<and> length p = 36"
proof -
  obtain front where p: "length front = 35" "p = front @ [sd_Battery d]"
    using bat_payload_eq [of wild draw d] assms(1) by auto
  then have "p ! 35 = sd_Battery d" "length p = 36" by (simp_all add: nth_append)
  then show ?thesis
    using assms(2)
    by (simp add: checked_payload_def payload_of_def sent_frame_def protocol_consts tells_def battery_at_def flyable_def)
qed

section \<open>Every datagram is telemetry\<close>

lemma built_decodes:
  assumes "\<exists>v. checked_payload (sent_frame (sl_Seq d) (sl_SystemID d) m p) = Some v \<and> tells d v \<and> length p = n"
    "n \<le> 255" "m < 2 ^ 24" "m \<noteq> 245" "flyable d"
  shows "\<exists>bytes ev. buildFrame d m p = Val (bytes, d\<lparr>sl_Seq := sl_Seq d + 1\<rparr>) \<and>
    DecodePacket dec t (bytes @ rest) addr = Val (Inr ev) \<and>
    ev_DroneID ev = \<lparr>SystemID = sl_SystemID d, ComponentID = 1\<rparr> \<and> tells d (ev_Payload ev)"
proof -
  obtain v where v: "checked_payload (sent_frame (sl_Seq d) (sl_SystemID d) m p) = Some v" "tells d v" "length p = n"
    using assms(1) by blast
  have b: "buildFrame d m p = Val (frame_bytes (sl_Seq d) (sl_SystemID d) m p, d\<lparr>sl_Seq := sl_Seq d + 1\<rparr>)"
    by (rule buildFrame_eq)
  show ?thesis
    using simulator.sent_decodes [OF b _ assms(3,4) _ v(1), of dec t rest addr] assms(2,5) v b
    by (simp add: flyable_def)
qed

lemma message_arrives:
  assumes "flyable d" "kind \<in> {0..4}"
  shows "\<exists>bytes ev. buildMessage te kind d = Val (bytes, d\<lparr>sl_Seq := sl_Seq d + 1\<rparr>) \<and>
    DecodePacket dec t (bytes @ rest) addr = Val (Inr ev) \<and>
    ev_DroneID ev = \<lparr>SystemID = sl_SystemID d, ComponentID = 1\<rparr> \<and> tells d (ev_Payload ev)"
proof -
  consider "kind = 0" | "kind = 1" | "kind = 2" | "kind = 3" | "kind = 4" using assms(2) by fastforce
  then show ?thesis
  proof cases
    case 1
    obtain p where p: "hb_payload d = Val p" by (simp add: hb_payload_eq)
    show ?thesis
      using built_decodes [OF hb_checked [OF p] _ _ _ assms(1)] by (simp add: 1 buildMessage_def buildHeartbeat_def p)
  next
    case 2
    obtain p where p: "gp_payload (te_math te) (te_wild te) (te_now te) d = Val p" using gp_payload_eq by blast
    show ?thesis
      using built_decodes [OF gp_checked [OF p assms(1)] _ _ _ assms(1)]
      by (simp add: 2 buildMessage_def buildGlobalPosition_def p)
  next
    case 3
    obtain p where p: "att_payload (te_now te) d = Val p" using att_payload_eq by blast
    show ?thesis
      using built_decodes [OF att_checked [OF p assms(1)] _ _ _ assms(1)]
      by (simp add: 3 buildMessage_def buildAttitude_def p)
  next
    case 4
    obtain p where p: "bat_payload (te_wild te) (te_current te) d = Val p" using bat_payload_eq by blast
    show ?thesis
      using built_decodes [OF bat_checked [OF p assms(1)] _ _ _ assms(1)]
      by (simp add: 4 buildMessage_def buildBatteryStatus_def p)
  next
    case 5
    obtain p where p: "raw_payload (te_wild te) (te_now te) d = Val p" using raw_payload_eq by blast
    show ?thesis
      using built_decodes [OF raw_checked [OF p assms(1)] _ _ _ assms(1)]
      by (simp add: 5 buildMessage_def buildGPSRaw_def p)
  qed
qed


definition idle_math :: mathlib where
  "idle_math = \<lparr>m_cos = (\<lambda>x. x), m_sin = (\<lambda>x. x), m_sqrt = (\<lambda>x. x), m_atan2 = (\<lambda>x y. x), m_mod = (\<lambda>x y. x)\<rparr>"

definition idle_env :: tick_env where
  "idle_env = \<lparr>te_math = idle_math, te_wild = (\<lambda>_. 0), te_now = 0, te_draws = [], te_current = 0\<rparr>"

definition parked :: SimDrone where
  "parked = \<lparr>sl_SystemID = 7, sl_Seq = 255, sd_Lat = Fin (75 / 2), sd_Lon = Fin (- 122), sd_Alt = Fin 10, sd_HomeAlt = Fin 10,
     sd_Heading = Fin 0, sd_Roll = Fin 0, sd_Pitch = NZero, sd_Yaw = Fin (1 / 2), sd_Battery = 80, sd_BatteryV = Fin 16,
     sd_Armed = False, sd_FlightMode = 0, sd_Waypoints = [], sd_CurrentWP = 0, sd_Phase = phasePrearm, sd_PhaseTimer = 0\<rparr>"


text \<open>
  With an empty fleet the first tick panics: the period of the progress line is the number of
  vehicles times a hundred.
\<close>

lemma empty_fleet_panics: "simTick te msgCycle totalSent [] = Panic IntegerDivideByZero"
  by (simp add: simTick_def go_rem_def go_simps)

end
