(* ===== verification/Server_Theorems.thy ===== *)
theory Server_Theorems
  imports Server Mavlink_Theorems Websocket_Theorems Export_Theorems Simulator_Theorems "HOL-Library.Multiset"
begin

text \<open>The properties that span the components of the server.\<close>

section \<open>Start-up\<close>

lemma NewWebSocketServer_outcome:
  assumes "NewWebSocketServer cfg hub = (r, hub')"
  shows "if ps_SubscriberBufferSize (hub_cfg hub) < 0 then r = Panic MakesliceLenOutOfRange
    else \<exists>ws. r = Val ws \<and> ''/api/health'' \<in> set (wss_mux ws)"
  using assms
  by (auto simp: NewWebSocketServer_def Subscribe_def make_chan_def act_simps act_bind_def act_then_def HandleFunc_eq
      registerExportHandlers_def Let_def split: if_splits)

text \<open>
  The main goroutine never gets past its start-up: whatever the configuration, registering the
  expanded health handler panics, as the web server has registered the same pattern (a negative buffer
  size of the subscribers panics even before).
\<close>

theorem startup_panics:
  "serverStartup parse_v6 cfg =
    Panic (if ps_SubscriberBufferSize (cfg_PubSub cfg) < 0 then MakesliceLenOutOfRange else PatternConflict)"
proof -
  obtain r hub where r: "NewWebSocketServer (cfg_WebSocket cfg) (NewHub (cfg_PubSub cfg)) = (r, hub)"
    by (cases "NewWebSocketServer (cfg_WebSocket cfg) (NewHub (cfg_PubSub cfg))")
  have "hub_cfg (NewHub (cfg_PubSub cfg)) = cfg_PubSub cfg" by (simp add: NewHub_def)
  then show ?thesis
    using NewWebSocketServer_outcome [OF r]
    by (auto simp: serverStartup_def newServer_def make_chan_def r registerExpandedHealth_def RegisterHandler_def
        HandleFunc_eq split: if_splits)
qed

section \<open>The event processor\<close>

interpretation processor_service: service mgr_ok ProcessEvent
  by unfold_locales (auto simp: ProcessEvent_eq after_event_ok)

text \<open>
  The event processor handles every event it receives before the shutdown, in order and once, those
  after an event whose nil payload makes the handler panic included.
\<close>

theorem processor_handles_all:
  assumes "mgr_run (NewManager cfg u) ops m" "updates_open (NewManager cfg u)"
  shows "eventProcessor sels m = fold (\<lambda>ev m. snd (ProcessEvent ev m)) (items_until sels) m"
  using processor_service.supervised_handles_all [of m sels] run_view [OF assms] by (simp add: eventProcessor_def)

theorem processor_handles_all_witness:
  "eventProcessor [Received (sample_event 9 (PGPS None)), Received (sample_event 10 (PRaw [])), Shutdown] sample_run =
     snd (ProcessEvent (sample_event 10 (PRaw [])) (snd (ProcessEvent (sample_event 9 (PGPS None)) sample_run)))"
  using processor_handles_all [OF sample_run_run [unfolded sample_manager_def] sample_updates_open] by simp

section \<open>Two receivers on one channel\<close>

fun sent_events :: "relay_op list \<Rightarrow> TelemetryEvent list" where
  "sent_events [] = []"
| "sent_events (RSend ev # ops) = ev # sent_events ops"
| "sent_events (op # ops) = sent_events ops"

fun hub_events :: "relay_op list \<Rightarrow> TelemetryEvent list" where
  "hub_events [] = []"
| "hub_events (RHub ks ev # ops) = ev # hub_events ops"
| "hub_events (op # ops) = hub_events ops"

fun registry_ops :: "relay_op list \<Rightarrow> mgr_op list" where
  "registry_ops [] = []"
| "registry_ops (RProcess ev # ops) = OpEvent ev # registry_ops ops"
| "registry_ops (RStale ks now # ops) = OpStale ks now # registry_ops ops"
| "registry_ops (RTake u # ops) = OpTake u # registry_ops ops"
| "registry_ops (op # ops) = registry_ops ops"

fun registry_events :: "mgr_op list \<Rightarrow> TelemetryEvent list" where
  "registry_events [] = []"
| "registry_events (OpEvent ev # ops) = ev # registry_events ops"
| "registry_events (op # ops) = registry_events ops"

lemma relay_projections [simp]:
  "sent_events (xs @ ys) = sent_events xs @ sent_events ys"
  "hub_events (xs @ ys) = hub_events xs @ hub_events ys"
  "registry_ops (xs @ ys) = registry_ops xs @ registry_ops ys"
  by (induction xs rule: sent_events.induct) simp_all

lemma registry_events_append [simp]: "registry_events (xs @ ys) = registry_events xs @ registry_events ys"
  by (induction xs rule: registry_events.induct) simp_all

lemma events_of_nil: "events_of i ops = [] \<longleftrightarrow> (\<forall>ev\<in>set (registry_events ops). ev_DroneID ev \<noteq> i)"
  by (induction ops rule: registry_events.induct) auto

text \<open>What the relay does to the registry is a run of the registry on its own.\<close>

interpretation relay_registry: simulation relay_step "\<lambda>_. True" mgr_step rl_manager registry_ops
proof unfold_locales
  fix s op s'
  assume "relay_step s op s'"
  then show "mgr_run (rl_manager s) (registry_ops [op]) (rl_manager s')"
    by (induction rule: relay_step.cases) (auto intro: run_nil run_one mgr_step.intros)
qed simp_all

interpretation relay_accounts: accounting relay_step "\<lambda>_. True" "\<lambda>s. mset (ch_buf (rl_chan s))"
    "\<lambda>ops. mset (sent_events ops)" "\<lambda>ops. mset (hub_events ops) + mset (registry_events (registry_ops ops))"
proof unfold_locales
  fix s op s'
  assume "relay_step s op s'"
  then show "mset (ch_buf (rl_chan s)) + mset (sent_events [op]) =
      mset (ch_buf (rl_chan s')) + (mset (hub_events [op]) + mset (registry_events (registry_ops [op])))"
    by (induction rule: relay_step.cases) (auto simp: try_send_def recv_def split: if_splits list.splits)
qed simp_all


definition sample_relay :: relay where
  "sample_relay = \<lparr>rl_chan = \<lparr>ch_buf = [], ch_cap = 1000, ch_closed = False\<rparr>, rl_manager = sample_manager, rl_hub = sample_hub\<rparr>"

text \<open>One event, taken by the hub.\<close>

lemma sample_relay_run:
  "relay_run sample_relay [RSend (sample_event 5 (PRaw [])), RHub [] (sample_event 5 (PRaw []))]
     (sample_relay\<lparr>rl_hub := snd (recovered (broadcast [] (sample_event 5 (PRaw []))) sample_hub)\<rparr>)"
proof -
  let ?ev = "sample_event 5 (PRaw [])"
  let ?s = "sample_relay\<lparr>rl_chan := \<lparr>ch_buf = [?ev], ch_cap = 1000, ch_closed = False\<rparr>\<rparr>"
  have "relay_step sample_relay (RSend ?ev) ?s"
    by (rule relay_send) (simp add: sample_relay_def try_send_def)
  from run_one [of relay_step, OF this] have "relay_run sample_relay [RSend ?ev] ?s" by simp
  moreover have "relay_step ?s (RHub [] ?ev) (sample_relay\<lparr>rl_hub := snd (recovered (broadcast [] ?ev) sample_hub)\<rparr>)"
    using relay_hub [of ?s ?ev "\<lparr>ch_buf = [], ch_cap = 1000, ch_closed = False\<rparr>" "[]"]
    by (simp add: sample_relay_def recv_def)
  ultimately show ?thesis using run_snoc by fastforce
qed


section \<open>What the registry can broadcast\<close>

lemma latest_cases: "latest f d es = d \<or> (\<exists>ev\<in>set es. f ev = Some (latest f d es))"
  by (induction es rule: rev_induct) (auto split: option.split)

lemma events_of_registry: "set (events_of i ops) \<subseteq> set (registry_events ops)"
  by (induction ops rule: registry_events.induct) auto

definition decoded :: "TelemetryEvent \<Rightarrow> bool" where
  "decoded ev \<longleftrightarrow> (\<exists>d now data addr. DecodePacket d now data addr = Val (Inr ev))"

lemma decoded_in_range: "decoded ev \<Longrightarrow> payload_in_range (ev_Payload ev)"
  unfolding decoded_def by (elim exE DecodePacket_InrD) (auto simp: checked_payload_in_range)

lemma kind_of_Some:
  "gps_of ev = Some x \<longleftrightarrow> ev_Payload ev = PGPS x" "battery_of ev = Some y \<longleftrightarrow> ev_Payload ev = PBattery y"
  by (auto simp: gps_of_def battery_of_def split: Payload.splits)

lemma nil_in_range: "payload_in_range (PGPS None)" "payload_in_range (PBattery None)"
  by (simp_all add: payload_in_range_def)

lemma drone_in_range:
  assumes "mgr_run (NewManager cfg u) ops m" "updates_open (NewManager cfg u)"
    and "\<forall>ev\<in>set (registry_events ops). decoded ev" "mgr_drones m i = Some st"
  shows "payload_in_range (PGPS (st_GPS st))" "payload_in_range (PBattery (st_Battery st))"
proof -
  have st: "st_GPS st = latest gps_of None (events_of i ops)" "st_Battery st = latest battery_of None (events_of i ops)"
    using run_reports [OF assms(1,2), of i] assms(4) by (simp_all add: reports_def)
  have range: "payload_in_range (ev_Payload ev)" if "ev \<in> set (events_of i ops)" for ev
    using that events_of_registry [of i ops] assms(3) decoded_in_range by blast
  show "payload_in_range (PGPS (st_GPS st))"
    using latest_cases [of gps_of None "events_of i ops"] range nil_in_range unfolding st kind_of_Some by metis
  show "payload_in_range (PBattery (st_Battery st))"
    using latest_cases [of battery_of None "events_of i ops"] range nil_in_range unfolding st kind_of_Some by metis
qed

lemma summary_encodable:
  assumes "payload_in_range (PGPS (st_GPS st))" "payload_in_range (PBattery (st_Battery st))"
  shows "encodable_summary (ToSummary st)"
  using assms
  by (auto simp: ToSummary_def encodable_summary_def encodable_float_def payload_in_range_def finite_between_def Let_def
      split: option.splits)

lemma statesLoop_drones: "st \<in> set (statesLoop ks m) \<Longrightarrow> \<exists>i. mgr_drones m i = Some st"
  by (induction ks) (auto split: option.splits)

lemma summaries_encodable:
  assumes "mgr_run (NewManager cfg u) ops m" "updates_open (NewManager cfg u)"
    and "\<forall>ev\<in>set (registry_events ops). decoded ev"
  shows "list_all encodable_summary (GetAllSummaries ks m)"
proof -
  have "encodable_summary (ToSummary st)" if "st \<in> set (statesLoop ks m)" for st
    using statesLoop_drones [OF that] drone_in_range [OF assms] summary_encodable by blast
  then show ?thesis by (auto simp: GetAllSummaries_def list_all_iff)
qed

text \<open>
  C11: as long as the registry is fed by the decoder, every broadcast can be encoded: no tick with
  pending events goes by in silence, whatever the vehicles sent.
\<close>

theorem broadcasts_encodable:
  assumes "mgr_run (NewManager cfg u) ops (tv_manager tv)" "updates_open (NewManager cfg u)"
    and "\<forall>ev\<in>set (registry_events ops). decoded ev"
  shows "marshal (state_update tv) = Some (state_update tv)"
proof -
  have "list_all encodable_summary (bm_Drones (state_update tv))"
    using summaries_encodable [OF assms] by (simp add: state_update_def)
  then show ?thesis by (simp add: marshal_def)
qed

definition position_event :: TelemetryEvent where
  "position_event = \<lparr>ev_DroneID = sample_id, ev_MessageID = 33, ev_Timestamp = 7,
     ev_SourceAddr = ''a'', ev_Payload = PGPS (Some (wrapped (gp_position (fr_Payload (frame_at sample_position)))))\<rparr>"

theorem broadcasts_encodable_witness:
  "marshal (state_update (sample_tick\<lparr>tv_manager := snd (recovered (ProcessEvent position_event) sample_manager),
     tv_drones := [sample_id]\<rparr>)) \<noteq> None"
proof -
  have "decoded position_event"
    unfolding decoded_def position_event_def sample_id_def using sample_position_event by blast
  moreover have "mgr_run sample_manager [OpEvent position_event] (snd (recovered (ProcessEvent position_event) sample_manager))"
    using mgr_snoc [OF run_nil step_event, of sample_manager position_event] by simp
  ultimately show ?thesis
    using broadcasts_encodable [OF _ sample_updates_open, of "[OpEvent position_event]"
        "sample_tick\<lparr>tv_manager := snd (recovered (ProcessEvent position_event) sample_manager), tv_drones := [sample_id]\<rparr>"]
    by (simp add: sample_manager_def)
qed

section \<open>From the vehicle to the registry\<close>

definition holds :: "State \<Rightarrow> Payload \<Rightarrow> bool" where
  "holds st p \<longleftrightarrow>
    (case p of
       PHeartbeat hb \<Rightarrow> st_Heartbeat st = hb
     | PGPS g \<Rightarrow> st_GPS st = g
     | PBattery b \<Rightarrow> st_Battery st = b
     | PAttitude a \<Rightarrow> st_Attitude st = a
     | PRaw _ \<Rightarrow> True)"

lemma absorbed_holds: "holds (absorbed ev st) (ev_Payload ev)"
  by (simp add: holds_def absorbed_def Let_def split: Payload.split option.split)

lemma absorbed_touched:
  "st_IsConnected (absorbed ev (touched ev st))" "st_LastSeen (absorbed ev (touched ev st)) = ev_Timestamp ev"
  by (simp_all add: absorbed_def touched_def Let_def split: Payload.split option.split)

text \<open>
  C22: a message of a simulated vehicle goes through the whole server: the decoder accepts the datagram,
  the registry handles the event without a panic, and from then on reports the vehicle as connected,
  last seen at that moment, with the reading of the vehicle the message carries.
\<close>

theorem flight_in_registry:
  assumes "flyable d" "kind \<in> {0..4}"
    and "mgr_run (NewManager cfg u) ops m" "updates_open (NewManager cfg u)"
  shows "\<exists>bytes ev m' st p. buildMessage te kind d = Val (bytes, d\<lparr>sl_Seq := sl_Seq d + 1\<rparr>) \<and>
    DecodePacket dec t bytes addr = Val (Inr ev) \<and> ProcessEvent ev m = (Val (), m') \<and>
    GetState \<lparr>SystemID = sl_SystemID d, ComponentID = 1\<rparr> m' = Some st \<and>
    st_IsConnected st \<and> st_LastSeen st = t \<and> holds st p \<and> tells d p"
proof -
  obtain bytes ev where b: "buildMessage te kind d = Val (bytes, d\<lparr>sl_Seq := sl_Seq d + 1\<rparr>)"
    "DecodePacket dec t bytes addr = Val (Inr ev)" "ev_DroneID ev = \<lparr>SystemID = sl_SystemID d, ComponentID = 1\<rparr>"
    "tells d (ev_Payload ev)"
    using message_arrives [OF assms(1,2), of te dec t "[]" addr] by auto
  have "ev_Timestamp ev = t" using b(2) by (elim DecodePacket_InrD) simp
  moreover have "\<not> nil_deref ev" using b(4) by (auto simp: nil_deref_def tells_def)
  then have "ProcessEvent ev m = (Val (), after_event ev m)"
    using ProcessEvent_eq run_view [OF assms(3,4)] by simp
  moreover have "GetState (ev_DroneID ev) (after_event ev m) = Some (absorbed ev (touched ev (found_state ev m)))"
    by (simp add: GetState_def after_event_def)
  ultimately show ?thesis using b absorbed_holds absorbed_touched by (metis (no_types, lifting))
qed

theorem flight_in_registry_witness:
  "\<exists>bytes ev m' st. buildMessage idle_env 1 parked = Val (bytes, parked\<lparr>sl_Seq := 0\<rparr>) \<and>
     DecodePacket NewDecoder 5 bytes ''h'' = Val (Inr ev) \<and> ProcessEvent ev sample_run = (Val (), m') \<and>
     GetState \<lparr>SystemID = 7, ComponentID = 1\<rparr> m' = Some st \<and> st_IsConnected st \<and> st_LastSeen st = 5"
proof -
  have "flyable parked" by (simp add: flyable_def parked_def ValidateSystemID_def)
  moreover have "sl_SystemID parked = 7" "sl_Seq parked + 1 = 0" by (simp_all add: parked_def)
  ultimately show ?thesis
    using flight_in_registry [OF _ _ sample_run_run [unfolded sample_manager_def] sample_updates_open,
        of parked 1 idle_env NewDecoder 5 "''h''"] by (auto; metis)
qed

section \<open>Shutdown\<close>

text \<open>
  Once the goroutine of the web server has stopped it, the shutdown of the main goroutine panics on the
  closed channel: neither the hub nor the registry is stopped, and no final statistics are printed.
\<close>

theorem shutdown_panics:
  assumes "wsGoroutineStop ks sv = (Val (), sv')"
  shows "mainShutdown ks' subs sv' = (Panic CloseOfClosedChannel, sv')"
proof -
  obtain ws where ws: "WebSocket_Stop ks (sv_ws sv) = (Val (), ws)" "sv' = sv\<lparr>sv_ws := ws\<rparr>"
    using assms by (auto simp: wsGoroutineStop_def split: prod.splits)
  then have "wss_done (sv_ws sv')" by (auto simp: WebSocket_Stop_def split: if_splits)
  then show ?thesis by (simp add: mainShutdown_def act_then_def act_bind_def WebSocket_Stop_def)
qed

definition sample_server :: server where
  "sample_server = \<lparr>sv_telemetry = \<lparr>ch_buf = [], ch_cap = 1000, ch_closed = False\<rparr>, sv_manager = sample_manager,
     sv_hub = sample_hub, sv_listener = NewUDPListener (\<lambda>_. None) (cfg_UDP Default) (cfg_Workers Default) (cfg_Drone Default)
       \<lparr>ch_buf = [], ch_cap = 1000, ch_closed = False\<rparr>, sv_ws = sample_ws\<rparr>"

theorem shutdown_panics_witness:
  "fst (mainShutdown [] [] (snd (wsGoroutineStop [] sample_server))) = Panic CloseOfClosedChannel"
proof -
  have "wsGoroutineStop [] sample_server = (Val (), snd (wsGoroutineStop [] sample_server))"
    by (simp add: wsGoroutineStop_def WebSocket_Stop_def sample_server_def sample_ws_def)
  from shutdown_panics [OF this] show ?thesis by simp
qed

end
