(* ===== verification/Server_Main.thy ===== *)
theory Server_Main
  imports Server_Theorems Listener_Life
begin

text \<open>
  The main goroutine of \<^verbatim>\<open>cmd/server/main.go\<close> as a whole: what it logs, which goroutines it starts, in
  which order, and how it ends; with the \<^verbatim>\<open>Start\<close> methods of the components it calls, the metrics
  listener and the final statistics.
\<close>

section \<open>Starting the components\<close>

datatype goroutine =
    GoStaleChecker
  | GoHub
  | GoEventProcessor
  | GoWebServer
  | GoBroadcastLoop
  | GoHTTPServer
  | GoListener
  | GoMetricsServer
  | GoMetricsShutdown

text \<open>A method \<^verbatim>\<open>Start\<close>: the goroutines it starts and what it logs.\<close>

definition Manager_Start :: "Manager \<Rightarrow> goroutine list \<times> log_record list" where
  "Manager_Start m =
    ([GoStaleChecker],
     [log_component ''drone_manager'' (log_at LevelInfo ''drone manager started''
        [(''stale_threshold'', LogDuration (dc_StaleThreshold (mgr_cfg m))),
         (''check_interval'', LogDuration (dc_StaleCheckInterval (mgr_cfg m)))])])"

definition Hub_Start :: "Hub \<Rightarrow> goroutine list \<times> log_record list" where
  "Hub_Start h =
    ([GoHub],
     [log_component ''pubsub_hub'' (log_at LevelInfo ''pub/sub hub started''
        [(''buffer_size'', LogInt (ps_SubscriberBufferSize (hub_cfg h))),
         (''drop_on_slow'', LogBool (ps_DropOnSlowSubscriber (hub_cfg h)))])])"

text \<open>The web server up to its wait for the shutdown; the goroutine that serves logs on its own.\<close>

definition WebSocket_Start :: "WebSocketServer \<Rightarrow> goroutine list \<times> WebSocketServer" where
  "WebSocket_Start ws =
    ([GoBroadcastLoop, GoHTTPServer],
     ws\<lparr>wss_server := Some \<lparr>hs_Addr = wc_BindAddress (wss_cfg ws), hs_ReadTimeout = 10 * second,
       hs_WriteTimeout = wc_WriteTimeout (wss_cfg ws), hs_down = False\<rparr>\<rparr>)"

text \<open>\<open>down\<close>: \<^verbatim>\<open>ListenAndServe\<close> returned because the server was shut down.\<close>

definition serveHTTP :: "bool \<Rightarrow> WebSocketServer \<Rightarrow> log_record list" where
  "serveHTTP down ws =
    map (log_component ''websocket'')
      (log_at LevelInfo ''WebSocket server starting'' [(''address'', LogString (wc_BindAddress (wss_cfg ws)))] #
       (if down then [] else [log_at LevelError ''HTTP server error'' [(''error'', LogError)]]))"

definition Subscribe_log :: "string \<Rightarrow> uint64 \<Rightarrow> int \<Rightarrow> log_record list" where
  "Subscribe_log name i n =
    [log_component ''pubsub_hub'' (log_at LevelInfo ''subscriber registered''
       [(''name'', LogString name), (''id'', LogUint i), (''total_subscribers'', LogInt n)])]"

definition NewUDPListener_log :: "(string \<Rightarrow> IP option) \<Rightarrow> UDPConfig \<Rightarrow> log_record list" where
  "NewUDPListener_log parse_v6 cfg =
    (let nets = parseCIDRs parse_v6 (udp_AllowedCIDRs cfg) in
     map (log_component ''udp_listener'')
       (map (\<lambda>cidr. log_at LevelWarn ''invalid CIDR in whitelist, skipping''
               [(''cidr'', LogString cidr), (''error'', LogError)])
          (filter (\<lambda>cidr. ParseCIDR parse_v6 cidr = None) (udp_AllowedCIDRs cfg)) @
        (if nets \<noteq> []
         then [log_at LevelInfo ''source IP whitelist enabled'' [(''cidrs'', LogInt (int (length nets)))]] else [])))"

section \<open>The metrics listener\<close>

text \<open>The patterns of its mux, the goroutines, the log; the handlers are the library's.\<close>

definition metricsServer :: "Config \<Rightarrow> (string list \<times> goroutine list \<times> log_record list) go" where
  "metricsServer cfg =
    (if \<not> me_Enabled (cfg_Metrics cfg) then Val ([], [], [])
     else
       go_bind (mux_handle ''/metrics'' []) (\<lambda>mux.
       go_bind
         (if db_PprofEnabled (cfg_Debug cfg) then
            go_bind (mux_handle ''/debug/pprof/'' mux) (\<lambda>mux.
            go_bind (mux_handle ''/debug/pprof/cmdline'' mux) (\<lambda>mux.
            go_bind (mux_handle ''/debug/pprof/profile'' mux) (\<lambda>mux.
            go_bind (mux_handle ''/debug/pprof/symbol'' mux) (\<lambda>mux.
            go_bind (mux_handle ''/debug/pprof/trace'' mux) (\<lambda>mux.
            Val (mux, [log_at LevelInfo ''pprof endpoints enabled''
              [(''address'', LogString (me_BindAddress (cfg_Metrics cfg)))]]))))))
          else Val (mux, [])) (\<lambda>(mux, log).
       Val (mux, [GoMetricsServer, GoMetricsShutdown], log))))"

definition serveMetrics :: "bool \<Rightarrow> Config \<Rightarrow> log_record list" where
  "serveMetrics down cfg =
    log_at LevelInfo ''metrics server starting'' [(''address'', LogString (me_BindAddress (cfg_Metrics cfg)))] #
    (if down then [] else [log_at LevelError ''metrics server error'' [(''error'', LogError)]])"

section \<open>The banner and the statistics\<close>

definition printBanner :: "Config \<Rightarrow> log_record list" where
  "printBanner cfg =
    [log_at LevelInfo ''=== DRONE TELEMETRY AGGREGATOR ==='' [],
     log_at LevelInfo ''server ready''
       [(''udp_ingest'', LogString (udp_BindAddress (cfg_UDP cfg))),
        (''http_api'', LogString (wc_BindAddress (cfg_WebSocket cfg)))]] @
    (if me_Enabled (cfg_Metrics cfg)
     then [log_at LevelInfo ''metrics endpoint''
             [(''address'', LogString (me_BindAddress (cfg_Metrics cfg) @ ''/metrics''))]] else [])"

definition printStats :: "DroneID list \<Rightarrow> string list \<Rightarrow> Manager \<Rightarrow> Hub \<Rightarrow> UDPListener \<Rightarrow> log_record" where
  "printStats ds subs manager hub listener =
    (let managerStats = Manager_Stats ds manager;
         hubStats = Hub_Stats subs hub;
         listenerStats = UDPListener_Stats listener
     in log_at LevelInfo ''final statistics''
       [(''total_drones'', LogInt (ms_TotalDrones managerStats)),
        (''connected_drones'', LogInt (ms_ConnectedDrones managerStats)),
        (''armed_drones'', LogInt (ms_ArmedDrones managerStats)),
        (''total_messages'', LogUint (ms_TotalMessages managerStats)),
        (''packets_received'', LogUint (ls_PacketsReceived listenerStats)),
        (''packets_dropped'', LogUint (ls_PacketsDropped listenerStats)),
        (''parse_errors'', LogUint (ls_ParseErrors listenerStats)),
        (''events_broadcast'', LogUint (hs_EventsBroadcast hubStats)),
        (''events_dropped'', LogUint (hs_EventsDropped hubStats))])"

section \<open>The main goroutine\<close>

text \<open>\<open>Waiting\<close>: it waits for a signal.  A panic is not recovered: it ends the process.\<close>

datatype main_end = Exited nat | MainPanicked panic | MainBlocked | Waiting server

record main_run =
  mr_log :: "log_record list"
  mr_started :: "goroutine list"
  mr_end :: main_end

record main_env =
  mv_version :: string
  mv_flags :: flags
  mv_logLevel :: string
  mv_logFormat :: string
  mv_read_file :: "string \<Rightarrow> byte list option"
  mv_unmarshal :: "byte list \<Rightarrow> Config \<Rightarrow> Config \<times> bool"
  mv_parse_v6 :: "string \<Rightarrow> IP option"

definition starting_log :: "main_env \<Rightarrow> Config \<Rightarrow> log_record list" where
  "starting_log env cfg =
    (if fl_configFile (mv_flags env) \<noteq> []
     then [log_at LevelInfo ''loaded config file'' [(''path'', LogString (fl_configFile (mv_flags env)))]] else []) @
    [log_at LevelInfo ''starting drone telemetry server''
       [(''version'', LogString (mv_version env)),
        (''udp_address'', LogString (udp_BindAddress (cfg_UDP cfg))),
        (''http_address'', LogString (wc_BindAddress (cfg_WebSocket cfg))),
        (''workers'', LogInt (wk_PoolSize (cfg_Workers cfg)))]]"

text \<open>From the configuration to the wait for a signal.\<close>

definition serve :: "main_env \<Rightarrow> Config \<Rightarrow> main_run" where
  "serve env cfg =
    (let log = starting_log env cfg in
     case newServer (mv_parse_v6 env) cfg of
       Val sv \<Rightarrow>
         (let (gs1, log1) = Manager_Start (sv_manager sv);
              (gs2, log2) = Hub_Start (sv_hub sv);
              gs = gs1 @ gs2 @ [GoEventProcessor, GoWebServer, GoListener];
              log = log @ NewUDPListener_log (mv_parse_v6 env) (cfg_UDP cfg) @
                Subscribe_log ''websocket_broadcaster'' 1 1 @ log1 @ log2
          in case metricsServer cfg of
               Val (mux, gs3, log3) \<Rightarrow>
                 (case registerExpandedHealth (sv_ws sv) of
                    (Val _, ws) \<Rightarrow> \<lparr>mr_log = log @ log3 @ printBanner cfg, mr_started = gs @ gs3,
                      mr_end = Waiting (sv\<lparr>sv_ws := ws\<rparr>)\<rparr>
                  | (Panic p, ws) \<Rightarrow> \<lparr>mr_log = log @ log3, mr_started = gs @ gs3, mr_end = MainPanicked p\<rparr>
                  | (Diverge, ws) \<Rightarrow> \<lparr>mr_log = log @ log3, mr_started = gs @ gs3, mr_end = MainBlocked\<rparr>)
             | Panic p \<Rightarrow> \<lparr>mr_log = log, mr_started = gs, mr_end = MainPanicked p\<rparr>
             | Diverge \<Rightarrow> \<lparr>mr_log = log, mr_started = gs, mr_end = MainBlocked\<rparr>)
     | Panic p \<Rightarrow>
         \<lparr>mr_log = log @ NewUDPListener_log (mv_parse_v6 env) (cfg_UDP cfg), mr_started = [], mr_end = MainPanicked p\<rparr>
     | Diverge \<Rightarrow> \<lparr>mr_log = log, mr_started = [], mr_end = MainBlocked\<rparr>)"

definition serverMain :: "main_env \<Rightarrow> main_run" where
  "serverMain env =
    (case configure (mv_read_file env) (mv_unmarshal env) (mv_flags env) of
       Inl err \<Rightarrow>
         \<lparr>mr_log = [log_at LevelError ''failed to load config file''
            [(''path'', LogString (fl_configFile (mv_flags env))), (''error'', LogError)]],
          mr_started = [], mr_end = Exited 1\<rparr>
     | Inr cfg \<Rightarrow> serve env cfg)"

text \<open>What reaches the standard output.\<close>

definition main_output :: "main_env \<Rightarrow> log_record list" where
  "main_output env = written (configureLogger (mv_logLevel env) (mv_logFormat env)) (mr_log (serverMain env))"

text \<open>From the signal to the return of \<^verbatim>\<open>main\<close>: what it logs, when it gets that far.\<close>

definition mainExit ::
    "uint64 list \<Rightarrow> string list \<Rightarrow> DroneID list \<Rightarrow> string list \<Rightarrow> (server, log_record list) act" where
  "mainExit ks subs ds subs' =
    act_then (mainShutdown ks subs)
      (\<lambda>sv. (Val [printStats ds subs' (sv_manager sv) (sv_hub sv) (sv_listener sv),
               log_at LevelInfo ''server shutdown complete'' []], sv))"

section \<open>What becomes of the program\<close>

text \<open>The mux of the metrics listener takes all its patterns.\<close>

lemma metricsServer_outcome:
  "metricsServer cfg = Val
    (if \<not> me_Enabled (cfg_Metrics cfg) then ([], [], [])
     else if db_PprofEnabled (cfg_Debug cfg)
     then ([''/metrics'', ''/debug/pprof/'', ''/debug/pprof/cmdline'', ''/debug/pprof/profile'', ''/debug/pprof/symbol'',
         ''/debug/pprof/trace''], [GoMetricsServer, GoMetricsShutdown],
       [log_at LevelInfo ''pprof endpoints enabled'' [(''address'', LogString (me_BindAddress (cfg_Metrics cfg)))]])
     else ([''/metrics''], [GoMetricsServer, GoMetricsShutdown], []))"
  by (simp add: metricsServer_def mux_handle_def)

definition never_ready :: "log_record list \<Rightarrow> bool" where
  "never_ready rs \<longleftrightarrow> (\<forall>r\<in>set rs. lg_msg r \<noteq> ''server ready'')"

lemma never_ready_simps [simp]:
  "never_ready []" "never_ready (r # rs) \<longleftrightarrow> lg_msg r \<noteq> ''server ready'' \<and> never_ready rs"
  "never_ready (rs @ rs') \<longleftrightarrow> never_ready rs \<and> never_ready rs'"
  by (auto simp: never_ready_def)

lemma starting_logs:
  "never_ready (starting_log env cfg)" "never_ready (NewUDPListener_log parse_v6 ucfg)"
  "never_ready (Subscribe_log name i n)" "never_ready (snd (Manager_Start m))" "never_ready (snd (Hub_Start h))"
  by (simp_all add: starting_log_def NewUDPListener_log_def Subscribe_log_def Manager_Start_def Hub_Start_def Let_def)
    (auto simp: never_ready_def)

lemma serve_outcome:
  "mr_end (serve env cfg) =
     MainPanicked (if ps_SubscriberBufferSize (cfg_PubSub cfg) < 0 then MakesliceLenOutOfRange else PatternConflict)"
  "never_ready (mr_log (serve env cfg))"
  "mr_started (serve env cfg) =
     (if ps_SubscriberBufferSize (cfg_PubSub cfg) < 0 then []
      else [GoStaleChecker, GoHub, GoEventProcessor, GoWebServer, GoListener] @
        (if me_Enabled (cfg_Metrics cfg) then [GoMetricsServer, GoMetricsShutdown] else []))"
proof -
  let ?neg = "ps_SubscriberBufferSize (cfg_PubSub cfg) < 0"
  have up: "serverStartup (mv_parse_v6 env) cfg = Panic (if ?neg then MakesliceLenOutOfRange else PatternConflict)"
    by (rule startup_panics)
  obtain r hub where r: "NewWebSocketServer (cfg_WebSocket cfg) (NewHub (cfg_PubSub cfg)) = (r, hub)"
    by (cases "NewWebSocketServer (cfg_WebSocket cfg) (NewHub (cfg_PubSub cfg))")
  have "hub_cfg (NewHub (cfg_PubSub cfg)) = cfg_PubSub cfg" by (simp add: NewHub_def)
  then have new: "if ?neg then newServer (mv_parse_v6 env) cfg = Panic MakesliceLenOutOfRange
      else \<exists>sv. newServer (mv_parse_v6 env) cfg = Val sv"
    using NewWebSocketServer_outcome [OF r] by (auto simp: newServer_def make_chan_def r)
  have "mr_end (serve env cfg) = MainPanicked (if ?neg then MakesliceLenOutOfRange else PatternConflict) \<and>
      never_ready (mr_log (serve env cfg)) \<and> mr_started (serve env cfg) =
        (if ?neg then [] else [GoStaleChecker, GoHub, GoEventProcessor, GoWebServer, GoListener] @
           (if me_Enabled (cfg_Metrics cfg) then [GoMetricsServer, GoMetricsShutdown] else []))"
  proof (cases ?neg)
    case True
    then show ?thesis using new by (simp add: serve_def starting_logs Let_def)
  next
    case False
    then obtain sv where sv: "newServer (mv_parse_v6 env) cfg = Val sv" using new by auto
    obtain ws where "registerExpandedHealth (sv_ws sv) = (Panic PatternConflict, ws)"
      using up False sv by (auto simp: serverStartup_def split: prod.splits elim: go_bind.elims)
    then show ?thesis
      using False sv starting_logs(4) [of "sv_manager sv"] starting_logs(5) [of "sv_hub sv"]
      by (auto simp: serve_def starting_logs Let_def metricsServer_outcome Manager_Start_def Hub_Start_def)
  qed
  then show "mr_end (serve env cfg) =
       MainPanicked (if ?neg then MakesliceLenOutOfRange else PatternConflict)"
    "never_ready (mr_log (serve env cfg))"
    "mr_started (serve env cfg) =
       (if ?neg then [] else [GoStaleChecker, GoHub, GoEventProcessor, GoWebServer, GoListener] @
          (if me_Enabled (cfg_Metrics cfg) then [GoMetricsServer, GoMetricsShutdown] else []))"
    by blast+
qed

text \<open>
  C18: the server never serves: whatever the flags, the configuration file and the addresses, the main
  goroutine either leaves with status 1, because the file cannot be loaded, or ends in a panic, because
  the health route is registered twice (or the subscriber buffer has a negative size); it never waits
  for a signal and never reports that it is ready.
\<close>

theorem server_never_ready:
  "never_ready (mr_log (serverMain env)) \<and>
   mr_end (serverMain env) =
     (case configure (mv_read_file env) (mv_unmarshal env) (mv_flags env) of
        Inl err \<Rightarrow> Exited 1
      | Inr cfg \<Rightarrow> MainPanicked (if ps_SubscriberBufferSize (cfg_PubSub cfg) < 0 then MakesliceLenOutOfRange
          else PatternConflict))"
  using serve_outcome [of env] by (simp add: serverMain_def split: sum.split)

lemma output_never_ready: "never_ready (mr_log (serverMain env)) \<Longrightarrow> never_ready (main_output env)"
  by (auto simp: main_output_def written_def never_ready_def)

text \<open>What the program logs at its end is never logged either, once the web server has stopped itself.\<close>

lemma no_final_statistics:
  assumes "wsGoroutineStop ks sv = (Val (), sv')"
  shows "mainExit ks' subs ds subs' sv' = (Panic CloseOfClosedChannel, sv')"
  using shutdown_panics [OF assms] by (simp add: mainExit_def act_simps)

text \<open>
  The statistics of a run are those of its components: had the first stop been the only one, the log
  would show them.
\<close>

lemma final_statistics:
  assumes "mainShutdown ks subs sv = (Val (), sv')"
  shows "mainExit ks subs ds subs' sv =
    (Val [printStats ds subs' (sv_manager sv') (sv_hub sv') (sv_listener sv'),
       log_at LevelInfo ''server shutdown complete'' []], sv')"
  using assms by (simp add: mainExit_def act_simps)

end
