(* ===== verification/Metrics.thy ===== *)
theory Metrics
  imports Float64
begin

text \<open>
  \<^verbatim>\<open>internal/metrics/metrics.go\<close>: the metrics the package registers when it is loaded.  The registry is
  the Prometheus library's and an argument: registering a metric gives the new registry, or panics.
\<close>

section \<open>The metrics\<close>

datatype metric_kind =
    Counter
  | CounterVec "string list"   \<comment> \<open>its labels\<close>
  | Gauge
  | Histogram f64 f64 int      \<comment> \<open>\<^verbatim>\<open>ExponentialBuckets(start, factor, count)\<close>\<close>

record metric =
  mt_Name :: string
  mt_Help :: string
  mt_Kind :: metric_kind

definition metric_of :: "string \<Rightarrow> string \<Rightarrow> metric_kind \<Rightarrow> metric" where
  "metric_of name hlp kind = \<lparr>mt_Name = name, mt_Help = hlp, mt_Kind = kind\<rparr>"

definition package_metrics :: "metric list" where
  "package_metrics =
    [metric_of ''udp_packets_received_total'' ''Total UDP packets received'' Counter,
     metric_of ''udp_packets_dropped_total'' ''Total UDP packets dropped'' (CounterVec [''reason'']),
     metric_of ''mavlink_parse_errors_total'' ''Total MAVLink parse errors'' Counter,
     metric_of ''active_drones'' ''Number of currently connected drones'' Gauge,
     metric_of ''websocket_clients_active'' ''Number of active WebSocket clients'' Gauge,
     metric_of ''event_channel_utilization'' ''Fraction of telemetry event channel capacity in use'' Gauge,
     metric_of ''worker_pool_utilization'' ''Fraction of worker pool packet queue capacity in use'' Gauge,
     metric_of ''rate_limited_packets_total'' ''Total packets dropped due to rate limiting'' Counter,
     metric_of ''telemetry_latency_seconds'' ''Latency from packet receive to state update''
       (Histogram (f64_lit (1 / 10000)) (f64_lit 2) 15),
     metric_of ''drone_packets_received_total'' ''Packets received per drone'' (CounterVec [''system_id'']),
     metric_of ''drone_packets_dropped_total'' ''Packets dropped per drone (rate limited)'' (CounterVec [''system_id'']),
     metric_of ''drone_parse_errors_total'' ''Parse errors per source'' (CounterVec [''system_id'']),
     metric_of ''noisy_drone_detections_total'' ''Times a drone exceeded the noisy threshold'' Counter]"

section \<open>Loading the package\<close>

fun register_all :: "(metric \<Rightarrow> 'reg \<Rightarrow> 'reg go) \<Rightarrow> metric list \<Rightarrow> 'reg \<Rightarrow> 'reg go" where
  "register_all register [] reg = Val reg"
| "register_all register (m # ms) reg = go_bind (register m reg) (register_all register ms)"

definition load_metrics :: "(metric \<Rightarrow> 'reg \<Rightarrow> 'reg go) \<Rightarrow> 'reg \<Rightarrow> 'reg go" where
  "load_metrics register = register_all register package_metrics"

text \<open>The names and labels Prometheus admits: a letter or an underscore, then also digits.\<close>

definition name_start :: "char \<Rightarrow> bool" where
  "name_start c \<longleftrightarrow> c \<in> set ''abcdefghijklmnopqrstuvwxyzABCDEFGHIJKLMNOPQRSTUVWXYZ_''"

definition valid_name :: "string \<Rightarrow> bool" where
  "valid_name s = (case s of [] \<Rightarrow> False | c # cs \<Rightarrow> name_start c \<and> list_all (\<lambda>c. name_start c \<or> c \<in> set ''0123456789'') cs)"

definition metric_labels :: "metric \<Rightarrow> string list" where
  "metric_labels m = (case mt_Kind m of CounterVec ls \<Rightarrow> ls | _ \<Rightarrow> [])"

definition valid_metric :: "metric \<Rightarrow> bool" where
  "valid_metric m \<longleftrightarrow> valid_name (mt_Name m) \<and> list_all valid_name (metric_labels m) \<and> distinct (metric_labels m) \<and>
     (case mt_Kind m of Histogram start factor count \<Rightarrow> f64_lt (Fin 0) start \<and> f64_lt (Fin 1) factor \<and> 1 \<le> count | _ \<Rightarrow> True)"

lemma buckets_valid: "f64_lt (Fin 0) (f64_lit (1 / 10000))" "f64_lt (Fin 1) (f64_lit 2)"
  by (simp_all add: f64_eval)

lemma metrics_valid: "list_all valid_metric package_metrics"
  by (simp add: package_metrics_def metric_of_def valid_metric_def valid_name_def name_start_def metric_labels_def
      buckets_valid)

lemma metrics_distinct: "distinct (map mt_Name package_metrics)"
  by (simp add: package_metrics_def metric_of_def)

text \<open>
  Loading the package never panics: the registry admits a valid metric under a name it does not have
  yet (the contract of the library), and the package asks for nothing else.
\<close>

lemma register_all_valid:
  assumes "\<And>m r. valid_metric m \<Longrightarrow> mt_Name m \<notin> names r \<Longrightarrow> \<exists>r'. register m r = Val r' \<and> names r' = insert (mt_Name m) (names r)"
    and "list_all valid_metric ms" "distinct (map mt_Name ms)" "mt_Name ` set ms \<inter> names r = {}"
  shows "\<exists>r'. register_all register ms r = Val r' \<and> names r' = mt_Name ` set ms \<union> names r"
  using assms(2-4)
proof (induction ms arbitrary: r)
  case (Cons m ms)
  then obtain r1 where r1: "register m r = Val r1" "names r1 = insert (mt_Name m) (names r)"
    using assms(1) [of m r] by auto
  then have "mt_Name ` set ms \<inter> names r1 = {}" using Cons.prems by auto
  then show ?case using Cons.IH [of r1] Cons.prems r1 by auto
qed simp

theorem metrics_load:
  assumes "\<And>m r. valid_metric m \<Longrightarrow> mt_Name m \<notin> names r \<Longrightarrow> \<exists>r'. register m r = Val r' \<and> names r' = insert (mt_Name m) (names r)"
    and "names r = {}"
  shows "\<exists>r'. load_metrics register r = Val r' \<and> names r' = mt_Name ` set package_metrics"
  using register_all_valid [of names register package_metrics r] assms metrics_valid metrics_distinct
  by (auto simp: load_metrics_def)

text \<open>The contract can hold: a registry that keeps the metrics and panics on a name it has.\<close>

theorem metrics_load_witness:
  "load_metrics (\<lambda>m r. if mt_Name m \<in> mt_Name ` set r then Panic PatternConflict else Val (m # r)) [] \<noteq> Panic PatternConflict"
  using metrics_load [of "\<lambda>r. mt_Name ` set r" "\<lambda>m r. if mt_Name m \<in> mt_Name ` set r then Panic PatternConflict else Val (m # r)" "[]"]
  by auto

end
