(* ===== verification/Tui.thy ===== *)
theory Tui
  imports Text_Format History Transition
begin

text \<open>
  The terminal dashboard, \<^verbatim>\<open>cmd/tui/main.go\<close>.  The framework calls \<^verbatim>\<open>Update\<close> on a value and keeps
  the value it returns; a command that captures a pointer to its receiver captures a copy of that
  value, which lives on a heap of its own here.  Rendering in a style is an argument: it belongs to
  the terminal library.
\<close>

section \<open>Messages and the model\<close>

record droneSummary =
  ds_SystemID :: uint8
  ds_ComponentID :: uint8
  ds_Connected :: bool
  ds_Armed :: bool
  ds_FlightMode :: string
  ds_VehicleType :: string
  ds_Lat :: "f64 option"
  ds_Lon :: "f64 option"
  ds_Alt :: "f64 option"
  ds_Heading :: "f64 option"
  ds_BatteryPct :: "int8 option"
  ds_BatteryV :: "f64 option"
  ds_LastSeenMs :: int

record wsMsg =
  wm_Type :: string
  wm_Timestamp :: int
  wm_Drones :: "droneSummary list"

datatype tea_msg =
    KeyMsg string
  | WsUpdateMsg wsMsg
  | WsErrorMsg string
  | TickMsg
  | ReconnectMsg

text \<open>The zero time of a model that has seen no update is \<open>None\<close>; a connection is its number.\<close>

record tui_model =
  tm_serverAddr :: string
  tm_drones :: "droneSummary list"
  tm_connected :: bool
  tm_lastUpdate :: "instant option"
  tm_updateCount :: uint64
  tm_err :: "string option"
  tm_conn :: "nat option"

definition initialModel :: "string \<Rightarrow> tui_model" where
  "initialModel addr =
    \<lparr>tm_serverAddr = addr, tm_drones = [], tm_connected = False, tm_lastUpdate = None, tm_updateCount = 0,
     tm_err = None, tm_conn = None\<rparr>"

text \<open>A command to connect names the captured copy.\<close>

datatype tea_cmd =
    ConnectCmd nat
  | ReadCmd nat
  | TickCmd
  | ReconnectTimer
  | QuitCmd

text \<open>What the commands and the handlers act on beside the model: the captured copies, the closed connections.\<close>

record tui_world =
  tw_copies :: "tui_model list"
  tw_closed :: "nat list"

definition connectCmd :: "tui_model \<Rightarrow> tui_world \<Rightarrow> tea_cmd \<times> tui_world" where
  "connectCmd m w = (ConnectCmd (length (tw_copies w)), w\<lparr>tw_copies := tw_copies w @ [m]\<rparr>)"

definition readCmd :: "tui_model \<Rightarrow> tea_cmd option" where
  "readCmd m = (case tm_conn m of None \<Rightarrow> None | Some conn \<Rightarrow> Some (ReadCmd conn))"

definition tickCmd :: tea_cmd where
  "tickCmd = TickCmd"

definition CloseNow :: "nat option \<Rightarrow> tui_world \<Rightarrow> tui_world" where
  "CloseNow conn w = (case conn of None \<Rightarrow> w | Some c \<Rightarrow> w\<lparr>tw_closed := c # tw_closed w\<rparr>)"

definition Init :: "tui_model \<Rightarrow> tui_world \<Rightarrow> tea_cmd list \<times> tui_world" where
  "Init m w = (case connectCmd m w of (cmd, w) \<Rightarrow> ([cmd, tickCmd], w))"

definition Update :: "instant \<Rightarrow> tea_msg \<Rightarrow> tui_model \<Rightarrow> tui_world \<Rightarrow> tui_model \<times> tea_cmd list \<times> tui_world" where
  "Update now msg m w =
    (case msg of
       KeyMsg k \<Rightarrow>
         if k = ''q'' \<or> k = ''ctrl+c'' then (m, [QuitCmd], CloseNow (tm_conn m) w) else (m, [], w)
     | WsUpdateMsg msg \<Rightarrow>
         (let m = m\<lparr>tm_drones := wm_Drones msg, tm_connected := True, tm_lastUpdate := Some now,
                tm_updateCount := tm_updateCount m + 1, tm_err := None\<rparr>
          in (m, case readCmd m of None \<Rightarrow> [] | Some cmd \<Rightarrow> [cmd], w))
     | WsErrorMsg err \<Rightarrow>
         (let m = m\<lparr>tm_err := Some err, tm_connected := False\<rparr>; w = CloseNow (tm_conn m) w;
              m = (if tm_conn m \<noteq> None then m\<lparr>tm_conn := None\<rparr> else m)
          in (m, [ReconnectTimer], w))
     | ReconnectMsg \<Rightarrow> (case connectCmd m w of (cmd, w) \<Rightarrow> (m, [cmd], w))
     | TickMsg \<Rightarrow> (m, [tickCmd], w))"

text \<open>What a read of a connection gives, and what dialling gives.\<close>

datatype tui_read = ConnFailed string | BadMessage string | GoodMessage wsMsg
datatype dial = DialFailed string | Dialed nat tui_read

definition read_msg :: "tui_read \<Rightarrow> tea_msg" where
  "read_msg r = (case r of ConnFailed err \<Rightarrow> WsErrorMsg err | BadMessage err \<Rightarrow> WsErrorMsg err | GoodMessage msg \<Rightarrow> WsUpdateMsg msg)"

text \<open>The function inside \<^verbatim>\<open>connectCmd\<close>, running on the copy \<open>a\<close>.\<close>

definition runConnect :: "nat \<Rightarrow> dial \<Rightarrow> tui_world \<Rightarrow> tea_msg \<times> tui_world" where
  "runConnect a d w =
    (case d of
       DialFailed err \<Rightarrow> (WsErrorMsg err, w)
     | Dialed conn r \<Rightarrow>
         (read_msg r, w\<lparr>tw_copies := (tw_copies w)[a := (tw_copies w ! a)\<lparr>tm_conn := Some conn\<rparr>]\<rparr>))"

section \<open>The running dashboard\<close>

text \<open>The framework: commands run in any order beside one another, and each hands its message to \<open>Update\<close>.\<close>

record tui_sys =
  ts_model :: tui_model
  ts_world :: tui_world
  ts_cmds :: "tea_cmd list"

definition deliver_msg :: "instant \<Rightarrow> tea_msg \<Rightarrow> tui_sys \<Rightarrow> tui_sys" where
  "deliver_msg now msg s =
    (case Update now msg (ts_model s) (ts_world s) of
       (m, cmds, w) \<Rightarrow> \<lparr>ts_model = m, ts_world = w, ts_cmds = ts_cmds s @ cmds\<rparr>)"

datatype tui_op =
    PressKey string
  | RunConnect nat dial
  | RunRead nat tui_read
  | RunTick
  | RunTimer

inductive tui_step :: "tui_sys \<Rightarrow> instant \<times> tui_op \<Rightarrow> tui_sys \<Rightarrow> bool" where
  press: "tui_step s (now, PressKey k) (deliver_msg now (KeyMsg k) s)"
| run_connect: "ConnectCmd a \<in> set (ts_cmds s) \<Longrightarrow> runConnect a d (ts_world s) = (msg, w) \<Longrightarrow>
    tui_step s (now, RunConnect a d)
      (deliver_msg now msg (s\<lparr>ts_world := w, ts_cmds := remove1 (ConnectCmd a) (ts_cmds s)\<rparr>))"
| run_read: "ReadCmd c \<in> set (ts_cmds s) \<Longrightarrow>
    tui_step s (now, RunRead c r) (deliver_msg now (read_msg r) (s\<lparr>ts_cmds := remove1 (ReadCmd c) (ts_cmds s)\<rparr>))"
| run_tick: "TickCmd \<in> set (ts_cmds s) \<Longrightarrow>
    tui_step s (now, RunTick) (deliver_msg now TickMsg (s\<lparr>ts_cmds := remove1 TickCmd (ts_cmds s)\<rparr>))"
| run_timer: "ReconnectTimer \<in> set (ts_cmds s) \<Longrightarrow>
    tui_step s (now, RunTimer) (deliver_msg now ReconnectMsg (s\<lparr>ts_cmds := remove1 ReconnectTimer (ts_cmds s)\<rparr>))"

abbreviation tui_run :: "tui_sys \<Rightarrow> (instant \<times> tui_op) list \<Rightarrow> tui_sys \<Rightarrow> bool" where
  "tui_run \<equiv> run_of tui_step"

definition tui_start :: "string \<Rightarrow> tui_sys" where
  "tui_start addr =
    (case Init (initialModel addr) \<lparr>tw_copies = [], tw_closed = []\<rparr> of
       (cmds, w) \<Rightarrow> \<lparr>ts_model = initialModel addr, ts_world = w, ts_cmds = cmds\<rparr>)"

section \<open>The view\<close>

datatype style =
    titleStyle | headerStyle | cellStyle | connectedStyle | disconnStyle | armedStyle | disarmedStyle
  | battGoodStyle | battWarnStyle | battCritStyle | statusBarStyle

definition colWidths :: "nat list" where
  "colWidths = [5, 10, 7, 12, 22, 8, 8, 12, 10]"

definition pad :: "string \<Rightarrow> nat \<Rightarrow> string" where
  "pad s w = (if w \<le> length s then take w s else s @ replicate (w - length s) (CHR '' ''))"

definition colSum :: "nat list \<Rightarrow> nat" where
  "colSum a = foldl (+) 0 a"

text \<open>\<^verbatim>\<open>Duration.Seconds\<close> and \<^verbatim>\<open>Minutes\<close>\<close>

definition duration_in :: "int \<Rightarrow> duration \<Rightarrow> f64" where
  "duration_in unit d =
    f64_add (f64_of_int (trunc_div d unit)) (f64_div (f64_of_int (d - unit * trunc_div d unit)) (f64_of_int unit))"

definition fmtDur :: "duration \<Rightarrow> string" where
  "fmtDur d =
    (if d < 1000000000 then fmt_int (duration_millis d) @ ''ms''
     else if d < 60 * 1000000000 then fmt_fixed 0 (duration_in 1000000000 d) @ ''s''
     else fmt_fixed 0 (duration_in (60 * 1000000000) d) @ ''m'')"

fun join :: "string \<Rightarrow> string list \<Rightarrow> string" where
  "join sep [] = []"
| "join sep [s] = s"
| "join sep (s # ss) = s @ sep @ join sep ss"

definition batteryCell :: "droneSummary \<Rightarrow> style \<times> string" where
  "batteryCell d =
    (case ds_BatteryPct d of
       None \<Rightarrow> (cellStyle, ''--'')
     | Some pct \<Rightarrow>
         (let s = fmt_int (sint pct) @ ''%'';
              s = (case ds_BatteryV d of None \<Rightarrow> s | Some v \<Rightarrow> fmt_int (sint pct) @ ''% '' @ fmt_fixed 1 v @ ''V'')
          in (if 50 < sint pct then battGoodStyle else if 20 < sint pct then battWarnStyle else battCritStyle, s)))"

text \<open>The cells of a row, each with its style, before padding.\<close>

definition rowCells :: "instant \<Rightarrow> droneSummary \<Rightarrow> (style \<times> string) list" where
  "rowCells now d =
    [(cellStyle, fmt_int (uint (ds_SystemID d))),
     (if ds_Connected d then (connectedStyle, ''online'') else (disconnStyle, ''offline'')),
     (if ds_Armed d then (armedStyle, ''ARMED'') else (disarmedStyle, ''--'')),
     (cellStyle, if ds_FlightMode d = [] then ''--'' else ds_FlightMode d),
     (cellStyle, case (ds_Lat d, ds_Lon d) of
        (Some lat, Some lon) \<Rightarrow> fmt_fixed 5 lat @ '', '' @ fmt_fixed 5 lon | _ \<Rightarrow> ''--''),
     (cellStyle, case ds_Alt d of Some alt \<Rightarrow> fmt_fixed 1 alt | None \<Rightarrow> ''--''),
     (cellStyle, case ds_Heading d of Some h \<Rightarrow> fmt_fixed 0 h | None \<Rightarrow> ''--''),
     batteryCell d,
     (cellStyle, if 0 < ds_LastSeenMs d then fmtDur (time_sub now (ds_LastSeenMs d * 1000000)) else ''--'')]"

definition renderRow :: "(style \<Rightarrow> string \<Rightarrow> string) \<Rightarrow> instant \<Rightarrow> droneSummary \<Rightarrow> string" where
  "renderRow render now d =
    join '' '' (map2 (\<lambda>(st, s) w. render st (pad s w)) (rowCells now d) colWidths)"

definition headers :: "string list" where
  "headers = [''ID'', ''Status'', ''Armed'', ''Mode'', ''Position'', ''Alt(m)'', ''Hdg'', ''Battery'', ''Last Seen'']"

definition newline :: string where
  "newline = [char_of (10 :: nat)]"

definition statusLine :: "(style \<Rightarrow> string \<Rightarrow> string) \<Rightarrow> tui_model \<Rightarrow> string" where
  "statusLine render m =
    (if tm_connected m then render connectedStyle ''CONNECTED'' @ render cellStyle (''  '' @ tm_serverAddr m)
     else render disconnStyle ''DISCONNECTED'' @
       (case tm_err m of None \<Rightarrow> [] | Some err \<Rightarrow> render cellStyle (''  '' @ err))) @
    render cellStyle (''  Updates: '' @ fmt_int (uint (tm_updateCount m)))"

definition headerLine :: "(style \<Rightarrow> string \<Rightarrow> string) \<Rightarrow> string" where
  "headerLine render = join '' '' (map2 (\<lambda>h w. render headerStyle (pad h w)) headers colWidths)"

definition ruleLine :: "(style \<Rightarrow> string \<Rightarrow> string) \<Rightarrow> string" where
  "ruleLine render = render headerStyle (replicate (colSum colWidths + length colWidths - 1) (CHR ''-''))"

text \<open>
  The lines of the table, from the drones as \<^verbatim>\<open>sort.Slice\<close> left them (the sort is not stable, so the
  order of equal systems is open: the sorted slice is an argument).
\<close>

definition View :: "(style \<Rightarrow> string \<Rightarrow> string) \<Rightarrow> instant \<Rightarrow> droneSummary list \<Rightarrow> tui_model \<Rightarrow> string" where
  "View render now drones m =
    render titleStyle '' DRONE TELEMETRY DASHBOARD '' @ newline @ newline @
    statusLine render m @ newline @ newline @
    headerLine render @ newline @ ruleLine render @ newline @
    (if length drones = 0 then render cellStyle ''  Waiting for drones...'' @ newline else []) @
    concat (map (\<lambda>d. renderRow render now d @ newline) drones) @ newline @
    render statusBarStyle (''Drones: '' @ fmt_int (int (length drones)) @
      (case tm_lastUpdate m of None \<Rightarrow> [] | Some t \<Rightarrow> ''  Last: '' @ fmtDur (time_sub now t) @ '' ago'') @ ''  |  q to quit'')"

end
