(* ===== verification/Tui_Theorems.thy ===== *)
theory Tui_Theorems
  imports Tui
begin

text \<open>The properties of the dashboard.\<close>

section \<open>The life of a connection\<close>

text \<open>The commands that keep the connection going: connecting, waiting to, reading.\<close>

fun links :: "tea_cmd list \<Rightarrow> nat" where
  "links [] = 0"
| "links (ConnectCmd a # cs) = Suc (links cs)"
| "links (ReadCmd c # cs) = Suc (links cs)"
| "links (ReconnectTimer # cs) = Suc (links cs)"
| "links (c # cs) = links cs"

lemma links_append [simp]: "links (xs @ ys) = links xs + links ys"
  by (induction xs rule: links.induct) simp_all

lemma links_remove1: "c \<in> set cs \<Longrightarrow> links cs = links (remove1 c cs) + links [c]"
  by (induction cs rule: links.induct) auto

definition frozen_ok :: "tui_sys \<Rightarrow> bool" where
  "frozen_ok s \<longleftrightarrow> tm_conn (ts_model s) = None \<and> (\<forall>c. ReadCmd c \<notin> set (ts_cmds s)) \<and> tw_closed (ts_world s) = [] \<and>
     unat (tm_updateCount (ts_model s)) + links (ts_cmds s) \<le> 1"

lemma runConnect_closed: "runConnect a d w = (msg, w') \<Longrightarrow> tw_closed w' = tw_closed w"
  by (auto simp: runConnect_def split: dial.splits)

text \<open>A message from the connection uses up the command it comes from.\<close>

lemma connection_msg_ok:
  assumes "tm_conn (ts_model s) = None" "\<forall>c. ReadCmd c \<notin> set (ts_cmds s)" "tw_closed (ts_world s) = []"
    and "unat (tm_updateCount (ts_model s)) + links (ts_cmds s) = 0"
    and "msg = ReconnectMsg \<or> (\<exists>e. msg = WsErrorMsg e) \<or> (\<exists>u. msg = WsUpdateMsg u)"
  shows "frozen_ok (deliver_msg now msg s)"
proof -
  have "tm_updateCount (ts_model s) = 0" using assms(4) by (simp add: unat_eq_0)
  then show ?thesis
    using assms by (auto simp: frozen_ok_def deliver_msg_def Update_def connectCmd_def readCmd_def CloseNow_def Let_def)
qed

lemma read_msg_cases: "(\<exists>e. read_msg r = WsErrorMsg e) \<or> (\<exists>u. read_msg r = WsUpdateMsg u)"
  by (cases r) (simp_all add: read_msg_def)

lemma runConnect_msg: "runConnect a d w = (msg, w') \<Longrightarrow> (\<exists>e. msg = WsErrorMsg e) \<or> (\<exists>u. msg = WsUpdateMsg u)"
  using read_msg_cases by (auto simp: runConnect_def split: dial.splits)

lemma frozen_step:
  assumes "tui_step s op s'" "frozen_ok s"
  shows "frozen_ok s'"
  using assms
proof (induction rule: tui_step.induct)
  case (press s now k)
  then show ?case by (auto simp: frozen_ok_def deliver_msg_def Update_def CloseNow_def)
next
  case (run_connect a s d msg w now)
  then show ?case
    using links_remove1 [OF run_connect(1)] runConnect_msg [OF run_connect(2)] runConnect_closed [OF run_connect(2)]
    by (intro connection_msg_ok) (auto simp: frozen_ok_def dest: notin_set_remove1 in_set_remove1 [THEN iffD1, rotated])
next
  case (run_read c s now r)
  then show ?case by (simp add: frozen_ok_def)
next
  case (run_tick s now)
  then show ?case
    using links_remove1 [OF run_tick(1)]
    by (auto simp: frozen_ok_def deliver_msg_def Update_def tickCmd_def dest: set_remove1_subset [THEN subsetD])
next
  case (run_timer s now)
  then show ?case
    using links_remove1 [OF run_timer(1)]
    by (intro connection_msg_ok) (auto simp: frozen_ok_def dest: set_remove1_subset [THEN subsetD])
qed

interpretation dashboard: invariant tui_step frozen_ok
  by unfold_locales (rule frozen_step)

text \<open>
  C39: the dashboard shows at most one update, whatever the server sends and however often it
  reconnects: the connection is stored in a copy of the model the framework never sees, so after the
  first update there is nothing left to read from, and no connection is ever closed.
\<close>

theorem dashboard_freezes:
  assumes "tui_run (tui_start addr) ops s"
  shows "unat (tm_updateCount (ts_model s)) \<le> 1 \<and> tw_closed (ts_world s) = [] \<and>
    (tm_updateCount (ts_model s) \<noteq> 0 \<longrightarrow> set (ts_cmds s) \<subseteq> {TickCmd, QuitCmd})"
proof -
  have "frozen_ok (tui_start addr)"
    by (simp add: frozen_ok_def tui_start_def Init_def connectCmd_def initialModel_def tickCmd_def)
  then have ok: "frozen_ok s" using dashboard.tinv_run assms by blast
  have "set cs \<subseteq> {TickCmd, QuitCmd}" if "links cs = 0" for cs
    using that by (induction cs rule: links.induct) auto
  moreover have "links (ts_cmds s) = 0" if "tm_updateCount (ts_model s) \<noteq> 0"
    using ok that unat_eq_0 [of "tm_updateCount (ts_model s)"] by (simp add: frozen_ok_def)
  ultimately show ?thesis using ok by (auto simp: frozen_ok_def)
qed

definition sample_update :: wsMsg where
  "sample_update = \<lparr>wm_Type = ''state_update'', wm_Timestamp = 0, wm_Drones = []\<rparr>"

theorem dashboard_freezes_witness:
  "\<exists>s. tui_run (tui_start []) [(0, RunConnect 0 (Dialed 7 (GoodMessage sample_update)))] s \<and>
     tm_updateCount (ts_model s) = 1 \<and> set (ts_cmds s) \<subseteq> {TickCmd, QuitCmd}"
proof -
  obtain msg w where c: "runConnect 0 (Dialed 7 (GoodMessage sample_update)) (ts_world (tui_start [])) = (msg, w)"
    by fastforce
  have "ConnectCmd 0 \<in> set (ts_cmds (tui_start []))" by (simp add: tui_start_def Init_def connectCmd_def)
  from run_one [of tui_step, OF run_connect [OF this c]]
  have run: "tui_run (tui_start []) [(0, RunConnect 0 (Dialed 7 (GoodMessage sample_update)))]
      (deliver_msg 0 msg ((tui_start [])\<lparr>ts_world := w, ts_cmds := remove1 (ConnectCmd 0) (ts_cmds (tui_start []))\<rparr>))"
    by simp
  moreover have "msg = WsUpdateMsg sample_update" using c by (simp add: runConnect_def read_msg_def)
  then have "tm_updateCount (ts_model (deliver_msg 0 msg ((tui_start [])\<lparr>ts_world := w,
      ts_cmds := remove1 (ConnectCmd 0) (ts_cmds (tui_start []))\<rparr>))) = 1"
    by (simp add: deliver_msg_def Update_def Let_def tui_start_def Init_def connectCmd_def initialModel_def)
  ultimately show ?thesis using dashboard_freezes [OF run] by auto
qed

section \<open>The table\<close>

lemma length_pad [simp]: "length (pad s w) = w"
  by (simp add: pad_def)

lemma length_join: "ss \<noteq> [] \<Longrightarrow> length (join sep ss) = sum_list (map length ss) + (length ss - 1) * length sep"
  by (induction sep ss rule: join.induct) auto

definition unstyled :: "style \<Rightarrow> string \<Rightarrow> string" where
  "unstyled st s = s"

text \<open>
  The table is aligned: the header, the rule below it and the row of every drone, whatever its
  values, have the same width.
\<close>

theorem table_aligned:
  "length (renderRow unstyled now d) = length (ruleLine unstyled) \<and> length (headerLine unstyled) = length (ruleLine unstyled)"
  by (simp add: renderRow_def rowCells_def headerLine_def ruleLine_def headers_def colWidths_def colSum_def unstyled_def
      length_join split_beta)

end
