(* ===== verification/Capture.thy ===== *)
theory Capture
  imports Simulator
begin

text \<open>
  The replay tool: \<^verbatim>\<open>cmd/replay/generate.go\<close> writes a capture file of a simple flight, and
  \<^verbatim>\<open>replayFile\<close> of \<^verbatim>\<open>cmd/replay/main.go\<close> reads a capture and sends its frames with their delays.  A
  file is its bytes; the signal channel, the socket and the sleeping are the arguments and the
  actions of the loop.
\<close>

section \<open>The payloads of the generator\<close>

definition buildHB :: "bool \<Rightarrow> byte list go" where
  "buildHB armed =
    (let base = 0x01; base = (if armed then base OR 0x80 else base) in
     go_bind (write_at (replicate 9 0) 0 (put_uint32 (push_bit 16 4 OR push_bit 24 4))) (\<lambda>p.
     go_bind (set_at p 4 2) (\<lambda>p.
     go_bind (set_at p 5 12) (\<lambda>p.
     go_bind (set_at p 6 base) (\<lambda>p.
     go_bind (set_at p 7 4) (\<lambda>p.
     set_at p 8 3))))))"

definition buildGP :: "(f64 \<Rightarrow> int) \<Rightarrow> instant \<Rightarrow> f64 \<Rightarrow> f64 \<Rightarrow> f64 \<Rightarrow> f64 \<Rightarrow> byte list go" where
  "buildGP wild now lat lon alt heading =
    go_bind (write_at (replicate 28 0) 0 (put_uint32 (word_of_int (unix_milli now)))) (\<lambda>p.
    go_bind (write_at p 4 (put_uint32 (scale_s32 wild lat 10000000))) (\<lambda>p.
    go_bind (write_at p 8 (put_uint32 (scale_s32 wild lon 10000000))) (\<lambda>p.
    go_bind (write_at p 12 (put_uint32 (scale_s32 wild alt 1000))) (\<lambda>p.
    go_bind (write_at p 16 (put_uint32 (scale_s32 wild (f64_sub alt (f64_lit 10)) 1000))) (\<lambda>p.
    write_at p 26 (put_uint16 (f64_to_u16 wild (f64_mul heading (f64_lit 100)))))))))"

definition buildAtt :: "instant \<Rightarrow> f64 \<Rightarrow> f64 \<Rightarrow> f64 \<Rightarrow> byte list go" where
  "buildAtt now roll pitch yaw =
    go_bind (write_at (replicate 28 0) 0 (put_uint32 (word_of_int (unix_milli now)))) (\<lambda>p.
    go_bind (write_at p 4 (put_uint32 (f32_bits roll))) (\<lambda>p.
    go_bind (write_at p 8 (put_uint32 (f32_bits pitch))) (\<lambda>p.
    write_at p 12 (put_uint32 (f32_bits yaw)))))"

definition buildBatt :: "(f64 \<Rightarrow> int) \<Rightarrow> f64 \<Rightarrow> int8 \<Rightarrow> byte list go" where
  "buildBatt wild voltage remaining =
    (let cellV = f64_to_u16 wild (f64_mul (f64_div voltage (f64_lit 4)) (f64_lit 1000)) in
     go_bind (putCells cellV [0..<4] (replicate 36 0)) (\<lambda>p.
     go_bind (putCells 0xFFFF [4..<10] p) (\<lambda>p.
     go_bind (write_at p 30 (put_uint16 1500)) (\<lambda>p.
     set_at p 35 remaining))))"

definition buildGPS :: "(f64 \<Rightarrow> int) \<Rightarrow> f64 \<Rightarrow> f64 \<Rightarrow> f64 \<Rightarrow> f64 \<Rightarrow> byte list go" where
  "buildGPS wild lat lon alt heading =
    go_bind (set_at (replicate 30 0) 7 3) (\<lambda>p.
    go_bind (write_at p 8 (put_uint32 (scale_s32 wild lat 10000000))) (\<lambda>p.
    go_bind (write_at p 12 (put_uint32 (scale_s32 wild lon 10000000))) (\<lambda>p.
    go_bind (write_at p 16 (put_uint32 (scale_s32 wild alt 1000))) (\<lambda>p.
    go_bind (write_at p 20 (put_uint16 120)) (\<lambda>p.
    go_bind (write_at p 22 (put_uint16 150)) (\<lambda>p.
    go_bind (write_at p 24 (put_uint16 500)) (\<lambda>p.
    go_bind (write_at p 26 (put_uint16 (f64_to_u16 wild (f64_mul heading (f64_lit 100))))) (\<lambda>p.
    set_at p 29 12))))))))"

section \<open>Generating a capture\<close>

record GenState =
  g_lat :: f64
  g_lon :: f64
  g_alt :: f64
  g_heading :: f64
  g_battery :: int8
  g_battV :: f64
  g_seq :: uint8
  g_armed :: bool

definition gen_init :: GenState where
  "gen_init = \<lparr>g_lat = f64_lit (377749 / 10000), g_lon = f64_lit (- 1224194 / 10000), g_alt = f64_lit 10,
     g_heading = Fin 0, g_battery = 100, g_battV = f64_lit (168 / 10), g_seq = 0, g_armed = False\<rparr>"

text \<open>The flight of one tick, at \<open>t\<close> seconds.\<close>

definition genFly :: "mathlib \<Rightarrow> f64 \<Rightarrow> GenState \<Rightarrow> GenState" where
  "genFly mt t g =
    (let g = (if f64_le (f64_lit 3) t \<and> \<not> g_armed g then g\<lparr>g_armed := True\<rparr> else g) in
     if g_armed g \<and> f64_lt (g_alt g) (f64_lit 50) \<and> f64_lt t (f64_lit 10)
     then g\<lparr>g_alt := f64_add (g_alt g) (f64_lit (1 / 2))\<rparr>
     else if g_armed g \<and> f64_le (f64_lit 10) t \<and> f64_lt t (f64_lit 50)
     then
       (let angle = f64_mul (f64_mul (f64_mul (f64_sub t (f64_lit 10)) (f64_lit (5 / 100))) (f64_lit 2)) (f64_lit Pi)
        in g\<lparr>g_lat := f64_add (f64_lit (377749 / 10000)) (f64_mul (f64_lit (1 / 1000)) (m_cos mt angle)),
             g_lon := f64_add (f64_lit (- 1224194 / 10000)) (f64_mul (f64_lit (1 / 1000)) (m_sin mt angle)),
             g_heading := m_mod mt (f64_add (f64_div (f64_mul angle (f64_lit 180)) (f64_lit Pi)) (f64_lit 90)) (f64_lit 360)\<rparr>)
     else if g_armed g \<and> f64_le (f64_lit 50) t
     then
       (let g = g\<lparr>g_alt := f64_sub (g_alt g) (f64_lit (3 / 10))\<rparr>
        in if f64_le (g_alt g) (f64_lit (105 / 10)) then g\<lparr>g_alt := f64_lit 10, g_armed := False\<rparr> else g)
     else g)"

definition gen_noise :: "f64 \<Rightarrow> f64" where
  "gen_noise draw = f64_mul (f64_sub draw (f64_lit (1 / 2))) (f64_lit (3 / 10000000))"

record gen_env =
  ge_math :: mathlib
  ge_wild :: "f64 \<Rightarrow> int"
  ge_now :: "nat \<Rightarrow> instant"
  ge_noise :: "nat \<Rightarrow> f64 \<times> f64"

definition genState :: "gen_env \<Rightarrow> nat \<Rightarrow> GenState \<Rightarrow> GenState" where
  "genState ge tick g =
    (let g = genFly (ge_math ge) (f64_div (f64_of_int (int tick)) (f64_of_int 10)) g;
         g = g\<lparr>g_lat := f64_add (g_lat g) (gen_noise (fst (ge_noise ge tick))),
               g_lon := f64_add (g_lon g) (gen_noise (snd (ge_noise ge tick)))\<rparr>
     in if g_armed g \<and> tick mod 10 = 0 \<and> 0 < sint (g_battery g)
        then g\<lparr>g_battery := g_battery g - 1, g_battV := f64_sub (g_battV g) (f64_lit (1 / 100))\<rparr> else g)"

definition genMessage :: "gen_env \<Rightarrow> nat \<Rightarrow> GenState \<Rightarrow> uint32 \<times> byte list go" where
  "genMessage ge tick g =
    (if tick mod 5 = 0 then (0, buildHB (g_armed g))
     else if tick mod 5 = 1 then (33, buildGP (ge_wild ge) (ge_now ge tick) (g_lat g) (g_lon g) (g_alt g) (g_heading g))
     else if tick mod 5 = 2 then
       (30, buildAtt (ge_now ge tick) (f64_lit (1 / 100)) (f64_lit (- 2 / 100))
          (f64_div (f64_mul (g_heading g) (f64_lit Pi)) (f64_lit 180)))
     else if tick mod 5 = 3 then (147, buildBatt (ge_wild ge) (g_battV g) (g_battery g))
     else (24, buildGPS (ge_wild ge) (g_lat g) (g_lon g) (g_alt g) (g_heading g)))"

text \<open>A record of the file: the delay, the length, the frame.\<close>

definition record_bytes :: "uint32 \<times> byte list \<Rightarrow> byte list" where
  "record_bytes r = put_uint32 (fst r) @ put_uint16 (of_nat (length (snd r))) @ snd r"

definition genTick :: "gen_env \<Rightarrow> nat \<Rightarrow> GenState \<Rightarrow> (byte list \<times> GenState) go" where
  "genTick ge tick g =
    (let g = genState ge tick g; (msgID, payload) = genMessage ge tick g in
     go_bind payload (\<lambda>payload.
     go_bind (buildSimFrame (g_seq g) msgID payload) (\<lambda>(frame, seq).
     Val (frame, g\<lparr>g_seq := seq\<rparr>))))"

text \<open>The loop over the ticks from \<open>tick\<close> on: the bytes written.\<close>

fun genLoop :: "gen_env \<Rightarrow> nat \<Rightarrow> nat \<Rightarrow> GenState \<Rightarrow> byte list go" where
  "genLoop ge tick 0 g = Val []"
| "genLoop ge tick (Suc n) g =
    go_bind (genTick ge tick g) (\<lambda>(frame, g).
    go_bind (genLoop ge (Suc tick) n g) (\<lambda>bytes. Val (record_bytes (100000, frame) @ bytes)))"

text \<open>The contents of the file; \<open>None\<close> when it cannot be created.\<close>

definition generateCapture :: "bool \<Rightarrow> gen_env \<Rightarrow> int \<Rightarrow> byte list option go" where
  "generateCapture creatable ge durationSec =
    (if \<not> creatable then Val None
     else go_bind (genLoop ge 0 (nat (durationSec * 10)) gen_init) (\<lambda>bytes. Val (Some bytes)))"

section \<open>Replaying a capture\<close>

datatype read_end = AtEOF | AtError

datatype action = SleepFor duration | WriteFrame "byte list"

datatype replay_result = ReplayDone | ReplayInterrupted | ReplayFailed

definition short_read :: "read_end \<Rightarrow> replay_result" where
  "short_read e = (case e of AtEOF \<Rightarrow> ReplayDone | AtError \<Rightarrow> ReplayFailed)"

text \<open>\<^verbatim>\<open>time.Duration(float64(delayUS) / speed * float64(time.Microsecond))\<close>, when it is slept.\<close>

definition replay_delay :: "(f64 \<Rightarrow> int) \<Rightarrow> f64 \<Rightarrow> uint32 \<Rightarrow> action list" where
  "replay_delay wild speed delayUS =
    (if 0 < delayUS \<and> f64_lt (Fin 0) speed then
       (let delay = f64_to_int wild (- (2 ^ 63)) (2 ^ 63 - 1)
              (f64_mul (f64_div (f64_of_int (uint delayUS)) speed) (f64_of_int 1000))
        in if 0 < delay \<and> delay < 10 * 1000000000 then [SleepFor delay] else [])
     else [])"

text \<open>
  The loop: the answers of the non-blocking look at the signal channel, the bytes not read yet, the
  number sent.  A failed write is only logged.
\<close>

function replayLoop ::
    "(f64 \<Rightarrow> int) \<Rightarrow> f64 \<Rightarrow> read_end \<Rightarrow> bool list \<Rightarrow> byte list \<Rightarrow> int \<Rightarrow> action list \<times> int \<times> replay_result" where
  "replayLoop wild speed fin sigs r sent =
    (if sigs \<noteq> [] \<and> hd sigs then ([], sent, ReplayInterrupted)
     else if length r < 6 then ([], sent, short_read fin)
     else
       (let delayUS = u32_of (r ! 0) (r ! 1) (r ! 2) (r ! 3); frameLen = u16_of (r ! 4) (r ! 5); r = drop 6 r in
        if frameLen = 0 \<or> 300 < frameLen then replayLoop wild speed fin (tl sigs) r sent
        else if length r < unat frameLen then ([], sent, short_read fin)
        else
          (let frame = take (unat frameLen) r;
               (acts, result) = replayLoop wild speed fin (tl sigs) (drop (unat frameLen) r) (sent + 1)
           in (replay_delay wild speed delayUS @ WriteFrame frame # acts, result))))"
  by pat_completeness auto
termination
  by (relation "measure (\<lambda>(wild, speed, e, sigs, r, sent). length r)") auto

declare replayLoop.simps [simp del]

definition replayFile ::
    "(f64 \<Rightarrow> int) \<Rightarrow> f64 \<Rightarrow> read_end \<Rightarrow> bool list \<Rightarrow> byte list \<Rightarrow> action list \<times> int \<times> replay_result" where
  "replayFile wild speed fin sigs r = replayLoop wild speed fin sigs r 0"

fun written :: "action list \<Rightarrow> byte list list" where
  "written [] = []"
| "written (WriteFrame f # acts) = f # written acts"
| "written (SleepFor d # acts) = written acts"

section \<open>The replay program\<close>

text \<open>
  One pass over the file: what opening it gives (its contents and how reading them ends), and the
  answers of the signal channel.
\<close>

record replay_pass =
  rp_file :: "(byte list \<times> read_end) option"
  rp_sigs :: "bool list"

datatype replay_exit =
    OpenFailed       \<comment> \<open>exit status 1, no summary\<close>
  | Finished         \<comment> \<open>the summary is logged\<close>
  | StillRunning

text \<open>
  The loop over the passes: what it does, the frames sent, the passes made.  An interrupt and a failed
  read both end it.
\<close>

fun replayPasses ::
    "(f64 \<Rightarrow> int) \<Rightarrow> f64 \<Rightarrow> bool \<Rightarrow> replay_pass list \<Rightarrow> int \<Rightarrow> int \<Rightarrow> action list \<times> int \<times> int \<times> replay_exit" where
  "replayPasses wild speed again [] totalSent passes = ([], totalSent, passes, StillRunning)"
| "replayPasses wild speed again (p # ps) totalSent passes =
    (case rp_file p of
       None \<Rightarrow> ([], totalSent, passes, OpenFailed)
     | Some (bytes, fin) \<Rightarrow>
         (case replayFile wild speed fin (rp_sigs p) bytes of
            (acts, sent, result) \<Rightarrow>
              if result \<noteq> ReplayDone \<or> \<not> again then (acts, totalSent + sent, passes + 1, Finished)
              else
                (case replayPasses wild speed again ps (totalSent + sent) (passes + 1) of
                   (later, rest) \<Rightarrow> (acts @ later, rest))))"

record replay_flags =
  rf_file :: string
  rf_speed :: f64
  rf_loop :: bool
  rf_generate :: bool
  rf_duration :: int

datatype replay_main =
    Generated "byte list"
  | GenerationFailed
  | BadFlags
  | NoTarget
  | Replayed "action list" int int replay_exit

text \<open>\<^verbatim>\<open>main\<close> after the flags: \<open>dialed\<close> says whether the target resolves and the socket opens.\<close>

definition replayMain ::
    "(f64 \<Rightarrow> int) \<Rightarrow> bool \<Rightarrow> gen_env \<Rightarrow> bool \<Rightarrow> replay_flags \<Rightarrow> replay_pass list \<Rightarrow> replay_main go" where
  "replayMain wild creatable ge dialed fl ps =
    (if rf_generate fl then
       go_bind (generateCapture creatable ge (rf_duration fl)) (\<lambda>r.
       Val (case r of None \<Rightarrow> GenerationFailed | Some bytes \<Rightarrow> Generated bytes))
     else if rf_file fl = [] then Val BadFlags
     else if f64_le (rf_speed fl) (Fin 0) then Val BadFlags
     else if \<not> dialed then Val NoTarget
     else
       (case replayPasses wild (rf_speed fl) (rf_loop fl) ps 0 0 of
          (acts, totalSent, passes, ex) \<Rightarrow> Val (Replayed acts totalSent passes ex)))"

end
