(* ===== verification/Replay.thy ===== *)
theory Replay
  imports Capture_Theorems
begin

text \<open>What any run of the replay program can put on the wire, whatever is in its file.\<close>

section \<open>One pass\<close>

definition act_ok :: "action \<Rightarrow> bool" where
  "act_ok a = (case a of SleepFor d \<Rightarrow> 0 < d \<and> d < 10 * second | WriteFrame f \<Rightarrow> 0 < length f \<and> length f \<le> 300)"

lemma delay_ok: "a \<in> set (replay_delay wild speed us) \<Longrightarrow> act_ok a"
  by (auto simp: replay_delay_def Let_def act_ok_def second_def split: if_splits)

lemma written_append [simp]: "written (xs @ ys) = written xs @ written ys"
  by (induction xs rule: written.induct) auto

lemma written_delay [simp]: "written (replay_delay wild speed us) = []"
  by (simp add: replay_delay_def Let_def)

text \<open>The bytes a list of frames takes in a file, headers included.\<close>

definition file_size :: "byte list list \<Rightarrow> nat" where
  "file_size fs = sum_list (map (\<lambda>f. 6 + length f) fs)"

lemma file_size_simps [simp]:
  "file_size [] = 0" "file_size (f # fs) = 6 + length f + file_size fs" "file_size (fs @ gs) = file_size fs + file_size gs"
  by (simp_all add: file_size_def)

lemma replayLoop_bounded:
  assumes "replayLoop wild speed fin sigs r sent = (acts, sent', result)"
  shows "sent' = sent + int (length (written acts)) \<and> (\<forall>a\<in>set acts. act_ok a) \<and> file_size (written acts) \<le> length r"
  using assms
proof (induction wild speed fin sigs r sent arbitrary: acts sent' result rule: replayLoop.induct)
  case (1 wild speed fin sigs r sent)
  define len where "len = u16_of (r ! 4) (r ! 5)"
  have unfold: "replayLoop wild speed fin sigs r sent =
    (if sigs \<noteq> [] \<and> hd sigs then ([], sent, ReplayInterrupted)
     else if length r < 6 then ([], sent, short_read fin)
     else if len = 0 \<or> 300 < len then replayLoop wild speed fin (tl sigs) (drop 6 r) sent
     else if length (drop 6 r) < unat len then ([], sent, short_read fin)
     else (case replayLoop wild speed fin (tl sigs) (drop (unat len) (drop 6 r)) (sent + 1) of
         (acts, result) \<Rightarrow> (replay_delay wild speed (u32_of (r ! 0) (r ! 1) (r ! 2) (r ! 3)) @
            WriteFrame (take (unat len) (drop 6 r)) # acts, result)))"
    by (subst replayLoop.simps) (simp add: Let_def len_def)
  consider "sigs \<noteq> [] \<and> hd sigs \<or> length r < 6"
    | "\<not> (sigs \<noteq> [] \<and> hd sigs)" "6 \<le> length r" "len = 0 \<or> 300 < len"
    | "\<not> (sigs \<noteq> [] \<and> hd sigs)" "6 \<le> length r" "len \<noteq> 0" "len \<le> 300" "length (drop 6 r) < unat len"
    | "\<not> (sigs \<noteq> [] \<and> hd sigs)" "6 \<le> length r" "len \<noteq> 0" "len \<le> 300" "unat len \<le> length (drop 6 r)"
    by fastforce
  then show ?case
  proof cases
    case 2
    then have "replayLoop wild speed fin (tl sigs) (drop 6 r) sent = (acts, sent', result)"
      using 1(3) unfolding unfold by (auto split: if_splits)
    from 1(1) [OF _ _ refl refl refl _ this] 2 show ?thesis by (fastforce simp: len_def)
  next
    case 4
    obtain acts' where rec: "replayLoop wild speed fin (tl sigs) (drop (unat len) (drop 6 r)) (sent + 1) = (acts', sent', result)"
      "acts = replay_delay wild speed (u32_of (r ! 0) (r ! 1) (r ! 2) (r ! 3)) @ WriteFrame (take (unat len) (drop 6 r)) # acts'"
      using 1(3) 4 unfolding unfold by (auto split: prod.splits if_splits)
    have IH: "sent' = sent + 1 + int (length (written acts')) \<and> (\<forall>a\<in>set acts'. act_ok a) \<and>
        file_size (written acts') \<le> length (drop (unat len) (drop 6 r))"
      using 1(2) [OF _ _ refl refl refl _ _ refl] 4 rec(1) by (fastforce simp: len_def)
    have "unat len \<le> 300" "0 < unat len" using 4(3,4) by (simp_all add: word_le_nat_alt unat_gt_0)
    then show ?thesis using IH 4(2,5) rec(2) delay_ok by (auto simp: act_ok_def)
  qed (use 1(3) in \<open>auto simp: unfold split: if_splits prod.splits\<close>)
qed

section \<open>The program\<close>

text \<open>The bytes the passes could read.\<close>

definition readable :: "replay_pass list \<Rightarrow> nat" where
  "readable ps = sum_list (map (\<lambda>p. case rp_file p of None \<Rightarrow> 0 | Some (bytes, fin) \<Rightarrow> length bytes) ps)"

lemma replayPasses_bounded:
  assumes "replayPasses wild speed again ps count passes = (acts, count', passes', ex)"
  shows "count' = count + int (length (written acts)) \<and> (\<forall>a\<in>set acts. act_ok a) \<and>
    file_size (written acts) \<le> readable ps \<and> passes \<le> passes' \<and> passes' \<le> passes + int (length ps) \<and>
    (\<not> again \<longrightarrow> passes' \<le> passes + 1)"
  using assms
proof (induction ps arbitrary: count passes acts)
  case (Cons p ps)
  show ?case
  proof (cases "rp_file p")
    case None
    then show ?thesis using Cons.prems by (auto simp: readable_def)
  next
    case (Some bf)
    obtain bytes fin where bf: "bf = (bytes, fin)" by fastforce
    obtain acts1 sent result where f: "replayFile wild speed fin (rp_sigs p) bytes = (acts1, sent, result)"
      by (cases "replayFile wild speed fin (rp_sigs p) bytes") auto
    have one: "sent = int (length (written acts1))" "\<forall>a\<in>set acts1. act_ok a" "file_size (written acts1) \<le> length bytes"
      using replayLoop_bounded [of wild speed fin "rp_sigs p" bytes 0] f by (auto simp: replayFile_def)
    have readable: "readable (p # ps) = length bytes + readable ps" by (simp add: readable_def Some bf)
    show ?thesis
    proof (cases "result \<noteq> ReplayDone \<or> \<not> again")
      case True
      then show ?thesis using Cons.prems one readable by (auto simp: Some bf f)
    next
      case False
      obtain later where m: "replayPasses wild speed again ps (count + sent) (passes + 1) = (later, count', passes', ex)"
        "acts = acts1 @ later"
        using Cons.prems False by (auto simp: Some bf f split: prod.splits)
      from Cons.IH [OF m(1)] show ?thesis using one readable m(2) False by auto
    qed
  qed
qed (auto simp: readable_def)



end
