(* ===== verification/Simulator_Session.thy ===== *)
theory Simulator_Session
  imports Simulator_Theorems
begin

text \<open>A whole session of the traffic simulator: the fleet, every tick, every datagram.\<close>

section \<open>One message\<close>

definition kind_id :: "int \<Rightarrow> uint32" where
  "kind_id kind =
    (if kind = 0 then 0 else if kind = 1 then 33 else if kind = 2 then 30 else if kind = 3 then 147 else 24)"

lemma built_frame:
  "length p \<le> 36 \<Longrightarrow> \<exists>q. length q \<le> 36 \<and>
     buildFrame d m p = Val (frame_bytes (sl_Seq d) (sl_SystemID d) m q, d\<lparr>sl_Seq := sl_Seq d + 1\<rparr>)"
  by (intro exI [of _ p]) (simp add: buildFrame_eq)

lemma small_payloads:
  "\<exists>p. hb_payload d = Val p \<and> length p \<le> 36" "\<exists>p. gp_payload mt wild now d = Val p \<and> length p \<le> 36"
  "\<exists>p. att_payload now d = Val p \<and> length p \<le> 36" "\<exists>p. bat_payload wild draw d = Val p \<and> length p \<le> 36"
  "\<exists>p. raw_payload wild now d = Val p \<and> length p \<le> 36"
  using gp_payload_eq [of mt wild now d] att_payload_eq [of now d] bat_payload_eq [of wild draw d] raw_payload_eq [of wild now d]
  by (simp_all add: hb_payload_eq) (elim exE; force)+

lemma buildMessage_frame:
  assumes "kind \<in> {0..4}"
  shows "\<exists>p. length p \<le> 36 \<and> buildMessage te kind d =
    Val (frame_bytes (sl_Seq d) (sl_SystemID d) (kind_id kind) p, d\<lparr>sl_Seq := sl_Seq d + 1\<rparr>)"
proof -
  consider "kind = 0" | "kind = 1" | "kind = 2" | "kind = 3" | "kind = 4" using assms by fastforce
  then show ?thesis
  proof cases
    case 1
    then show ?thesis
      using small_payloads(1) [of d] built_frame [of _ d 0]
      by (auto simp: buildMessage_def buildHeartbeat_def kind_id_def)
  next
    case 2
    then show ?thesis
      using small_payloads(2) [of "te_math te" "te_wild te" "te_now te" d] built_frame [of _ d 33]
      by (auto simp: buildMessage_def buildGlobalPosition_def kind_id_def)
  next
    case 3
    then show ?thesis
      using small_payloads(3) [of "te_now te" d] built_frame [of _ d 30]
      by (auto simp: buildMessage_def buildAttitude_def kind_id_def)
  next
    case 4
    then show ?thesis
      using small_payloads(4) [of "te_wild te" "te_current te" d] built_frame [of _ d 147]
      by (auto simp: buildMessage_def buildBatteryStatus_def kind_id_def)
  next
    case 5
    then show ?thesis
      using small_payloads(5) [of "te_wild te" "te_now te" d] built_frame [of _ d 24]
      by (auto simp: buildMessage_def buildGPSRaw_def kind_id_def)
  qed
qed

lemma frame_parses:
  assumes "length p \<le> 36" "m < 2 ^ 24" "m \<noteq> 245"
  shows "ParseFrame q (frame_bytes seq sys m p) = Val (Inr (sent_frame seq sys m p, 12 + length p))"
  using simulator.sent_parses [OF buildFrame_eq [of "\<lparr>sl_SystemID = sys, sl_Seq = seq\<rparr>" m p] _ assms(2,3), of q "[]"] assms(1)
  by simp

section \<open>One tick\<close>

text \<open>A datagram of vehicle \<open>d\<close>, and the vehicle after it.\<close>

definition emits :: "int \<Rightarrow> SimDrone \<Rightarrow> byte list \<times> SimDrone \<Rightarrow> bool" where
  "emits kind d r \<longleftrightarrow> sim_ok (snd r) \<and> sl_SystemID (snd r) = sl_SystemID d \<and> sl_Seq (snd r) = sl_Seq d + 1 \<and>
     (\<exists>p. length p \<le> 36 \<and> fst r = frame_bytes (sl_Seq d) (sl_SystemID d) (kind_id kind) p)"

lemma tickLoop_emits:
  assumes "kind \<in> {0..4}" "\<forall>d\<in>set ds. sim_ok d" "length ds \<le> length drs"
  shows "\<exists>bufs ds'. tickLoop te kind (zip drs ds) = Val (bufs, ds') \<and> length bufs = length ds \<and>
    list_all2 (emits kind) ds (zip bufs ds') \<and> length ds' = length ds"
  using assms(2,3)
proof (induction ds arbitrary: drs)
  case (Cons d ds)
  then obtain dr drs' where drs: "drs = dr # drs'" "length ds \<le> length drs'" by (cases drs) auto
  obtain d1 where d1: "step (te_math te) dr d = Val d1" "sim_ok d1" "sl_SystemID d1 = sl_SystemID d" "sl_Seq d1 = sl_Seq d"
    using step_ok Cons.prems(1) by (metis list.set_intros(1))
  obtain p where p: "length p \<le> 36" "buildMessage te kind d1 =
      Val (frame_bytes (sl_Seq d1) (sl_SystemID d1) (kind_id kind) p, d1\<lparr>sl_Seq := sl_Seq d1 + 1\<rparr>)"
    using buildMessage_frame [OF assms(1)] by blast
  obtain bufs ds' where "tickLoop te kind (zip drs' ds) = Val (bufs, ds')" "length bufs = length ds"
      "list_all2 (emits kind) ds (zip bufs ds')" "length ds' = length ds"
    using Cons.IH [OF _ drs(2)] Cons.prems(1) by auto
  moreover have "sim_ok (d1\<lparr>sl_Seq := sl_Seq d1 + 1\<rparr>)" using d1(2) by (simp add: sim_ok_def)
  then have "emits kind d (frame_bytes (sl_Seq d1) (sl_SystemID d1) (kind_id kind) p, d1\<lparr>sl_Seq := sl_Seq d1 + 1\<rparr>)"
    using d1 p(1) by (auto simp: emits_def)
  ultimately show ?case using d1(1) p(2) by (simp add: drs(1))
qed simp

text \<open>The fleet after \<open>k\<close> ticks: vehicle \<open>i\<close> has the number \<open>i + 1\<close> and has sent \<open>k\<close> messages.\<close>

definition fleet_at :: "nat \<Rightarrow> SimDrone list \<Rightarrow> bool" where
  "fleet_at k sims \<longleftrightarrow>
     (\<forall>i<length sims. sim_ok (sims ! i) \<and> sl_SystemID (sims ! i) = of_nat (i + 1) \<and> sl_Seq (sims ! i) = of_nat k)"

definition tick_frame :: "nat \<Rightarrow> nat \<Rightarrow> byte list \<Rightarrow> bool" where
  "tick_frame k i buf \<longleftrightarrow>
     (\<exists>p. length p \<le> 36 \<and> buf = frame_bytes (of_nat k) (of_nat (i + 1)) (kind_id (int k mod 5)) p)"

lemma simTick_emits:
  assumes "fleet_at k sims" "sims \<noteq> []" "length sims < 2 ^ 57" "length sims \<le> length (te_draws te)"
  shows "\<exists>bufs sims'. simTick te (int k) count sims = Val (bufs, sims', count + of_nat (length sims)) \<and>
    fleet_at (Suc k) sims' \<and> length sims' = length sims \<and> length bufs = length sims \<and>
    (\<forall>i<length sims. tick_frame k i (bufs ! i))"
proof -
  have "0 \<le> int k mod 5" "int k mod 5 < 5" by simp_all
  then have kind: "int k mod 5 \<in> {0..4}" by auto
  have "\<forall>d\<in>set sims. sim_ok d" using assms(1) by (auto simp: fleet_at_def in_set_conv_nth)
  then obtain bufs sims' where t: "tickLoop te (int k mod 5) (zip (te_draws te) sims) = Val (bufs, sims')"
    "length bufs = length sims" "list_all2 (emits (int k mod 5)) sims (zip bufs sims')" "length sims' = length sims"
    using tickLoop_emits [OF kind _ assms(4)] by blast
  have each: "emits (int k mod 5) (sims ! i) (bufs ! i, sims' ! i)" if "i < length sims" for i
    using that t(2-4) by (auto simp: list_all2_conv_all_nth)
  have "unat (of_nat (length sims * 100) :: uint64) = length sims * 100"
    using assms(3) by (simp add: unsigned_of_nat take_bit_nat_eq_self del: of_nat_mult)
  then have "of_nat (length sims) * 100 \<noteq> (0 :: uint64)" using assms(2) by auto
  then have "simTick te (int k) count sims = Val (bufs, sims', count + of_nat (length sims))"
    by (simp add: simTick_def go_rem_pos t(1,2))
  moreover have "fleet_at (Suc k) sims'"
    using each assms(1) t(4) by (auto simp: fleet_at_def emits_def)
  moreover have "\<forall>i<length sims. tick_frame k i (bufs ! i)"
    using each assms(1) by (auto simp: fleet_at_def emits_def tick_frame_def)
  ultimately show ?thesis using t(2,4) by blast
qed

section \<open>The session\<close>

fun ticks_of :: "sim_event list \<Rightarrow> tick_env list" where
  "ticks_of (Tick te # es) = te # ticks_of es"
| "ticks_of _ = []"

lemma simLoop_sends:
  assumes "fleet_at k sims" "sims \<noteq> []" "length sims < 2 ^ 57" "k + length (ticks_of es) < 2 ^ 63"
    and "\<forall>te\<in>set (ticks_of es). length sims \<le> length (te_draws te)"
  shows "\<exists>sent sims'. simLoop es (int k) count sims =
      Val (sent, sims', count + of_nat (length sims * length (ticks_of es))) \<and>
    fleet_at (k + length (ticks_of es)) sims' \<and> length sims' = length sims \<and> length sent = length (ticks_of es) \<and>
    (\<forall>j<length sent. length (sent ! j) = length sims \<and> (\<forall>i<length sims. tick_frame (k + j) i (sent ! j ! i)))"
  using assms
proof (induction es arbitrary: k sims count)
  case (Cons e es)
  show ?case
  proof (cases e)
    case (Tick te)
    have "length sims \<le> length (te_draws te)" using Cons.prems(5) Tick by simp
    from simTick_emits [OF Cons.prems(1,2,3) this, of count]
    obtain bufs sims1 where t: "simTick te (int k) count sims = Val (bufs, sims1, count + of_nat (length sims))"
      "fleet_at (Suc k) sims1" "length sims1 = length sims" "length bufs = length sims"
      "\<forall>i<length sims. tick_frame k i (bufs ! i)"
      by blast
    have wrap: "wrap64 (int k + 1) = int (Suc k)" using Cons.prems(4) Tick by (subst wrap64_id) auto
    have "sims1 \<noteq> []" "length sims1 < 2 ^ 57" "Suc k + length (ticks_of es) < 2 ^ 63"
      "\<forall>te\<in>set (ticks_of es). length sims1 \<le> length (te_draws te)"
      using Cons.prems t(3) Tick by auto
    from Cons.IH [OF t(2) this, of "count + of_nat (length sims)"] obtain sent sims2 where
      s: "simLoop es (int (Suc k)) (count + of_nat (length sims)) sims1 =
          Val (sent, sims2, count + of_nat (length sims) + of_nat (length sims * length (ticks_of es)))"
        "fleet_at (Suc k + length (ticks_of es)) sims2" "length sims2 = length sims" "length sent = length (ticks_of es)"
        "\<forall>j<length sent. length (sent ! j) = length sims \<and> (\<forall>i<length sims. tick_frame (Suc k + j) i (sent ! j ! i))"
      using t(3) by auto
    have "simLoop (e # es) (int k) count sims =
        Val (bufs # sent, sims2, count + of_nat (length sims * length (ticks_of (e # es))))"
      using s(1) wrap by (simp add: Tick t(1) algebra_simps)
    moreover have "\<forall>j<length (bufs # sent). length ((bufs # sent) ! j) = length sims \<and>
        (\<forall>i<length sims. tick_frame (k + j) i ((bufs # sent) ! j ! i))"
      using t(4,5) s(5) by (auto simp: less_Suc_eq_0_disj)
    ultimately show ?thesis using s by (simp add: Tick)
  qed (use Cons.prems in simp)
qed simp

lemma newFleet_at:
  assumes "\<forall>i<n. id_waypoints (draws i) \<noteq> []"
  shows "fleet_at 0 (newFleet mt lat lon spread (map draws [0..<n]))"
    "length (newFleet mt lat lon spread (map draws [0..<n])) = n"
  using assms newSimDrone_ok by (auto simp: fleet_at_def newFleet_def enumerate_eq_zip newSimDrone_def Let_def)

text \<open>
  C14: a session of the simulator with at least one vehicle, at a rate of 1 to a thousand million per
  second, never panics: until the signal every tick sends one datagram per vehicle, each a frame the
  server's parser accepts whole, from vehicle \<open>i + 1\<close> in its place, with the number of the tick as its
  sequence number (both modulo 256) and the kinds of message in their cycle; the total counts them all.
\<close>

theorem session_traffic:
  assumes "1 \<le> sf_drones fl" "sf_drones fl < 2 ^ 57" "1 \<le> sf_rate fl" "sf_rate fl \<le> 10 ^ 9"
    and "\<forall>i<nat (sf_drones fl). id_waypoints (draws i) \<noteq> []"
    and "length (ticks_of es) < 2 ^ 63" "\<forall>te\<in>set (ticks_of es). nat (sf_drones fl) \<le> length (te_draws te)"
  shows "\<exists>sent sims. simulate mt draws fl es =
      Val (sent, sims, of_nat (nat (sf_drones fl) * length (ticks_of es))) \<and> length sent = length (ticks_of es) \<and>
    (\<forall>k<length sent. length (sent ! k) = nat (sf_drones fl) \<and>
      (\<forall>i<nat (sf_drones fl). \<exists>f. ParseFrame q (sent ! k ! i) = Val (Inr (f, length (sent ! k ! i))) \<and>
         fr_SystemID f = of_nat (i + 1) \<and> fr_Sequence f = of_nat k \<and> fr_MessageID f = kind_id (int k mod 5)))"
proof -
  let ?sims = "newFleet mt (sf_baseLat fl) (sf_baseLon fl) (sf_spread fl) (map draws [0..<nat (sf_drones fl)])"
  note fleet = newFleet_at [OF assms(5), of mt "sf_baseLat fl" "sf_baseLon fl" "sf_spread fl"]
  have ne: "?sims \<noteq> []" using fleet(2) assms(1) by (simp flip: length_greater_0_conv)
  have size: "nat (sf_drones fl) < 2 ^ 57" using assms(2) by simp
  obtain sent sims where s: "simLoop es 0 0 ?sims = Val (sent, sims, of_nat (nat (sf_drones fl) * length (ticks_of es)))"
    "length sent = length (ticks_of es)"
    "\<forall>j<length sent. length (sent ! j) = nat (sf_drones fl) \<and> (\<forall>i<nat (sf_drones fl). tick_frame j i (sent ! j ! i))"
    using simLoop_sends [OF fleet(1) ne, of es 0] assms(6,7) size unfolding fleet(2) by auto
  have "0 < trunc_div second (sf_rate fl)"
    using assms(3,4) by (simp add: trunc_div_def second_def sgn_if pos_imp_zdiv_pos_iff)
  then have "simulate mt draws fl es = Val (sent, sims, of_nat (nat (sf_drones fl) * length (ticks_of es)))"
    using assms(1,3) s(1) by (simp add: simulate_def Let_def)
  moreover have "\<exists>f. ParseFrame q buf = Val (Inr (f, length buf)) \<and> fr_SystemID f = of_nat (i + 1) \<and>
      fr_Sequence f = of_nat k \<and> fr_MessageID f = kind_id (int k mod 5)" if frame: "tick_frame k i buf" for k i buf
  proof -
    obtain p where p: "length p \<le> 36" "buf = frame_bytes (of_nat k) (of_nat (i + 1)) (kind_id (int k mod 5)) p"
      using frame by (auto simp: tick_frame_def)
    have "kind_id (int k mod 5) < 2 ^ 24" "kind_id (int k mod 5) \<noteq> 245" by (simp_all add: kind_id_def)
    then show ?thesis using frame_parses [OF p(1)] by (simp add: p(2) sent_frame_def)
  qed
  ultimately show ?thesis using s(2,3) by blast
qed

definition sample_draws :: "nat \<Rightarrow> init_draws" where
  "sample_draws i = \<lparr>id_angle = Fin 0, id_waypoints = [(Fin 0, Fin 0)], id_lat = Fin 0, id_lon = Fin 0\<rparr>"

definition sample_flags :: sim_flags where
  "sample_flags = \<lparr>sf_drones = 2, sf_rate = 10, sf_baseLat = Fin 37, sf_baseLon = Fin 5, sf_spread = Fin 1\<rparr>"

definition sample_ticks :: "sim_event list" where
  "sample_ticks = [Tick (idle_env\<lparr>te_draws := replicate 2 \<lparr>dr_drain = Fin 0, dr_lat = Fin 0, dr_lon = Fin 0\<rparr>\<rparr>), Interrupt]"

theorem session_traffic_witness:
  "\<exists>sent sims f. simulate idle_math sample_draws sample_flags sample_ticks = Val (sent, sims, 2) \<and> length sent = 1 \<and>
     ParseFrame NewParser (sent ! 0 ! 1) = Val (Inr (f, length (sent ! 0 ! 1))) \<and> fr_SystemID f = 2 \<and> fr_MessageID f = 0"
proof -
  have hyps: "1 \<le> sf_drones sample_flags" "sf_drones sample_flags < 2 ^ 57" "1 \<le> sf_rate sample_flags"
    "sf_rate sample_flags \<le> 10 ^ 9" "\<forall>i<nat (sf_drones sample_flags). id_waypoints (sample_draws i) \<noteq> []"
    "length (ticks_of sample_ticks) < 2 ^ 63"
    "\<forall>te\<in>set (ticks_of sample_ticks). nat (sf_drones sample_flags) \<le> length (te_draws te)"
    by (simp_all add: sample_flags_def sample_draws_def sample_ticks_def)
  have size: "length (ticks_of sample_ticks) = 1" "nat (sf_drones sample_flags) = 2"
    by (simp_all add: sample_flags_def sample_ticks_def)
  obtain sent sims where s: "simulate idle_math sample_draws sample_flags sample_ticks = Val (sent, sims, of_nat (2 * 1))"
      "length sent = 1" "\<forall>k<length sent. length (sent ! k) = 2 \<and>
      (\<forall>i<2. \<exists>f. ParseFrame NewParser (sent ! k ! i) = Val (Inr (f, length (sent ! k ! i))) \<and>
         fr_SystemID f = of_nat (i + 1) \<and> fr_Sequence f = of_nat k \<and> fr_MessageID f = kind_id (int k mod 5))"
    using session_traffic [OF hyps, of idle_math NewParser] unfolding size by blast
  from s(2,3) have "\<exists>f. ParseFrame NewParser (sent ! 0 ! 1) = Val (Inr (f, length (sent ! 0 ! 1))) \<and>
      fr_SystemID f = of_nat (1 + 1) \<and> fr_MessageID f = kind_id (int 0 mod 5)"
    by (metis less_numeral_extra(1) one_less_numeral_iff semiring_norm(76))
  then show ?thesis using s(1,2) by (simp add: kind_id_def)
qed

text \<open>
  The vehicles of a fleet of 256 or more share their numbers modulo 256, and the number 0 of the last is one
  the server refuses.
\<close>

lemma vehicle_256_refused: "\<not> ValidateSystemID (of_nat (255 + 1) :: uint8)"
proof -
  have "(of_nat (255 + 1) :: uint8) = 0" by transfer simp
  note zero = this
  show ?thesis unfolding zero by (simp add: ValidateSystemID_def)
qed

end
