(* ===== verification/End_To_End.thy ===== *)
theory End_To_End
  imports Server_Theorems Simulator_Session
begin

text \<open>
  The composition of the components: a position report from the vehicle that sends it to the queue of a
  browser that watches it.
\<close>

section \<open>Position reports\<close>

lemma position_payload: "checked_payload f = Some v \<Longrightarrow> fr_MessageID f = 33 \<Longrightarrow> \<exists>g. v = PGPS g"
  by (auto simp: checked_payload_def payload_of_def protocol_consts Let_def split: if_splits)

lemma position_arrives:
  assumes "flyable d"
  shows "\<exists>bytes ev g. buildMessage te 1 d = Val (bytes, d\<lparr>sl_Seq := sl_Seq d + 1\<rparr>) \<and>
    DecodePacket dec t bytes addr = Val (Inr ev) \<and> ev_DroneID ev = \<lparr>SystemID = sl_SystemID d, ComponentID = 1\<rparr> \<and>
    ev_Timestamp ev = t \<and> ev_Payload ev = PGPS (Some g) \<and> tells d (PGPS (Some g))"
proof -
  obtain bytes ev where ev: "buildMessage te 1 d = Val (bytes, d\<lparr>sl_Seq := sl_Seq d + 1\<rparr>)"
    "DecodePacket dec t bytes addr = Val (Inr ev)" "ev_DroneID ev = \<lparr>SystemID = sl_SystemID d, ComponentID = 1\<rparr>"
    "tells d (ev_Payload ev)"
    using message_arrives [OF assms, of 1 te dec t "[]" addr] by auto
  obtain p where "length p \<le> 36" "bytes = frame_bytes (sl_Seq d) (sl_SystemID d) 33 p"
    using buildMessage_frame [of 1 te d] ev(1) by (auto simp: kind_id_def)
  then have "ParseFrame (dec_parser dec) bytes = Val (Inr (sent_frame (sl_Seq d) (sl_SystemID d) 33 p, 12 + length p))"
    by (simp add: frame_parses)
  with ev(2) have "checked_payload (sent_frame (sl_Seq d) (sl_SystemID d) 33 p) = Some (ev_Payload ev)" "ev_Timestamp ev = t"
    by (auto elim!: DecodePacket_InrD)
  moreover have "fr_MessageID (sent_frame (sl_Seq d) (sl_SystemID d) 33 p) = 33" by (simp add: sent_frame_def)
  ultimately obtain x where "ev_Payload ev = PGPS x" using position_payload by blast
  moreover from this ev(4) obtain g where "x = Some g" by (cases x) (auto simp: tells_def)
  ultimately show ?thesis using ev \<open>ev_Timestamp ev = t\<close> by auto
qed

section \<open>From the registry to a client\<close>

text \<open>A summary that shows vehicle \<open>d\<close> where it was at time \<open>t\<close>, to within the resolution of the wire format.\<close>

definition shows_vehicle :: "SimDrone \<Rightarrow> instant \<Rightarrow> Summary \<Rightarrow> bool" where
  "shows_vehicle d t s \<longleftrightarrow>
     sum_SystemID s = sl_SystemID d \<and> sum_ComponentID s = 1 \<and> sum_IsConnected s \<and> sum_LastSeenMs s = unix_milli t \<and>
     (case (sum_Latitude s, sum_Longitude s, sum_Altitude s) of
        (Some lat, Some lon, Some alt) \<Rightarrow>
          near (100001 / 10 ^ 12) (sd_Lat d) lat \<and> near (100001 / 10 ^ 12) (sd_Lon d) lon \<and>
          near (100001 / 10 ^ 8) (sd_Alt d) alt
      | _ \<Rightarrow> False)"

lemma absorbed_position:
  assumes "ev_Payload ev = PGPS (Some g)"
  shows "st_GPS (absorbed ev st) = Some g"
  using assms by (simp add: absorbed_def Let_def)

lemma ToSummary_shows:
  assumes "st_ID st = \<lparr>SystemID = sl_SystemID d, ComponentID = 1\<rparr>" "st_IsConnected st" "st_LastSeen st = t"
    "st_GPS st = Some g" "tells d (PGPS (Some g))"
  shows "shows_vehicle d t (ToSummary st)"
proof -
  have "sum_IsConnected (ToSummary st) = st_IsConnected st" "sum_ComponentID (ToSummary st) = ComponentID (st_ID st)"
    "sum_LastSeenMs (ToSummary st) = unix_milli (st_LastSeen st)"
    by (simp_all add: ToSummary_def Let_def split: option.split)
  then show ?thesis using assms by (simp add: shows_vehicle_def ToSummary_position tells_def)
qed

lemma broadcast_reaches:
  assumes "clients_ok ws" "known (tv_clients tv) ws" "encodable tv" "wss_clients ws k = Some a"
    and "length (ch_buf (cl_messages (wss_heap ws ! a))) < 64" "s \<in> set (bm_Drones (state_update tv))"
    and "matchesDrone (sum_SystemID s) (wss_heap ws ! a)"
  shows "\<exists>ws' msg. broadcastUpdates tv ws = (Val (), ws') \<and> s \<in> set (bm_Drones msg) \<and>
    ch_buf (cl_messages (wss_heap ws' ! a)) = ch_buf (cl_messages (wss_heap ws ! a)) @ [msg]"
proof -
  let ?c = "wss_heap ws ! a"
  note a = clients_okD [OF assms(1,4)]
  have "a \<in> ran (wss_clients ws)" using assms(4) by (rule ranI)
  then have "ch_buf (cl_messages (wss_heap (broadcast_to (state_update tv) (ran (wss_clients ws)) ws) ! a)) =
      ch_buf (cl_messages ?c) @ [message_for (state_update tv) ?c]"
    using a assms(5) by (simp add: broadcast_to_heap served_def)
  moreover have "s \<in> set (bm_Drones (message_for (state_update tv) ?c))"
    using assms(6,7) by (simp add: message_for_def)
  ultimately show ?thesis using broadcastUpdates_eq [OF assms(1,2)] assms(3) by auto
qed



end
