(* ===== verification/Spec2Isabelle.thy ===== *)
theory Spec2Isabelle
  imports Stale_Checker Hub_Theorems Listener_Life Raw_Payload Websocket_Theorems Export_Theorems Server_Main Metrics
    Tui_Theorems Replay End_To_End
begin

text \<open>
  A verification of the drone telemetry relay: a Go server that takes MAVLink datagrams over UDP,
  checks and decodes them, keeps the state of every drone, and shows it to browsers over WebSocket and
  HTTP, together with its traffic simulator, its capture and replay tool and its terminal dashboard.

  \<^bold>\<open>The way of an event.\<close>  \<^verbatim>\<open>internal/ingest\<close> reads datagrams into pooled buffers and queues them; its
  workers parse and validate them (\<^verbatim>\<open>internal/mavlink\<close>), apply the rate limit and put an event on the
  telemetry channel.  Two goroutines receive from that channel: the hub (\<^verbatim>\<open>internal/pubsub\<close>), which
  copies the event to its subscribers, and the event processor of \<^verbatim>\<open>cmd/server\<close>, which hands it to the
  registry (\<^verbatim>\<open>internal/drone\<close>).  The web server (\<^verbatim>\<open>internal/broadcast\<close>) is a subscriber of the hub; on its
  ticker it sends a summary of the whole registry to every client, and it answers the REST routes.

  \<^bold>\<open>How Go is modelled.\<close>  A value that can panic or block has type \<open>go\<close> (\<open>Val\<close>, \<open>Panic\<close>, \<open>Diverge\<close>), an
  operation on a mutable component is a state transformer \<open>act\<close> (\<open>Prelude\<close>).  Fixed-width integers are
  words; \<^verbatim>\<open>int\<close> counters that cannot reach 63 bits in practice are integers.  A \<^verbatim>\<open>float64\<close> is a rational
  with signed zero, infinities and NaN, each operation rounded to nearest even (\<open>Float64\<close>).  A channel
  is its buffer, capacity and closed flag (\<open>Channel\<close>).  Structs reached through shared pointers live on a
  heap, a list addressed by number: ring buffers, subscribers, clients, packets.  The order of a loop
  over a Go map, the outcomes of a \<^verbatim>\<open>select\<close>, the clock, random draws and what a socket delivers are
  arguments, so a theorem holds for every one of them.  Goroutines are interleaved by step relations,
  whose runs and common laws are in \<open>Transition\<close>.  A log is the list of its records (\<open>Logging\<close>).

  \<^bold>\<open>Theories and sources.\<close>
  \<^item> \<open>Prelude\<close>, \<open>Float64\<close>, \<open>Channel\<close>, \<open>Goroutine\<close>, \<open>Transition\<close>, \<open>Logging\<close>, \<open>Text_Format\<close>, \<open>Netmask\<close>: the
    language and the library the program uses (checked indexing, IEEE arithmetic, channels, supervised
    loops, interleavings, log records, number printing, CIDR matching).
  \<^item> \<open>Protocol\<close> (\<^verbatim>\<open>pkg/protocol/mavlink.go\<close>), \<open>Crc\<close> (\<^verbatim>\<open>crc.go\<close>), \<open>Mavlink\<close>, \<open>Mavlink_Correct\<close>,
    \<open>Mavlink_Theorems\<close> (\<^verbatim>\<open>parser.go\<close>, \<^verbatim>\<open>validate.go\<close>): what frame is accepted and with which result, no
    panic on any input, accepted events within their ranges, every single corrupted byte rejected, the
    checksum equal to its bit-serial definition.
  \<^item> \<open>Config\<close> (\<^verbatim>\<open>internal/config/config.go\<close>).
  \<^item> \<open>History\<close> (\<^verbatim>\<open>history.go\<close>): the ring buffer refines the window of the latest entries.
  \<^item> \<open>Drone\<close>, \<open>Drone_Correct\<close>, \<open>Drone_Theorems\<close>, \<open>Stale_Checker\<close> (\<^verbatim>\<open>state.go\<close>, \<^verbatim>\<open>manager.go\<close>): the
    registry refines, drone by drone, an automaton over the events of that drone; its invariant, its
    notifications, staleness, history, statistics; the goroutine of the stale check.
  \<^item> \<open>Hub\<close>, \<open>Hub_Correct\<close>, \<open>Hub_Theorems\<close> (\<^verbatim>\<open>hub.go\<close>): what a subscriber receives, the accounting of a
    broadcast, supervision, and the hub blocked by one subscriber when dropping is off.
  \<^item> \<open>Ingest\<close>, \<open>Ingest_Correct\<close>, \<open>Rate_Limit\<close>, \<open>Ingest_Theorems\<close> (\<^verbatim>\<open>packet.go\<close>, \<^verbatim>\<open>udp.go\<close>): no packet is lost or
    counted twice, no buffer has two owners, the whitelist, the bound of the token bucket;
    \<open>Listener_Life\<close>: the threads of the listener from its start to the end of its shutdown;
    \<open>Raw_Payload\<close>: what happens to a payload that is a slice of a pooled buffer.
  \<^item> \<open>Websocket\<close>, \<open>Websocket_Correct\<close>, \<open>Websocket_Theorems\<close> (\<^verbatim>\<open>websocket.go\<close>) and \<open>Export\<close>,
    \<open>Export_Theorems\<close> (\<^verbatim>\<open>export.go\<close>): what a broadcast queues for each client, what a client reads over any
    interleaving, the client limit, shutdown, the REST routes and both export formats.
  \<^item> \<open>Server\<close>, \<open>Server_Theorems\<close> (\<^verbatim>\<open>cmd/server/main.go\<close>): start-up, the division of the events, what the
    registry can broadcast, a simulated vehicle through the whole server, shutdown; \<open>Server_Main\<close>: the main
    goroutine as a whole, the goroutines it starts and what it logs; \<open>End_To_End\<close>: a position report from
    the vehicle to the queue of every browser that watches it; \<open>Metrics\<close> (\<^verbatim>\<open>internal/metrics/metrics.go\<close>):
    the metrics that are registered when the program is loaded.
  \<^item> \<open>Sender\<close>, \<open>Convert\<close>, \<open>Simulator\<close>, \<open>Simulator_Theorems\<close>, \<open>Simulator_Session\<close>
    (\<^verbatim>\<open>cmd/simulator/main.go\<close>); \<open>Capture\<close>, \<open>Capture_Theorems\<close>, \<open>Replay\<close> (\<^verbatim>\<open>cmd/replay/generate.go\<close>,
    \<^verbatim>\<open>main.go\<close>); \<open>Tui\<close>, \<open>Tui_Theorems\<close> (\<^verbatim>\<open>cmd/tui/main.go\<close>).

  \<^bold>\<open>Interfaces.\<close>  \<open>sliding_window\<close> (the ring buffer), \<open>lossy_queue\<close> (channels under non-blocking sends),
  \<open>service\<close> (a handler under the supervised loop; interpreted on the hub, the workers, the event
  processor and the stale checker) and \<open>frame_sender\<close> (both frame builders) are locales; each is
  interpreted where the code provides it and the properties rest on the interpretations.  The step
  relations are interpretations of the locales of \<open>Transition\<close>: \<open>invariant\<close> and \<open>tracked\<close> (the registry,
  the ingest pipeline, the listener, the clients, the dashboard), \<open>accounting\<close> (packets and events that
  are moved but never made or lost), \<open>simulation\<close> (what the relay does to the registry is a run of the
  registry) and \<open>resting\<close> (the shutdown of the listener).

  \<^bold>\<open>Termination and bounds.\<close>  Loops are structural or have a measure; the two heading loops, the
  broadcast loop and the stale checker may run for ever and are \<^theory_text>\<open>partial_function\<close>s, and it is proved when
  they return.  The threads of a cancelled listener have a rank that every step lowers.  No fuel is used.
  Counters of 64 bits are compared modulo \<open>2 ^ 64\<close>.  Statements that need an honest bound
  (a fleet below \<open>2 ^ 57\<close>, fewer than \<open>2 ^ 63\<close> ticks, time spans below \<open>2 ^ 63\<close> nanoseconds) say so.

  \<^bold>\<open>Not modelled.\<close>  Sockets, HTTP and WebSocket hand-shakes, signals, flag parsing and the text of log
  records (those of the main goroutine of the server are modelled, the others are not); the YAML,
  JSON and XML encoders (a response is the value handed to the encoder) and the HTTP multiplexer beyond
  its panic on a repeated pattern; the Go memory model (a handler that holds the lock is one step);
  NaN payload bits and fused multiply-add; the trigonometric functions and the printing of times, which
  are parameters; the Prometheus registry, an argument of \<open>Metrics\<close>; the profiling handlers; the terminal
  framework and its styles.  An event carries the bytes of an unknown message, while in the code its
  payload is a slice of the pooled buffer (\<open>Raw_Payload\<close>); no component reads it.
\<close>

end
